(* ===== verification/Prelude.thy ===== *)
theory Prelude
  imports Complex_Main "HOL-Library.Word" "HOL-Library.Sublist"
begin

text \<open>
  Shared vocabulary of the development: errors, instants, 64-bit arithmetic, and the generic
  lemmas on sums, options, lists and association lists that the component theories use.

  A Go error is its text (\<open>err.Error()\<close>), a Go string is its list of bytes, and Go's
  \<open>int\<close>, \<open>int64\<close> and \<open>time.Duration\<close> are HOL integers kept in the signed 64-bit range by
  \<open>wrap64\<close> wherever the program computes with them.
\<close>

section \<open>Collections of facts\<close>

named_theorems field_defs "setters of the fields of a struct, for decoding a given document"

section \<open>Types\<close>

type_synonym error = string

text \<open>An instant is a number of nanoseconds on the program's clock.\<close>

type_synonym instant = int

type_synonym duration = int

abbreviation nanos_per_second :: int where
  "nanos_per_second \<equiv> 1000000000"

section \<open>Signed 64-bit arithmetic\<close>

definition wrap64 :: "int \<Rightarrow> int" where
  "wrap64 i = (i + 2 ^ 63) mod 2 ^ 64 - 2 ^ 63"

definition in_int64 :: "int \<Rightarrow> bool" where
  "in_int64 i \<longleftrightarrow> - (2 ^ 63) \<le> i \<and> i < 2 ^ 63"

definition in_int32 :: "int \<Rightarrow> bool" where
  "in_int32 i \<longleftrightarrow> - (2 ^ 31) \<le> i \<and> i < 2 ^ 31"

lemma wrap64_id [simp]: "in_int64 i \<Longrightarrow> wrap64 i = i"
  by (simp add: wrap64_def in_int64_def)

lemma in_int64_wrap64 [simp, intro]: "in_int64 (wrap64 i)"
proof -
  have "0 \<le> (i + 2 ^ 63) mod 2 ^ 64" "(i + 2 ^ 63) mod 2 ^ 64 < 2 ^ 64"
    by simp_all
  then show ?thesis by (simp add: wrap64_def in_int64_def)
qed

lemma wrap64_idem [simp]: "wrap64 (wrap64 i) = wrap64 i"
  by simp

lemma wrap64_add [simp]: "wrap64 (wrap64 i + j) = wrap64 (i + j)"
proof -
  have "(wrap64 i + j + 2 ^ 63) mod 2 ^ 64 = ((i + 2 ^ 63) mod 2 ^ 64 + j) mod 2 ^ 64"
    by (rule arg_cong [where f = "\<lambda>x. x mod 2 ^ 64"]) (simp add: wrap64_def)
  also have "\<dots> = (i + j + 2 ^ 63) mod 2 ^ 64"
    unfolding mod_add_left_eq by (simp add: algebra_simps)
  finally show ?thesis
    unfolding wrap64_def [of "wrap64 i + j"] wrap64_def [of "i + j"] by simp
qed

lemma wrap64_add_right [simp]: "wrap64 (j + wrap64 i) = wrap64 (j + i)"
  using wrap64_add [of i j] by (simp add: add.commute)

text \<open>The written-out wrap-around is the one of the machine word.\<close>

lemma wrap64_word: "wrap64 i = sint (word_of_int i :: 64 word)"
  by (simp add: wrap64_def signed_of_int signed_take_bit_eq_take_bit_shift take_bit_eq_mod)

text \<open>\<open>time.Duration(n) * time.Second\<close>, with the wrap-around of the multiplication.\<close>

definition seconds :: "int \<Rightarrow> duration" where
  "seconds n = wrap64 (n * nanos_per_second)"

lemma seconds_exact:
  "\<bar>n\<bar> \<le> 9223372036 \<Longrightarrow> seconds n = n * nanos_per_second"
  by (simp add: seconds_def in_int64_def abs_le_iff)

section \<open>Sums and options\<close>

lemma sum_Inl_iff: "(case x of Inl e \<Rightarrow> Inl e | Inr y \<Rightarrow> Inr (f y)) = Inl e \<longleftrightarrow> x = Inl e"
  by (cases x) auto

lemma sum_Inr_iff:
  "(case x of Inl e \<Rightarrow> Inl e | Inr y \<Rightarrow> Inr (f y)) = Inr z \<longleftrightarrow> (\<exists>y. x = Inr y \<and> z = f y)"
  by (cases x) auto

text \<open>Sequencing of fallible computations: the first error stops the rest.\<close>

definition bind_err :: "'e + 'a \<Rightarrow> ('a \<Rightarrow> 'e + 'b) \<Rightarrow> 'e + 'b" where
  "bind_err x f = (case x of Inl e \<Rightarrow> Inl e | Inr a \<Rightarrow> f a)"

lemma bind_err_simps [simp]:
  "bind_err (Inl e) f = Inl e"
  "bind_err (Inr a) f = f a"
  by (simp_all add: bind_err_def)

lemma bind_err_Inr_iff [simp]: "bind_err x f = Inr b \<longleftrightarrow> (\<exists>a. x = Inr a \<and> f a = Inr b)"
  by (cases x) auto

lemma bind_err_Inl_iff: "bind_err x f = Inl e \<longleftrightarrow> x = Inl e \<or> (\<exists>a. x = Inr a \<and> f a = Inl e)"
  by (cases x) auto

text \<open>All results, or the first error.\<close>

fun sequence_err :: "(error + 'a) list \<Rightarrow> error + 'a list" where
  "sequence_err [] = Inr []"
| "sequence_err (r # rs) = bind_err r (\<lambda>x. bind_err (sequence_err rs) (\<lambda>xs. Inr (x # xs)))"

lemma sequence_err_Inr: "sequence_err rs = Inr xs \<longleftrightarrow> rs = map Inr xs"
proof (induction rs arbitrary: xs)
  case (Cons r rs)
  then show ?case by (cases xs) auto
qed auto

section \<open>Lists\<close>

definition has_prefix :: "'a list \<Rightarrow> 'a list \<Rightarrow> bool" where
  "has_prefix p s \<longleftrightarrow> take (length p) s = p"

lemma has_prefix_append [simp, intro]: "has_prefix p (p @ s)"
  by (simp add: has_prefix_def)

lemma has_prefixE: "has_prefix p s \<Longrightarrow> (\<And>t. s = p @ t \<Longrightarrow> P) \<Longrightarrow> P"
  by (metis append_take_drop_id has_prefix_def)

lemma has_prefix_iff: "has_prefix p s \<longleftrightarrow> (\<exists>t. s = p @ t)"
  by (auto elim: has_prefixE)

lemma has_prefix_trans: "has_prefix p s \<Longrightarrow> has_prefix p (s @ t)"
  by (auto simp: has_prefix_iff)

lemma has_prefix_Nil [simp]: "has_prefix [] s"
  by (simp add: has_prefix_def)

lemma sorted_subseq: "subseq xs ys \<Longrightarrow> sorted ys \<Longrightarrow> sorted xs"
  by (metis sorted_nths subseq_conv_nths)

lemma subseq_set: "subseq xs ys \<Longrightarrow> set xs \<subseteq> set ys"
  by (metis set_nths_subset subseq_conv_nths)

text \<open>Occurrences of the elements that satisfy a predicate.\<close>

abbreviation count_where :: "('a \<Rightarrow> bool) \<Rightarrow> 'a list \<Rightarrow> nat" where
  "count_where P xs \<equiv> length (filter P xs)"

end
