(* ===== verification/Go_Strings.thy ===== *)
theory Go_Strings
  imports Prelude
begin

text \<open>
  The functions of Go's \<open>strings\<close> package that the program calls, on byte lists.

  \<open>TrimSpace\<close> removes the UTF-8 encodings of the white-space code points; because UTF-8 is a
  prefix code, matching those byte sequences at either end is what decoding the first or last
  rune does. \<open>ToLower\<close> maps ASCII strings byte by byte; on other strings Go goes through the
  Unicode tables, which are the parameter \<open>uni\<close>. \<open>EqualFold\<close> is defined for an ASCII second
  argument (the program only compares with ASCII words), including the two non-ASCII code
  points that fold to ASCII letters: U+212A to \<open>k\<close> and U+017F to \<open>s\<close>.
\<close>

section \<open>Trimming\<close>

definition space_runes :: "string list" where
  "space_runes =
     [[CHR 0x09], [CHR 0x0A], [CHR 0x0B], [CHR 0x0C], [CHR 0x0D], [CHR 0x20],
      [CHR 0xC2, CHR 0x85], [CHR 0xC2, CHR 0xA0], [CHR 0xE1, CHR 0x9A, CHR 0x80],
      [CHR 0xE2, CHR 0x80, CHR 0x80], [CHR 0xE2, CHR 0x80, CHR 0x81],
      [CHR 0xE2, CHR 0x80, CHR 0x82], [CHR 0xE2, CHR 0x80, CHR 0x83],
      [CHR 0xE2, CHR 0x80, CHR 0x84], [CHR 0xE2, CHR 0x80, CHR 0x85],
      [CHR 0xE2, CHR 0x80, CHR 0x86], [CHR 0xE2, CHR 0x80, CHR 0x87],
      [CHR 0xE2, CHR 0x80, CHR 0x88], [CHR 0xE2, CHR 0x80, CHR 0x89],
      [CHR 0xE2, CHR 0x80, CHR 0x8A], [CHR 0xE2, CHR 0x80, CHR 0xA8],
      [CHR 0xE2, CHR 0x80, CHR 0xA9], [CHR 0xE2, CHR 0x80, CHR 0xAF],
      [CHR 0xE2, CHR 0x81, CHR 0x9F], [CHR 0xE3, CHR 0x80, CHR 0x80]]"

lemma find_rune_shorter:
  assumes "find (\<lambda>r. r \<noteq> [] \<and> has_prefix r s) rs = Some r"
  shows "length s - length r < length s"
proof -
  from assms have "r \<noteq> []" "has_prefix r s" by (auto simp: find_Some_iff)
  then show ?thesis by (auto elim!: has_prefixE)
qed

function strip_front :: "string list \<Rightarrow> string \<Rightarrow> string" where
  "strip_front rs s =
     (case find (\<lambda>r. r \<noteq> [] \<and> has_prefix r s) rs of
        None \<Rightarrow> s
      | Some r \<Rightarrow> strip_front rs (drop (length r) s))"
  by pat_completeness auto
termination
  by (relation "measure (\<lambda>(rs, s). length s)") (auto dest!: find_rune_shorter)

declare strip_front.simps [simp del]

definition trim_space :: "string \<Rightarrow> string" where
  "trim_space s = rev (strip_front (map rev space_runes) (rev (strip_front space_runes s)))"

lemma strip_front_suffix: "\<exists>p. s = p @ strip_front rs s"
proof (induction rs s rule: strip_front.induct)
  case (1 rs s)
  show ?case
  proof (cases "find (\<lambda>r. r \<noteq> [] \<and> has_prefix r s) rs")
    case None
    then show ?thesis by (simp add: strip_front.simps [of rs s])
  next
    case (Some r)
    then obtain p where "drop (length r) s = p @ strip_front rs (drop (length r) s)"
      using "1.IH" by blast
    then have "s = (take (length r) s @ p) @ strip_front rs (drop (length r) s)"
      by (metis append.assoc append_take_drop_id)
    moreover from Some have "strip_front rs s = strip_front rs (drop (length r) s)"
      by (simp add: strip_front.simps [of rs s])
    ultimately show ?thesis by metis
  qed
qed

lemma strip_front_no_prefix:
  "r \<in> set rs \<Longrightarrow> r \<noteq> [] \<Longrightarrow> \<not> has_prefix r (strip_front rs s)"
proof (induction rs s rule: strip_front.induct)
  case (1 rs s)
  show ?case
  proof (cases "find (\<lambda>r. r \<noteq> [] \<and> has_prefix r s) rs")
    case None
    then have "strip_front rs s = s" by (simp add: strip_front.simps [of rs s])
    with None "1.prems" show ?thesis by (auto simp: find_None_iff)
  next
    case (Some r')
    with "1.IH" [OF Some] "1.prems" show ?thesis
      by (simp add: strip_front.simps [of rs s])
  qed
qed

lemma strip_front_fix:
  "(\<And>r. r \<in> set rs \<Longrightarrow> r \<noteq> [] \<Longrightarrow> \<not> has_prefix r s) \<Longrightarrow> strip_front rs s = s"
  by (subst strip_front.simps) (auto split: option.split simp: find_Some_iff)

lemma space_runes_nonempty: "r \<in> set space_runes \<Longrightarrow> r \<noteq> []"
  by (auto simp: space_runes_def)

text \<open>The result neither starts nor ends with a white-space code point.\<close>

lemma trim_space_no_prefix:
  assumes "r \<in> set space_runes"
  shows "\<not> has_prefix r (trim_space s)"
proof
  let ?l = "strip_front space_runes s"
  assume "has_prefix r (trim_space s)"
  moreover obtain p where "rev ?l = p @ strip_front (map rev space_runes) (rev ?l)"
    using strip_front_suffix by blast
  then have "?l = trim_space s @ rev p"
    by (metis rev_append rev_rev_ident trim_space_def)
  ultimately have "has_prefix r ?l" by (metis has_prefix_trans)
  with assms space_runes_nonempty [OF assms] strip_front_no_prefix show False by blast
qed

lemma trim_space_no_suffix:
  assumes "r \<in> set space_runes"
  shows "\<not> has_prefix (rev r) (rev (trim_space s))"
  using assms strip_front_no_prefix [of "rev r" "map rev space_runes"] space_runes_nonempty
  by (auto simp: trim_space_def)

lemma trim_space_idem [simp]: "trim_space (trim_space s) = trim_space s"
proof -
  have "strip_front space_runes (trim_space s) = trim_space s"
    by (rule strip_front_fix) (simp add: trim_space_no_prefix)
  moreover have "strip_front (map rev space_runes) (rev (trim_space s)) = rev (trim_space s)"
    by (rule strip_front_fix) (auto simp: trim_space_no_suffix)
  ultimately show ?thesis by (simp add: trim_space_def [of "trim_space s"])
qed

lemma trim_space_Nil [simp]: "trim_space [] = []"
  by code_simp

text \<open>An empty or all-blank string, the test most handlers start with.\<close>

abbreviation blank :: "string \<Rightarrow> bool" where
  "blank s \<equiv> trim_space s = []"

lemma trim_space_fix:
  assumes "\<And>r. r \<in> set space_runes \<Longrightarrow> \<not> has_prefix r s"
    and "\<And>r. r \<in> set space_runes \<Longrightarrow> \<not> has_prefix (rev r) (rev s)"
  shows "trim_space s = s"
proof -
  have "strip_front space_runes s = s"
    by (rule strip_front_fix) (simp add: assms(1))
  moreover have "strip_front (map rev space_runes) (rev s) = rev s"
    by (rule strip_front_fix) (auto simp: assms(2))
  ultimately show ?thesis by (simp add: trim_space_def)
qed

section \<open>Case\<close>

definition ascii :: "char \<Rightarrow> bool" where
  "ascii c \<longleftrightarrow> of_char c < (128 :: nat)"

definition lower_byte :: "char \<Rightarrow> char" where
  "lower_byte c = (if 65 \<le> (of_char c :: nat) \<and> (of_char c :: nat) \<le> 90
                   then char_of (of_char c + 32 :: nat) else c)"

definition to_lower :: "(string \<Rightarrow> string) \<Rightarrow> string \<Rightarrow> string" where
  "to_lower uni s = (if list_all ascii s then map lower_byte s else uni s)"

fun equal_fold :: "string \<Rightarrow> string \<Rightarrow> bool" where
  "equal_fold [] [] = True"
| "equal_fold s [] = False"
| "equal_fold s (d # t) =
     (if lower_byte d = CHR ''k'' \<and> has_prefix [CHR 0xE2, CHR 0x84, CHR 0xAA] s
      then equal_fold (drop 3 s) t
      else if lower_byte d = CHR ''s'' \<and> has_prefix [CHR 0xC5, CHR 0xBF] s
      then equal_fold (drop 2 s) t
      else (case s of [] \<Rightarrow> False
            | c # s' \<Rightarrow> ascii c \<and> lower_byte c = lower_byte d \<and> equal_fold s' t))"

text \<open>Its last clause fits every text, so it is unfolded by hand only.\<close>

declare equal_fold.simps(3) [simp del]

lemma lower_byte_idem [simp]: "lower_byte (lower_byte c) = lower_byte c"
  by (auto simp: lower_byte_def of_char_mod_256)

lemma ascii_lower_byte [simp]: "ascii (lower_byte c) = ascii c"
  by (auto simp: lower_byte_def ascii_def)

lemma to_lower_idem: "list_all ascii s \<Longrightarrow> to_lower uni (to_lower uni s) = to_lower uni s"
  by (simp add: to_lower_def list_all_iff)

lemma equal_fold_refl: "list_all ascii s \<Longrightarrow> equal_fold s s"
  by (induction s) (auto simp: has_prefix_def ascii_def equal_fold.simps(3))

text \<open>Printable ASCII texts have nothing to trim.\<close>

definition printable :: "char \<Rightarrow> bool" where
  "printable c \<longleftrightarrow> 32 < (of_char c :: nat) \<and> (of_char c :: nat) < 128"

lemma space_rune_ends:
  "r \<in> set space_runes \<Longrightarrow> \<not> printable (hd r) \<and> \<not> printable (last r)"
  by (auto simp: space_runes_def printable_def)

lemma trim_space_printable:
  assumes "\<forall>c \<in> set s. printable c"
  shows "trim_space s = s"
proof (rule trim_space_fix)
  fix r :: string
  assume r: "r \<in> set space_runes"
  with space_runes_nonempty have ne: "r \<noteq> []" by blast
  show "\<not> has_prefix r s"
    using r ne assms space_rune_ends [OF r] by (auto elim!: has_prefixE)
  show "\<not> has_prefix (rev r) (rev s)"
  proof
    assume "has_prefix (rev r) (rev s)"
    then obtain t where "s = rev t @ r" by (metis has_prefixE rev_append rev_rev_ident)
    with ne assms space_rune_ends [OF r] show False by auto
  qed
qed

section \<open>Splitting, replacing, cutting\<close>

fun split_on :: "char \<Rightarrow> string \<Rightarrow> string list" where
  "split_on sep [] = [[]]"
| "split_on sep (c # s) =
     (if c = sep then [] # split_on sep s
      else (case split_on sep s of [] \<Rightarrow> [[c]] | p # ps \<Rightarrow> (c # p) # ps))"

fun join_with :: "string \<Rightarrow> string list \<Rightarrow> string" where
  "join_with sep [] = []"
| "join_with sep [s] = s"
| "join_with sep (s # ss) = s @ sep @ join_with sep ss"

definition replace_all :: "char \<Rightarrow> string \<Rightarrow> string \<Rightarrow> string" where
  "replace_all old new s = concat (map (\<lambda>c. if c = old then new else [c]) s)"

definition trim_right :: "char \<Rightarrow> string \<Rightarrow> string" where
  "trim_right c s = rev (dropWhile (\<lambda>d. d = c) (rev s))"

definition trim_prefix :: "string \<Rightarrow> string \<Rightarrow> string" where
  "trim_prefix p s = (if has_prefix p s then drop (length p) s else s)"

definition trim_suffix :: "string \<Rightarrow> string \<Rightarrow> string" where
  "trim_suffix p s = (if has_prefix (rev p) (rev s) then take (length s - length p) s else s)"

lemma split_on_nonempty [simp]: "split_on sep s \<noteq> []"
  by (induction s) (auto split: list.split)

lemma join_split_on [simp]: "join_with [sep] (split_on sep s) = s"
proof (induction s)
  case (Cons c s)
  obtain p ps where "split_on sep s = p # ps" by (metis list.exhaust split_on_nonempty)
  with Cons show ?case by (cases ps) auto
qed simp

lemma split_on_no_sep: "p \<in> set (split_on sep s) \<Longrightarrow> sep \<notin> set p"
proof (induction s arbitrary: p)
  case (Cons c s)
  obtain q qs where "split_on sep s = q # qs" by (metis list.exhaust split_on_nonempty)
  with Cons show ?case by (auto split: if_splits)
qed simp

lemma split_on_clean: "sep \<notin> set s \<Longrightarrow> split_on sep s = [s]"
  by (induction s) auto

lemma split_on_append:
  "sep \<notin> set s \<Longrightarrow> split_on sep (s @ sep # t) = s # split_on sep t"
  by (induction s) auto

lemma length_split_on: "length (split_on sep s) = Suc (count_list s sep)"
proof (induction s)
  case (Cons c s)
  then show ?case by (cases "split_on sep s") auto
qed simp

lemma replace_all_removes: "old \<notin> set new \<Longrightarrow> old \<notin> set (replace_all old new s)"
  by (auto simp: replace_all_def)

lemma trim_right_no_last: "trim_right c s \<noteq> [] \<Longrightarrow> last (trim_right c s) \<noteq> c"
  by (metis (mono_tags, lifting) hd_dropWhile last_rev rev_is_Nil_conv rev_rev_ident trim_right_def)

lemma trim_right_idem: "trim_right c (trim_right c s) = trim_right c s"
  by (simp add: trim_right_def)

end
