(* ===== verification/Go_Strconv.thy ===== *)
theory Go_Strconv
  imports Go_Strings
begin

text \<open>
  Numbers and their texts: the parts of Go's \<open>strconv\<close> and \<open>fmt\<close> packages the program uses.

  A \<open>float64\<close> is a finite value (as the rational it denotes), the negative zero, an infinity or
  NaN; comparison and fixed-point formatting (\<open>%.1f\<close>, \<open>%.2f\<close>: the exact value rounded to
  nearest, ties to even) are exact on them. \<open>strconv.ParseFloat\<close> and the shortest float
  formatting of \<open>encoding/json\<close> are the two fields of a \<open>float_lib\<close> record that the definitions
  using them take as an argument.
\<close>

section \<open>Decimal integers\<close>

definition digit :: "nat \<Rightarrow> char" where
  "digit d = char_of (48 + d)"

fun nat_digits :: "nat \<Rightarrow> string" where
  "nat_digits n = (if n < 10 then [digit n] else nat_digits (n div 10) @ [digit (n mod 10)])"

declare nat_digits.simps [simp del]

text \<open>\<open>strconv.Itoa\<close>, \<open>strconv.FormatInt(i, 10)\<close> and \<open>%d\<close>.\<close>

definition itoa :: "int \<Rightarrow> string" where
  "itoa i = (if i < 0 then CHR ''-'' # nat_digits (nat (- i)) else nat_digits (nat i))"

definition digit_val :: "char \<Rightarrow> nat option" where
  "digit_val c = (let n = of_char c :: nat in if 48 \<le> n \<and> n \<le> 57 then Some (n - 48) else None)"

fun digits_val :: "nat \<Rightarrow> string \<Rightarrow> nat option" where
  "digits_val acc [] = Some acc"
| "digits_val acc (c # cs) =
     (case digit_val c of None \<Rightarrow> None | Some d \<Rightarrow> digits_val (10 * acc + d) cs)"

definition parse_uint :: "string \<Rightarrow> nat option" where
  "parse_uint s = (if s = [] then None else digits_val 0 s)"

text \<open>
  \<open>strconv.ParseInt(s, 10, 64)\<close> and \<open>strconv.Atoi\<close>: an optional sign, decimal digits, the range
  of \<open>int64\<close>. The error is the reason part of Go's \<open>NumError\<close>.
\<close>

definition atoi :: "string \<Rightarrow> error + int" where
  "atoi s =
     (let neg = (case s of c # _ \<Rightarrow> c = CHR ''-'' | [] \<Rightarrow> False);
          body = (case s of c # cs \<Rightarrow> if c = CHR ''-'' \<or> c = CHR ''+'' then cs else s | [] \<Rightarrow> s)
      in case parse_uint body of
           None \<Rightarrow> Inl ''invalid syntax''
         | Some n \<Rightarrow>
             (let i = (if neg then - int n else int n)
              in if in_int64 i then Inr i else Inl ''value out of range''))"

lemma digit_val_digit [simp]: "d < 10 \<Longrightarrow> digit_val (digit d) = Some d"
  by (simp add: digit_val_def digit_def)

lemma of_char_digit: "d < 10 \<Longrightarrow> of_char (digit d) = (48 + d :: nat)"
  by (simp add: digit_def)

lemma digit_not_sign:
  assumes "d < 10"
  shows "digit d \<noteq> CHR ''-'' \<and> digit d \<noteq> CHR ''+''"
proof -
  have "of_char (digit d) \<noteq> (of_char CHR ''-'' :: nat)" "of_char (digit d) \<noteq> (of_char CHR ''+'' :: nat)"
    using assms by (simp_all add: of_char_digit)
  then show ?thesis by metis
qed

lemma nat_digits_nonempty [simp]: "nat_digits n \<noteq> []"
  by (subst nat_digits.simps) simp

lemma digits_val_append:
  "digits_val acc (s @ t) =
     (case digits_val acc s of None \<Rightarrow> None | Some n \<Rightarrow> digits_val n t)"
  by (induction s arbitrary: acc) (auto split: option.split)

lemma digits_val_nat_digits: "digits_val 0 (nat_digits n) = Some n"
proof (induction n rule: nat_digits.induct)
  case (1 n)
  show ?case
  proof (cases "n < 10")
    case True
    then show ?thesis by (simp add: nat_digits.simps [of n])
  next
    case False
    with 1 show ?thesis
      by (simp add: nat_digits.simps [of n] digits_val_append)
  qed
qed

lemma hd_nat_digits: "\<exists>d<10. hd (nat_digits n) = digit d"
proof (induction n rule: nat_digits.induct)
  case (1 n)
  then show ?case
    by (cases "n < 10") (auto simp: nat_digits.simps [of n] hd_append)
qed

text \<open>Printing and parsing an \<open>int64\<close> gives it back.\<close>

lemma atoi_itoa [simp]:
  assumes "in_int64 i"
  shows "atoi (itoa i) = Inr i"
proof (cases "i < 0")
  case True
  with assms show ?thesis
    by (simp add: atoi_def itoa_def parse_uint_def digits_val_nat_digits)
next
  case False
  obtain d cs where d: "nat_digits (nat i) = digit d # cs" "d < 10"
    using hd_nat_digits [of "nat i"] by (metis list.exhaust_sel nat_digits_nonempty)
  with digit_not_sign [of d] digits_val_nat_digits [of "nat i"] False assms show ?thesis
    by (simp add: atoi_def itoa_def parse_uint_def)
qed

lemma atoi_in_int64: "atoi s = Inr i \<Longrightarrow> in_int64 i"
  by (auto simp: atoi_def Let_def split: option.splits if_splits)

lemma itoa_inject: "in_int64 i \<Longrightarrow> in_int64 j \<Longrightarrow> itoa i = itoa j \<longleftrightarrow> i = j"
  by (metis atoi_itoa sum.inject(2))

text \<open>The texts of numbers consist of digits, a sign and a point.\<close>

lemma nat_digits_chars: "c \<in> set (nat_digits n) \<Longrightarrow> \<exists>d<10. c = digit d"
proof (induction n rule: nat_digits.induct)
  case (1 n)
  have "n mod 10 < 10" by simp
  with 1 show ?case
    by (cases "n < 10") (auto simp: nat_digits.simps [of n] intro: exI [of _ "n mod 10"])
qed

lemma digit_neq:
  assumes "d < 10" and "of_char c < (48 :: nat) \<or> 57 < (of_char c :: nat)"
  shows "c \<noteq> digit d" and "digit d \<noteq> c"
  using assms of_char_digit [of d] by auto

lemma not_in_nat_digits:
  "of_char c < (48 :: nat) \<or> 57 < (of_char c :: nat) \<Longrightarrow> c \<notin> set (nat_digits n)"
  using nat_digits_chars digit_neq by blast

lemma not_in_itoa:
  "c \<noteq> CHR ''-'' \<Longrightarrow> of_char c < (48 :: nat) \<or> 57 < (of_char c :: nat) \<Longrightarrow> c \<notin> set (itoa i)"
  by (auto simp: itoa_def not_in_nat_digits)

section \<open>Booleans\<close>

text \<open>\<open>strconv.ParseBool\<close>\<close>

definition parse_bool :: "string \<Rightarrow> error + bool" where
  "parse_bool s =
     (if s \<in> set [''1'', ''t'', ''T'', ''true'', ''TRUE'', ''True''] then Inr True
      else if s \<in> set [''0'', ''f'', ''F'', ''false'', ''FALSE'', ''False''] then Inr False
      else Inl ''invalid syntax'')"

section \<open>Floats\<close>

datatype float64 = Fin rat | NegZero | Infinity bool | NaN

fun f64_val :: "float64 \<Rightarrow> rat" where
  "f64_val (Fin q) = q"
| "f64_val _ = 0"

definition f64_finite :: "float64 \<Rightarrow> bool" where
  "f64_finite x = (case x of Fin q \<Rightarrow> True | NegZero \<Rightarrow> True | _ \<Rightarrow> False)"

text \<open>The comparison \<open>a > b\<close>: false as soon as one side is NaN. \<open>Infinity True\<close> is \<open>-Inf\<close>.\<close>

definition f64_gt :: "float64 \<Rightarrow> float64 \<Rightarrow> bool" where
  "f64_gt a b =
     (case a of
        NaN \<Rightarrow> False
      | Infinity na \<Rightarrow> (case b of NaN \<Rightarrow> False | Infinity nb \<Rightarrow> \<not> na \<and> nb | _ \<Rightarrow> \<not> na)
      | _ \<Rightarrow> (case b of NaN \<Rightarrow> False | Infinity nb \<Rightarrow> nb | _ \<Rightarrow> f64_val b < f64_val a))"

lemma f64_gt_simps [simp]:
  "\<not> f64_gt NaN b" "\<not> f64_gt a NaN"
  "f64_gt (Fin p) (Fin q) \<longleftrightarrow> q < p"
  by (auto simp: f64_gt_def split: float64.split)

lemma f64_gt_asym: "f64_gt a b \<Longrightarrow> \<not> f64_gt b a"
  by (auto simp: f64_gt_def split: float64.splits)

lemma f64_gt_trans: "f64_gt a b \<Longrightarrow> f64_gt b c \<Longrightarrow> f64_gt a c"
  by (auto simp: f64_gt_def split: float64.splits)

definition round_half_even :: "rat \<Rightarrow> int" where
  "round_half_even q =
     (let n = \<lfloor>q\<rfloor>; d = q - of_int n
      in if d < 1 / 2 then n else if 1 / 2 < d then n + 1 else if even n then n else n + 1)"

lemma round_half_even_error: "\<bar>of_int (round_half_even q) - q\<bar> \<le> 1 / 2"
proof -
  have "of_int \<lfloor>q\<rfloor> \<le> q" "q < of_int \<lfloor>q\<rfloor> + 1" by linarith+
  then show ?thesis by (auto simp: round_half_even_def Let_def abs_le_iff)
qed

lemma round_half_even_nonneg: "0 \<le> q \<Longrightarrow> 0 \<le> round_half_even q"
  by (auto simp: round_half_even_def Let_def)

definition pad_zeros :: "nat \<Rightarrow> string \<Rightarrow> string" where
  "pad_zeros p s = replicate (p - length s) CHR ''0'' @ s"

text \<open>The decimal digits of a fixed-point number, given as its number of \<open>10\<^sup>-\<^sup>p\<close> units.\<close>

definition fixed_digits :: "nat \<Rightarrow> nat \<Rightarrow> string" where
  "fixed_digits p n =
     nat_digits (n div 10 ^ p) @ (if p = 0 then [] else CHR ''.'' # pad_zeros p (nat_digits (n mod 10 ^ p)))"

definition fixed_units :: "nat \<Rightarrow> rat \<Rightarrow> nat" where
  "fixed_units p q = nat (round_half_even (\<bar>q\<bar> * 10 ^ p))"

text \<open>The verb \<open>%.pf\<close> of \<open>fmt\<close>.\<close>

definition fmt_fixed :: "nat \<Rightarrow> float64 \<Rightarrow> string" where
  "fmt_fixed p x =
     (case x of
        Fin q \<Rightarrow> (if q < 0 then ''-'' else []) @ fixed_digits p (fixed_units p q)
      | NegZero \<Rightarrow> ''-'' @ fixed_digits p 0
      | Infinity neg \<Rightarrow> (if neg then ''-Inf'' else ''+Inf'')
      | NaN \<Rightarrow> ''NaN'')"

lemma not_in_fmt_fixed:
  assumes "c \<notin> set ''-+.InfNaN0''" and "of_char c < (48 :: nat) \<or> 57 < (of_char c :: nat)"
  shows "c \<notin> set (fmt_fixed p x)"
  using assms
  by (auto simp: fmt_fixed_def fixed_digits_def pad_zeros_def not_in_nat_digits split: float64.split)

text \<open>The printed number is within half a unit of the last place of the exact value.\<close>

lemma fixed_units_error:
  "\<bar>of_nat (fixed_units p q) / 10 ^ p - \<bar>q\<bar>\<bar> \<le> 1 / (2 * 10 ^ p)"
proof -
  let ?r = "round_half_even (\<bar>q\<bar> * 10 ^ p)"
  have nn: "0 \<le> ?r" by (rule round_half_even_nonneg) simp
  have "\<bar>of_int ?r - \<bar>q\<bar> * 10 ^ p\<bar> \<le> 1 / 2" by (rule round_half_even_error)
  moreover have "of_nat (nat ?r) = (of_int ?r :: rat)" using nn by simp
  moreover have "of_int ?r / 10 ^ p - \<bar>q\<bar> = (of_int ?r - \<bar>q\<bar> * 10 ^ p) / 10 ^ p"
    by (simp add: field_simps)
  ultimately show ?thesis
    by (simp add: fixed_units_def abs_divide field_simps)
qed

section \<open>The float library\<close>

record float_lib =
  ParseFloat :: "string \<Rightarrow> float64 option"
  FormatFloat :: "float64 \<Rightarrow> string"

text \<open>
  What the program relies on at a given number: the text \<open>encoding/json\<close> writes for it is parsed
  back to it.
\<close>

definition float_roundtrip :: "float_lib \<Rightarrow> float64 \<Rightarrow> bool" where
  "float_roundtrip fl x \<longleftrightarrow> f64_finite x \<and> ParseFloat fl (FormatFloat fl x) = Some x"

end
