(* ===== verification/Config.thy ===== *)
theory Config
  imports Go_Strconv
begin

text \<open>
  The server's configuration (\<open>config.go\<close>): the record \<open>AppConfig\<close> and the functions that read
  it from the process environment. The environment is the map \<open>os.LookupEnv\<close> consults.
\<close>

type_synonym environ = "string \<Rightarrow> string option"

record app_config =
  MySQLDSN :: string
  MySQLConnectRetries :: int
  MySQLConnectInterval :: int
  VictoriaMetricsURL :: string
  HTTPPort :: string
  CPUAlertThreshold :: float64
  AlertTriggerCount :: int
  AlertCooldownSeconds :: int
  AlertStoreType :: string
  RedisAddr :: string
  RedisPassword :: string
  RedisDB :: int
  NotifierType :: string
  WebhookProvider :: string
  WebhookURL :: string
  NotifyTimeoutSeconds :: int
  IngestMode :: string
  KafkaBrokers :: string
  KafkaTopic :: string
  KafkaGroupID :: string
  WorkerProcessTargetURL :: string
  OTelEnabled :: bool
  OTelServiceName :: string
  OTelExporterOTLPEndpoint :: string

definition getEnv :: "environ \<Rightarrow> string \<Rightarrow> string \<Rightarrow> string" where
  "getEnv env key defaultValue =
     (case env key of
        Some v \<Rightarrow> if v \<noteq> [] then v else defaultValue
      | None \<Rightarrow> defaultValue)"

definition getEnvAsInt :: "environ \<Rightarrow> string \<Rightarrow> int \<Rightarrow> int" where
  "getEnvAsInt env key defaultValue =
     (let v = getEnv env key [] in
      if v = [] then defaultValue
      else case atoi v of Inl err \<Rightarrow> defaultValue | Inr i \<Rightarrow> i)"

definition getEnvAsFloat :: "float_lib \<Rightarrow> environ \<Rightarrow> string \<Rightarrow> float64 \<Rightarrow> float64" where
  "getEnvAsFloat fl env key defaultValue =
     (let v = getEnv env key [] in
      if v = [] then defaultValue
      else case ParseFloat fl v of None \<Rightarrow> defaultValue | Some f \<Rightarrow> f)"

definition getEnvAsBool :: "environ \<Rightarrow> string \<Rightarrow> bool \<Rightarrow> bool" where
  "getEnvAsBool env key defaultValue =
     (let v = getEnv env key [] in
      if v = [] then defaultValue
      else case parse_bool v of Inl err \<Rightarrow> defaultValue | Inr b \<Rightarrow> b)"

definition loadConfig :: "float_lib \<Rightarrow> environ \<Rightarrow> app_config" where
  "loadConfig fl env =
     \<lparr>MySQLDSN = getEnv env ''MYSQL_DSN''
        ''cloudops:cloudops@tcp(127.0.0.1:3306)/cloud_ops_monitor?charset=utf8mb4&parseTime=True&loc=Local'',
      MySQLConnectRetries = getEnvAsInt env ''MYSQL_CONNECT_RETRIES'' 30,
      MySQLConnectInterval = getEnvAsInt env ''MYSQL_CONNECT_RETRY_INTERVAL_SECONDS'' 2,
      VictoriaMetricsURL = getEnv env ''VICTORIA_METRICS_URL''
        ''http://localhost:8428/api/v1/import/prometheus'',
      HTTPPort = getEnv env ''HTTP_PORT'' ''8080'',
      CPUAlertThreshold = getEnvAsFloat fl env ''CPU_ALERT_THRESHOLD'' (Fin 80),
      AlertTriggerCount = getEnvAsInt env ''ALERT_TRIGGER_COUNT'' 3,
      AlertCooldownSeconds = getEnvAsInt env ''ALERT_COOLDOWN_SECONDS'' 60,
      AlertStoreType = getEnv env ''ALERT_STORE'' ''redis'',
      RedisAddr = getEnv env ''REDIS_ADDR'' ''localhost:6379'',
      RedisPassword = getEnv env ''REDIS_PASSWORD'' [],
      RedisDB = getEnvAsInt env ''REDIS_DB'' 0,
      NotifierType = getEnv env ''NOTIFIER_TYPE'' ''noop'',
      WebhookProvider = getEnv env ''WEBHOOK_PROVIDER'' ''feishu'',
      WebhookURL = getEnv env ''WEBHOOK_URL'' [],
      NotifyTimeoutSeconds = getEnvAsInt env ''NOTIFY_TIMEOUT_SECONDS'' 5,
      IngestMode = getEnv env ''INGEST_MODE'' ''direct'',
      KafkaBrokers = getEnv env ''KAFKA_BROKERS'' ''localhost:9092'',
      KafkaTopic = getEnv env ''KAFKA_TOPIC'' ''cloudops.metrics'',
      KafkaGroupID = getEnv env ''KAFKA_GROUP_ID'' ''cloudops-worker'',
      WorkerProcessTargetURL = getEnv env ''WORKER_PROCESS_TARGET_URL''
        ''http://localhost:8080/api/v1/metrics/process'',
      OTelEnabled = getEnvAsBool env ''OTEL_ENABLED'' False,
      OTelServiceName = getEnv env ''OTEL_SERVICE_NAME'' ''cloudops-server'',
      OTelExporterOTLPEndpoint = getEnv env ''OTEL_EXPORTER_OTLP_ENDPOINT'' ''localhost:4317''\<rparr>"

lemma getEnv_empty [simp]: "getEnv Map.empty key d = d"
  by (simp add: getEnv_def)

lemma getEnv_set [simp]: "env key = Some v \<Longrightarrow> v \<noteq> [] \<Longrightarrow> getEnv env key d = v"
  by (simp add: getEnv_def)

lemma getEnv_default_iff: "getEnv env key [] = [] \<longleftrightarrow> env key = None \<or> env key = Some []"
  by (auto simp: getEnv_def split: option.split)

text \<open>An integer setting is always an \<open>int64\<close> when its default is.\<close>

lemma getEnvAsInt_range: "in_int64 d \<Longrightarrow> in_int64 (getEnvAsInt env key d)"
  by (auto simp: getEnvAsInt_def Let_def atoi_in_int64 split: sum.split)

text \<open>The text of an integer in the environment is read as that integer.\<close>

lemma itoa_nonempty [simp]: "itoa i \<noteq> []"
  by (simp add: itoa_def)

lemma getEnvAsInt_itoa: "env key = Some (itoa i) \<Longrightarrow> in_int64 i \<Longrightarrow> getEnvAsInt env key d = i"
  by (simp add: getEnvAsInt_def)

text \<open>
  The integers of the configuration are \<open>int64\<close> values whatever the environment holds:
  an unset, empty, malformed or out-of-range variable gives the built-in default.
\<close>

theorem loadConfig_ints_in_range:
  "in_int64 (MySQLConnectRetries (loadConfig fl env)) \<and>
   in_int64 (MySQLConnectInterval (loadConfig fl env)) \<and>
   in_int64 (AlertTriggerCount (loadConfig fl env)) \<and>
   in_int64 (AlertCooldownSeconds (loadConfig fl env)) \<and>
   in_int64 (RedisDB (loadConfig fl env)) \<and>
   in_int64 (NotifyTimeoutSeconds (loadConfig fl env))"
  unfolding loadConfig_def
  by (simp add: getEnvAsInt_range in_int64_def [of 30] in_int64_def [of 2] in_int64_def [of 3]
      in_int64_def [of 60] in_int64_def [of 0] in_int64_def [of 5])

end
