(* ===== verification/Alert_Store.thy ===== *)
theory Alert_Store
  imports Config
begin

text \<open>
  The alert state store (\<open>alert_store.go\<close>): the interface \<open>AlertStateStore\<close>, its contract as a
  locale, the in-memory implementation and the Redis implementation.

  Every call takes the instant at which it executes: the memory store reads it with
  \<open>time.Now\<close>, and a Redis server expires keys by it. The context argument is not modelled.
\<close>

section \<open>The interface\<close>

record 's store_ops =
  IncrementCPUBreach :: "instant \<Rightarrow> string \<Rightarrow> 's \<Rightarrow> (error + int) \<times> 's"
  GetCPUBreachCount :: "instant \<Rightarrow> string \<Rightarrow> 's \<Rightarrow> (error + int) \<times> 's"
  ResetCPUBreach :: "instant \<Rightarrow> string \<Rightarrow> 's \<Rightarrow> error option \<times> 's"
  TryAcquireCooldown :: "instant \<Rightarrow> string \<Rightarrow> duration \<Rightarrow> 's \<Rightarrow> (error + bool) \<times> 's"

text \<open>Calls on a store, in the order in which they take effect, from any number of requests.\<close>

datatype store_call =
    Call_Increment string
  | Call_Get string
  | Call_Reset string
  | Call_Acquire string duration

text \<open>One call; the flag tells whether it was granted a cooldown.\<close>

fun exec_call :: "'s store_ops \<Rightarrow> instant \<Rightarrow> store_call \<Rightarrow> 's \<Rightarrow> bool \<times> 's" where
  "exec_call ops t (Call_Increment k) s = (False, snd (IncrementCPUBreach ops t k s))"
| "exec_call ops t (Call_Get k) s = (False, snd (GetCPUBreachCount ops t k s))"
| "exec_call ops t (Call_Reset k) s = (False, snd (ResetCPUBreach ops t k s))"
| "exec_call ops t (Call_Acquire k ttl) s =
     (case TryAcquireCooldown ops t k ttl s of (r, s') \<Rightarrow> (r = Inr True, s'))"

fun run_calls :: "'s store_ops \<Rightarrow> (instant \<times> store_call) list \<Rightarrow> 's \<Rightarrow> 's" where
  "run_calls ops [] s = s"
| "run_calls ops ((t, c) # cs) s = run_calls ops cs (snd (exec_call ops t c s))"

text \<open>The instants at which a run of calls was granted the cooldown of one machine.\<close>

fun grants :: "'s store_ops \<Rightarrow> string \<Rightarrow> (instant \<times> store_call) list \<Rightarrow> 's \<Rightarrow> instant list" where
  "grants ops k [] s = []"
| "grants ops k ((t, c) # cs) s =
     (case exec_call ops t c s of
        (b, s') \<Rightarrow>
          (if b \<and> (\<exists>ttl. c = Call_Acquire k ttl) then [t] else []) @ grants ops k cs s')"

text \<open>Every request for the cooldown of \<open>k\<close> asks for \<open>d\<close>, as all requests of one server do.\<close>

definition uniform_ttl :: "string \<Rightarrow> duration \<Rightarrow> (instant \<times> store_call) list \<Rightarrow> bool" where
  "uniform_ttl k d cs \<longleftrightarrow>
     list_all (\<lambda>(t, c). case c of Call_Acquire k' ttl \<Rightarrow> k' = k \<longrightarrow> ttl = d | _ \<Rightarrow> True) cs"

text \<open>How many increments of \<open>k\<close> a run makes since its last reset, starting from \<open>n\<close>.\<close>

fun streak :: "string \<Rightarrow> (instant \<times> store_call) list \<Rightarrow> nat \<Rightarrow> nat" where
  "streak k [] n = n"
| "streak k ((t, c) # cs) n =
     streak k cs
       (case c of
          Call_Increment k' \<Rightarrow> if k' = k then Suc n else n
        | Call_Reset k' \<Rightarrow> if k' = k then 0 else n
        | _ \<Rightarrow> n)"

lemma uniform_ttl_simps [simp]:
  "uniform_ttl k d []"
  "uniform_ttl k d ((t, c) # cs) \<longleftrightarrow>
     (\<forall>ttl. c = Call_Acquire k ttl \<longrightarrow> ttl = d) \<and> uniform_ttl k d cs"
  by (auto simp: uniform_ttl_def split: store_call.split)

lemma run_calls_append [simp]: "run_calls ops (cs @ ds) s = run_calls ops ds (run_calls ops cs s)"
  by (induction cs arbitrary: s) auto

lemma grants_append [simp]:
  "grants ops k (cs @ ds) s = grants ops k cs s @ grants ops k ds (run_calls ops cs s)"
  by (induction cs arbitrary: s) (auto split: prod.split)

lemma uniform_ttl_append [simp]:
  "uniform_ttl k d (cs @ ds) \<longleftrightarrow> uniform_ttl k d cs \<and> uniform_ttl k d ds"
  by (simp add: uniform_ttl_def)

section \<open>The contract\<close>

text \<open>
  \<open>count\<close> is the breach counter of a machine and \<open>cooling\<close> whether its cooldown is held, both as
  the store would answer at a given instant. The laws describe calls that succeed; a call that
  fails may or may not have taken effect, but never releases a cooldown and never touches another
  machine.
\<close>

locale alert_store =
  fixes ops :: "'s store_ops"
    and count :: "instant \<Rightarrow> 's \<Rightarrow> string \<Rightarrow> int"
    and cooling :: "instant \<Rightarrow> 's \<Rightarrow> string \<Rightarrow> bool"
  assumes incr_ok: "IncrementCPUBreach ops t k s = (Inr n, s') \<Longrightarrow>
      n = wrap64 (count t s k + 1) \<and> count t s' k = n"
    and incr_other: "IncrementCPUBreach ops t k s = (r, s') \<Longrightarrow> k' \<noteq> k \<Longrightarrow> t \<le> t' \<Longrightarrow>
      count t' s' k' = count t' s k'"
    and incr_cooling: "IncrementCPUBreach ops t k s = (r, s') \<Longrightarrow> t \<le> t' \<Longrightarrow>
      cooling t' s' k' = cooling t' s k'"
    and get_ok: "GetCPUBreachCount ops t k s = (Inr n, s') \<Longrightarrow> n = count t s k"
    and get_count: "GetCPUBreachCount ops t k s = (r, s') \<Longrightarrow> t \<le> t' \<Longrightarrow>
      count t' s' k' = count t' s k'"
    and get_cooling: "GetCPUBreachCount ops t k s = (r, s') \<Longrightarrow> t \<le> t' \<Longrightarrow>
      cooling t' s' k' = cooling t' s k'"
    and reset_ok: "ResetCPUBreach ops t k s = (None, s') \<Longrightarrow> t \<le> t' \<Longrightarrow> count t' s' k = 0"
    and reset_other: "ResetCPUBreach ops t k s = (err, s') \<Longrightarrow> k' \<noteq> k \<Longrightarrow> t \<le> t' \<Longrightarrow>
      count t' s' k' = count t' s k'"
    and reset_cooling: "ResetCPUBreach ops t k s = (err, s') \<Longrightarrow> t \<le> t' \<Longrightarrow>
      cooling t' s' k' = cooling t' s k'"
    and acquire_ok: "TryAcquireCooldown ops t k ttl s = (Inr b, s') \<Longrightarrow> b = (\<not> cooling t s k)"
    and acquire_holds: "TryAcquireCooldown ops t k ttl s = (Inr True, s') \<Longrightarrow> 0 < ttl \<Longrightarrow>
      t \<le> t' \<Longrightarrow> t' < t + ttl \<Longrightarrow> cooling t' s' k"
    and acquire_keeps: "TryAcquireCooldown ops t k ttl s = (acq, s') \<Longrightarrow> t \<le> t' \<Longrightarrow>
      cooling t' s k \<Longrightarrow> cooling t' s' k"
    and acquire_other: "TryAcquireCooldown ops t k ttl s = (acq, s') \<Longrightarrow> k' \<noteq> k \<Longrightarrow> t \<le> t' \<Longrightarrow>
      cooling t' s' k' = cooling t' s k'"
    and acquire_count: "TryAcquireCooldown ops t k ttl s = (acq, s') \<Longrightarrow> t \<le> t' \<Longrightarrow>
      count t' s' k' = count t' s k'"
begin

lemmas store_laws =
  incr_ok incr_other incr_cooling get_ok get_count get_cooling reset_ok reset_other reset_cooling
  acquire_ok acquire_holds acquire_keeps acquire_other acquire_count

text \<open>A held cooldown survives every call.\<close>

lemma exec_call_keeps_cooling:
  assumes "exec_call ops t c s = (b, s')" and "t \<le> t'" and "cooling t' s k"
  shows "cooling t' s' k"
proof (cases c)
  case (Call_Increment k')
  with assms incr_cooling [of t k' s] show ?thesis
    by (cases "IncrementCPUBreach ops t k' s") auto
next
  case (Call_Get k')
  with assms get_cooling [of t k' s] show ?thesis
    by (cases "GetCPUBreachCount ops t k' s") auto
next
  case (Call_Reset k')
  with assms reset_cooling [of t k' s] show ?thesis
    by (cases "ResetCPUBreach ops t k' s") auto
next
  case (Call_Acquire k' ttl)
  with assms acquire_keeps [of t k' ttl s] acquire_other [of t k' ttl s] show ?thesis
    by (cases "TryAcquireCooldown ops t k' ttl s"; cases "k' = k") auto
qed

lemma exec_call_grantE:
  assumes "exec_call ops t (Call_Acquire k ttl) s = (True, s')"
  shows "\<not> cooling t s k" and "0 < ttl \<Longrightarrow> t \<le> t' \<Longrightarrow> t' < t + ttl \<Longrightarrow> cooling t' s' k"
proof -
  from assms have "TryAcquireCooldown ops t k ttl s = (Inr True, s')"
    by (auto split: prod.splits)
  then show "\<not> cooling t s k"
    and "0 < ttl \<Longrightarrow> t \<le> t' \<Longrightarrow> t' < t + ttl \<Longrightarrow> cooling t' s' k"
    using acquire_ok acquire_holds by blast+
qed

text \<open>While a cooldown is held until \<open>e\<close>, nothing is granted before \<open>e\<close>.\<close>

lemma grants_after_hold:
  assumes "sorted (map fst cs)" and "\<forall>(t, c) \<in> set cs. t0 \<le> t"
    and "\<And>t'. t0 \<le> t' \<Longrightarrow> t' < e \<Longrightarrow> cooling t' s k"
  shows "\<forall>g \<in> set (grants ops k cs s). e \<le> g"
  using assms
proof (induction cs arbitrary: t0 s)
  case (Cons tc cs)
  obtain t c where tc: "tc = (t, c)" by (cases tc)
  obtain b s' where ex: "exec_call ops t c s = (b, s')" by (cases "exec_call ops t c s")
  have here: "e \<le> t" if "b" "c = Call_Acquire k ttl" for ttl
    using that ex exec_call_grantE(1) Cons.prems(2,3) tc by force
  have "\<forall>g \<in> set (grants ops k cs s'). e \<le> g"
  proof (rule Cons.IH)
    show "sorted (map fst cs)" "\<forall>(t', c') \<in> set cs. t \<le> t'"
      using Cons.prems(1) tc by auto
    show "cooling t' s' k" if "t \<le> t'" "t' < e" for t'
      using that ex exec_call_keeps_cooling Cons.prems(2,3) tc by force
  qed
  with here ex tc show ?case by auto
qed simp

text \<open>
  Cooldown exclusivity: however the calls of concurrent requests interleave, two grants for one
  machine are at least one cooldown apart.
\<close>

lemma grants_spaced:
  assumes "sorted (map fst cs)" and "uniform_ttl k d cs" and "0 < d"
  shows "sorted_wrt (\<lambda>g g'. g + d \<le> g') (grants ops k cs s)"
  using assms
proof (induction cs arbitrary: s)
  case (Cons tc cs)
  obtain t c where tc: "tc = (t, c)" by (cases tc)
  obtain b s' where ex: "exec_call ops t c s = (b, s')" by (cases "exec_call ops t c s")
  have IH: "sorted_wrt (\<lambda>g g'. g + d \<le> g') (grants ops k cs s')"
    using Cons tc by simp
  show ?case
  proof (cases "b \<and> c = Call_Acquire k d")
    case True
    with ex have ex': "exec_call ops t (Call_Acquire k d) s = (True, s')" by simp
    have "\<forall>g \<in> set (grants ops k cs s'). t + d \<le> g"
    proof (rule grants_after_hold)
      show "sorted (map fst cs)" "\<forall>(t', c') \<in> set cs. t \<le> t'"
        using Cons.prems(1) tc by auto
      show "cooling t' s' k" if "t \<le> t'" "t' < t + d" for t'
        using exec_call_grantE(2) [OF ex'] \<open>0 < d\<close> that by blast
    qed
    with True IH ex tc show ?thesis by auto
  next
    case False
    with Cons.prems(2) IH ex tc show ?thesis by auto
  qed
qed simp

text \<open>In particular a window shorter than the cooldown sees at most one grant.\<close>

lemma grants_set_times: "set (grants ops k cs s) \<subseteq> fst ` set cs"
proof (induction cs arbitrary: s)
  case (Cons tc cs)
  obtain t c where tc: "tc = (t, c)" by (cases tc)
  obtain b s' where ex: "exec_call ops t c s = (b, s')" by (cases "exec_call ops t c s")
  show ?case using Cons.IH [of s'] ex tc by auto
qed simp

lemma at_most_one_grant:
  assumes "sorted (map fst cs)" and "uniform_ttl k d cs" and "0 < d"
    and "\<forall>(t, c) \<in> set cs. lo \<le> t \<and> t < lo + d"
  shows "length (grants ops k cs s) \<le> 1"
proof (rule ccontr)
  assume "\<not> length (grants ops k cs s) \<le> 1"
  then obtain g g' gs where gs: "grants ops k cs s = g # g' # gs"
    by (metis One_nat_def le_add1 le_zero_eq length_0_conv length_Cons list.exhaust not_less_eq_eq
        plus_1_eq_Suc)
  with grants_spaced [OF assms(1-3), of s] have "g + d \<le> g'" by simp
  moreover have "lo \<le> x \<and> x < lo + d" if "x \<in> set (grants ops k cs s)" for x
  proof -
    from that grants_set_times obtain c where "(x, c) \<in> set cs" by fastforce
    with assms(4) show ?thesis by blast
  qed
  then have "lo \<le> g" "g' < lo + d" using gs by auto
  ultimately show False by simp
qed

end

text \<open>A store whose counters do not decay with time, and whose calls never fail.\<close>

locale steady_alert_store = alert_store ops count cooling
  for ops :: "'s store_ops" and count cooling +
  assumes count_steady: "count t s k = count t' s k"
    and incr_total: "\<exists>n s'. IncrementCPUBreach ops t k s = (Inr n, s')"
    and get_total: "\<exists>n s'. GetCPUBreachCount ops t k s = (Inr n, s')"
    and reset_total: "\<exists>s'. ResetCPUBreach ops t k s = (None, s')"
    and acquire_total: "\<exists>b s'. TryAcquireCooldown ops t k ttl s = (Inr b, s')"
begin

text \<open>The number of increments of a machine since its last reset.\<close>

lemma count_exec_call:
  assumes "exec_call ops t c s = (b, s')"
  shows "count u s' k =
    (case c of
       Call_Increment k' \<Rightarrow> if k' = k then wrap64 (count u s k + 1) else count u s k
     | Call_Reset k' \<Rightarrow> if k' = k then 0 else count u s k
     | _ \<Rightarrow> count u s k)"
proof -
  have st: "count u x k = count t x k" for x by (rule count_steady)
  show ?thesis
  proof (cases c)
    case (Call_Increment k')
    obtain n s1 where i: "IncrementCPUBreach ops t k' s = (Inr n, s1)" using incr_total by blast
    with incr_ok [OF i] incr_other [OF i, of k t] Call_Increment assms show ?thesis
      by (auto simp: st)
  next
    case (Call_Get k')
    obtain n s1 where g: "GetCPUBreachCount ops t k' s = (Inr n, s1)" using get_total by blast
    with get_count [OF g, of t] Call_Get assms show ?thesis by (auto simp: st)
  next
    case (Call_Reset k')
    obtain s1 where r: "ResetCPUBreach ops t k' s = (None, s1)" using reset_total by blast
    with reset_ok [OF r, of t] reset_other [OF r, of k t] Call_Reset assms show ?thesis
      by (auto simp: st)
  next
    case (Call_Acquire k' ttl)
    obtain g s1 where a: "TryAcquireCooldown ops t k' ttl s = (Inr g, s1)"
      using acquire_total by blast
    with acquire_count [OF a, of t] Call_Acquire assms show ?thesis by (auto simp: st)
  qed
qed

lemma count_run_calls:
  "count u s k = wrap64 (int n) \<Longrightarrow>
     count u (run_calls ops cs s) k = wrap64 (int (streak k cs n))"
proof (induction cs arbitrary: s n)
  case (Cons tc cs)
  obtain t c where tc: "tc = (t, c)" by (cases tc)
  obtain b s' where ex: "exec_call ops t c s = (b, s')" by (cases "exec_call ops t c s")
  let ?n = "case c of Call_Increment k' \<Rightarrow> if k' = k then Suc n else n
     | Call_Reset k' \<Rightarrow> if k' = k then 0 else n | _ \<Rightarrow> n"
  have "count u s' k = wrap64 (int ?n)"
    using count_exec_call [OF ex, of u k] Cons.prems
    by (auto simp: in_int64_def [of 0] add.commute split: store_call.split)
  with Cons.IH ex tc show ?case by simp
qed simp

end

section \<open>The in-memory store\<close>

text \<open>
  Two maps under one mutex: every method is one atomic step. An absent counter reads as 0, the
  increment wraps as Go's \<open>int\<close> does, and a cooldown is held strictly before its expiry.
\<close>

record memory_alert_store =
  counts :: "string \<Rightarrow> int option"
  cooldowns :: "string \<Rightarrow> instant option"

definition NewMemoryAlertStateStore :: memory_alert_store where
  "NewMemoryAlertStateStore = \<lparr>counts = Map.empty, cooldowns = Map.empty\<rparr>"

definition mem_lookup :: "memory_alert_store \<Rightarrow> string \<Rightarrow> int" where
  "mem_lookup s machineID = (case counts s machineID of None \<Rightarrow> 0 | Some n \<Rightarrow> n)"

definition mem_IncrementCPUBreach ::
    "instant \<Rightarrow> string \<Rightarrow> memory_alert_store \<Rightarrow> (error + int) \<times> memory_alert_store" where
  "mem_IncrementCPUBreach now machineID s =
     (let s' = s\<lparr>counts := (counts s)(machineID \<mapsto> wrap64 (mem_lookup s machineID + 1))\<rparr>
      in (Inr (mem_lookup s' machineID), s'))"

definition mem_GetCPUBreachCount ::
    "instant \<Rightarrow> string \<Rightarrow> memory_alert_store \<Rightarrow> (error + int) \<times> memory_alert_store" where
  "mem_GetCPUBreachCount now machineID s = (Inr (mem_lookup s machineID), s)"

definition mem_ResetCPUBreach ::
    "instant \<Rightarrow> string \<Rightarrow> memory_alert_store \<Rightarrow> error option \<times> memory_alert_store" where
  "mem_ResetCPUBreach now machineID s = (None, s\<lparr>counts := (counts s)(machineID := None)\<rparr>)"

definition mem_TryAcquireCooldown ::
    "instant \<Rightarrow> string \<Rightarrow> duration \<Rightarrow> memory_alert_store \<Rightarrow> (error + bool) \<times> memory_alert_store" where
  "mem_TryAcquireCooldown now machineID ttl s =
     (let acquire = (Inr True, s\<lparr>cooldowns := (cooldowns s)(machineID \<mapsto> now + ttl)\<rparr>) in
      case cooldowns s machineID of
        Some expireAt \<Rightarrow> if now < expireAt then (Inr False, s) else acquire
      | None \<Rightarrow> acquire)"

definition memory_store :: "memory_alert_store store_ops" where
  "memory_store =
     \<lparr>IncrementCPUBreach = mem_IncrementCPUBreach,
      GetCPUBreachCount = mem_GetCPUBreachCount,
      ResetCPUBreach = mem_ResetCPUBreach,
      TryAcquireCooldown = mem_TryAcquireCooldown\<rparr>"

definition mem_count :: "instant \<Rightarrow> memory_alert_store \<Rightarrow> string \<Rightarrow> int" where
  "mem_count t s k = mem_lookup s k"

definition mem_cooling :: "instant \<Rightarrow> memory_alert_store \<Rightarrow> string \<Rightarrow> bool" where
  "mem_cooling t s k = (case cooldowns s k of None \<Rightarrow> False | Some e \<Rightarrow> t < e)"

lemmas mem_defs =
  mem_IncrementCPUBreach_def mem_GetCPUBreachCount_def mem_ResetCPUBreach_def
  mem_TryAcquireCooldown_def mem_count_def mem_cooling_def mem_lookup_def

lemma memory_store_simps [simp]:
  "IncrementCPUBreach memory_store = mem_IncrementCPUBreach"
  "GetCPUBreachCount memory_store = mem_GetCPUBreachCount"
  "ResetCPUBreach memory_store = mem_ResetCPUBreach"
  "TryAcquireCooldown memory_store = mem_TryAcquireCooldown"
  by (simp_all add: memory_store_def)

interpretation mem: steady_alert_store memory_store mem_count mem_cooling
  by unfold_locales (auto simp: mem_defs Let_def split: option.splits if_splits)

text \<open>
  Cooldown exclusivity of the in-memory store. Take any sequence of store calls in the order
  of their instants, made by any number of requests for any machines. If every request for the
  cooldown of machine \<open>k\<close> asks for the same positive time \<open>d\<close>, two grants for \<open>k\<close> are at least
  \<open>d\<close> apart.
\<close>

theorem memory_cooldown_exclusive:
  assumes "sorted (map fst cs)" and "uniform_ttl k d cs" and "0 < d"
  shows "sorted_wrt (\<lambda>g g'. g + d \<le> g') (grants memory_store k cs s)"
  using assms by (rule mem.grants_spaced)

theorem memory_cooldown_exclusive_witness:
  "grants memory_store ''a''
     [(0, Call_Acquire ''a'' 60), (5, Call_Reset ''a''), (9, Call_Acquire ''a'' 60),
      (10, Call_Acquire ''b'' 60), (60, Call_Acquire ''a'' 60)]
     NewMemoryAlertStateStore = [0, 60] \<and>
   sorted_wrt (\<lambda>g g'. g + 60 \<le> g')
     (grants memory_store ''a''
       [(0, Call_Acquire ''a'' 60), (5, Call_Reset ''a''), (9, Call_Acquire ''a'' 60),
        (10, Call_Acquire ''b'' 60), (60, Call_Acquire ''a'' 60)] NewMemoryAlertStateStore)"
  (is "?g \<and> _")
proof
  show ?g by (simp add: mem_defs Let_def NewMemoryAlertStateStore_def)
qed (rule memory_cooldown_exclusive; simp)

text \<open>
  The in-memory breach counter of a machine is the number of increments since its last reset,
  as a 64-bit integer, whatever other calls are made in between.
\<close>

theorem memory_count_is_streak:
  "GetCPUBreachCount memory_store t k (run_calls memory_store cs NewMemoryAlertStateStore) =
     (Inr (wrap64 (int (streak k cs 0))), run_calls memory_store cs NewMemoryAlertStateStore)"
proof -
  have "mem_count t NewMemoryAlertStateStore k = wrap64 (int 0)"
    by (simp add: mem_defs NewMemoryAlertStateStore_def in_int64_def [of 0])
  from mem.count_run_calls [OF this, of cs] show ?thesis
    by (simp add: mem_GetCPUBreachCount_def mem_count_def)
qed

end
