(* ===== verification/Go_Json.thy ===== *)
theory Go_Json
  imports Go_Strconv
begin

text \<open>
  JSON documents and the part of \<open>encoding/json\<close> the program uses.

  A document is its syntax tree; a number keeps its literal, because Go decodes the same literal
  differently into \<open>float64\<close> and \<open>int64\<close>. A text that is not JSON is an error value
  (\<open>error + json\<close>) supplied by whoever sends it. Decoding into a struct follows Go: keys are
  matched exactly first and then up to case, unknown keys are ignored, \<open>null\<close> leaves a field
  alone, later keys overwrite earlier ones, a value of the wrong kind is recorded as an error and
  decoding goes on, and the first error is returned.
\<close>

section \<open>Documents\<close>

datatype json =
    JNull
  | JBool bool
  | JNum string
  | JStr string
  | JArr "json list"
  | JObj "(string \<times> json) list"

fun json_kind :: "json \<Rightarrow> string" where
  "json_kind JNull = ''null''"
| "json_kind (JBool _) = ''bool''"
| "json_kind (JNum lit) = ''number''"
| "json_kind (JStr _) = ''string''"
| "json_kind (JArr _) = ''array''"
| "json_kind (JObj _) = ''object''"

definition member_of :: "string \<Rightarrow> json \<Rightarrow> json option" where
  "member_of k j = (case j of JObj kvs \<Rightarrow> map_of kvs k | _ \<Rightarrow> None)"

section \<open>Encoding\<close>

text \<open>Non-finite floats are the only values of the program's structs that cannot be encoded.\<close>

definition encode_float :: "float_lib \<Rightarrow> float64 \<Rightarrow> error + json" where
  "encode_float fl x =
     (if f64_finite x then Inr (JNum (FormatFloat fl x))
      else Inl (''json: unsupported value: '' @
        (case x of Infinity neg \<Rightarrow> if neg then ''-Inf'' else ''+Inf'' | _ \<Rightarrow> ''NaN'')))"

definition encode_int :: "int \<Rightarrow> json" where
  "encode_int i = JNum (itoa i)"

section \<open>Decoding into structs\<close>

definition type_error :: "string \<Rightarrow> string \<Rightarrow> string \<Rightarrow> error" where
  "type_error value place ty =
     ''json: cannot unmarshal '' @ value @ '' into Go '' @ place @ '' of type '' @ ty"

definition field_place :: "string \<Rightarrow> string \<Rightarrow> string" where
  "field_place struct fld = ''struct field '' @ struct @ ''.'' @ fld"

type_synonym 'a setter = "json \<Rightarrow> 'a \<Rightarrow> error + 'a"

definition string_field :: "string \<Rightarrow> string \<Rightarrow> (string \<Rightarrow> 'a \<Rightarrow> 'a) \<Rightarrow> string \<times> 'a setter" where
  "string_field struct fld upd =
     (fld, \<lambda>j a. case j of
        JNull \<Rightarrow> Inr a
      | JStr s \<Rightarrow> Inr (upd s a)
      | _ \<Rightarrow> Inl (type_error (json_kind j) (field_place struct fld) ''string''))"

definition float_field ::
    "float_lib \<Rightarrow> string \<Rightarrow> string \<Rightarrow> (float64 \<Rightarrow> 'a \<Rightarrow> 'a) \<Rightarrow> string \<times> 'a setter" where
  "float_field fl struct fld upd =
     (fld, \<lambda>j a. case j of
        JNull \<Rightarrow> Inr a
      | JNum lit \<Rightarrow>
          (case ParseFloat fl lit of
             Some x \<Rightarrow> Inr (upd x a)
           | None \<Rightarrow> Inl (type_error (''number '' @ lit) (field_place struct fld) ''float64''))
      | _ \<Rightarrow> Inl (type_error (json_kind j) (field_place struct fld) ''float64''))"

text \<open>An integer field of Go type \<open>ty\<close>, whose range is \<open>ok\<close>.\<close>

definition int_field ::
    "(int \<Rightarrow> bool) \<Rightarrow> string \<Rightarrow> string \<Rightarrow> string \<Rightarrow> (int \<Rightarrow> 'a \<Rightarrow> 'a) \<Rightarrow> string \<times> 'a setter" where
  "int_field ok ty struct fld upd =
     (fld, \<lambda>j a. case j of
        JNull \<Rightarrow> Inr a
      | JNum lit \<Rightarrow>
          (case atoi lit of
             Inr i \<Rightarrow> if ok i then Inr (upd i a)
                      else Inl (type_error (''number '' @ lit) (field_place struct fld) ty)
           | Inl _ \<Rightarrow> Inl (type_error (''number '' @ lit) (field_place struct fld) ty))
      | _ \<Rightarrow> Inl (type_error (json_kind j) (field_place struct fld) ty))"

definition find_field :: "(string \<times> 'b) list \<Rightarrow> string \<Rightarrow> 'b option" where
  "find_field flds key =
     (case map_of flds key of
        Some f \<Rightarrow> Some f
      | None \<Rightarrow> map_option snd (find (\<lambda>f. equal_fold key (fst f)) flds))"

fun decode_members ::
    "(string \<times> 'a setter) list \<Rightarrow> (string \<times> json) list \<Rightarrow> 'a \<Rightarrow> error option \<Rightarrow> error option \<times> 'a" where
  "decode_members flds [] a err = (err, a)"
| "decode_members flds ((k, j) # kvs) a err =
     (case find_field flds k of
        None \<Rightarrow> decode_members flds kvs a err
      | Some set_to \<Rightarrow>
          (case set_to j a of
             Inr a' \<Rightarrow> decode_members flds kvs a' err
           | Inl e \<Rightarrow> decode_members flds kvs a (if err = None then Some e else err)))"

definition decode_struct ::
    "string \<Rightarrow> (string \<times> 'a setter) list \<Rightarrow> json \<Rightarrow> 'a \<Rightarrow> error + 'a" where
  "decode_struct ty flds j a =
     (case j of
        JNull \<Rightarrow> Inr a
      | JObj kvs \<Rightarrow>
          (case decode_members flds kvs a None of
             (None, a') \<Rightarrow> Inr a'
           | (Some e, _) \<Rightarrow> Inl e)
      | _ \<Rightarrow> Inl (type_error (json_kind j) ''value'' ty))"

lemma find_field_mem: "find_field flds k = Some f \<Longrightarrow> f \<in> snd ` set flds"
  by (auto simp: find_field_def find_Some_iff image_iff dest!: map_of_SomeD split: option.splits)
    (metis nth_mem snd_conv)+

text \<open>An error, once recorded, is the one that is returned.\<close>

lemma decode_members_keeps_error: "fst (decode_members flds kvs a (Some e)) = Some e"
  by (induction kvs arbitrary: a) (auto split: option.split sum.split)

text \<open>What every setter of a struct keeps, decoding keeps.\<close>

lemma decode_members_inv:
  assumes "P a" and "\<And>f j a a'. f \<in> snd ` set flds \<Longrightarrow> P a \<Longrightarrow> f j a = Inr a' \<Longrightarrow> P a'"
  shows "P (snd (decode_members flds kvs a err))"
  using assms(1)
proof (induction kvs arbitrary: a err)
  case (Cons kv kvs)
  obtain k j where kv: "kv = (k, j)" by (cases kv)
  show ?case
  proof (cases "find_field flds k")
    case (Some f)
    with Cons assms(2) [OF find_field_mem [OF Some]] show ?thesis
      by (auto simp: kv split: sum.split)
  qed (use Cons in \<open>simp add: kv\<close>)
qed simp

lemma decode_struct_inv:
  assumes "decode_struct ty flds j a = Inr b" and "P a"
    and "\<And>f j a a'. f \<in> snd ` set flds \<Longrightarrow> P a \<Longrightarrow> f j a = Inr a' \<Longrightarrow> P a'"
  shows "P b"
proof (cases j)
  case (JObj kvs)
  with assms(1) decode_members_inv [of P a flds kvs None, OF assms(2,3)] show ?thesis
    by (auto simp: decode_struct_def split: prod.splits option.splits)
qed (use assms(1,2) in \<open>auto simp: decode_struct_def\<close>)

lemma decode_members_append:
  "decode_members flds (kvs @ kvs') a err =
     (case decode_members flds kvs a err of (err', a') \<Rightarrow> decode_members flds kvs' a' err')"
proof (induction kvs arbitrary: a err)
  case (Cons kv kvs)
  then show ?case by (cases kv) (auto split: option.split sum.split)
qed simp

text \<open>A key outside the struct changes nothing, wherever it stands.\<close>

lemma decode_members_unknown:
  "find_field flds k = None \<Longrightarrow>
     decode_members flds (kvs @ (k, j) # kvs') a err = decode_members flds (kvs @ kvs') a err"
  by (simp add: decode_members_append)

declare string_field_def [field_defs] float_field_def [field_defs] int_field_def [field_defs]

end
