(* ===== verification/Http.thy ===== *)
theory Http
  imports Go_Json
begin

text \<open>
  Requests and responses of \<open>net/http\<close> as far as the program looks at them. What a remote side
  answers is always an argument of the definitions; a response carries its body as a JSON
  document or the error that reading it as JSON gives.
\<close>

datatype http_body = NoBody | TextBody string | JsonBody json

record http_request =
  req_method :: string
  req_url :: string
  req_headers :: "(string \<times> string) list"
  req_body :: http_body

record http_response =
  StatusCode :: int
  StatusText :: string
  RespBody :: "error + json"

text \<open>The negation of the test \<open>code < 200 || code >= 300\<close> every caller makes.\<close>

definition is_2xx :: "int \<Rightarrow> bool" where
  "is_2xx code \<longleftrightarrow> \<not> (code < 200 \<or> code \<ge> 300)"

lemma is_2xx_iff: "is_2xx code \<longleftrightarrow> 200 \<le> code \<and> code < 300"
  by (auto simp: is_2xx_def)

text \<open>What a handler sends back: the status and the JSON body.\<close>

type_synonym http_result = "int \<times> json"

definition error_body :: "error \<Rightarrow> json" where
  "error_body err = JObj [(''error'', JStr err)]"

section \<open>Query strings\<close>

text \<open>
  \<open>url.QueryEscape\<close>: unreserved bytes stay, a space becomes \<open>+\<close>, every other byte becomes
  \<open>%XX\<close>. \<open>url.Values.Encode\<close> joins the escaped pairs in the order of their keys.
\<close>

definition unreserved :: "char \<Rightarrow> bool" where
  "unreserved c =
     (let n = of_char c :: nat in
        (97 \<le> n \<and> n \<le> 122) \<or> (65 \<le> n \<and> n \<le> 90) \<or> (48 \<le> n \<and> n \<le> 57) \<or>
        n = 45 \<or> n = 95 \<or> n = 46 \<or> n = 126)"

definition hex_digit :: "nat \<Rightarrow> char" where
  "hex_digit d = (if d < 10 then char_of (48 + d) else char_of (55 + d))"

definition escape_byte :: "char \<Rightarrow> string" where
  "escape_byte c =
     (let n = of_char c :: nat in
      if unreserved c then [c]
      else if c = CHR '' '' then ''+''
      else [CHR ''%'', hex_digit (n div 16), hex_digit (n mod 16)])"

definition query_escape :: "string \<Rightarrow> string" where
  "query_escape s = concat (map escape_byte s)"

text \<open>The pairs are given in the order of their keys, which is how \<open>Encode\<close> writes them.\<close>

definition encode_values :: "(string \<times> string) list \<Rightarrow> string" where
  "encode_values kvs =
     join_with ''&'' (map (\<lambda>(k, v). query_escape k @ ''='' @ query_escape v) kvs)"

text \<open>\<open>url.QueryUnescape\<close>, the reading side.\<close>

definition hex_val :: "char \<Rightarrow> nat option" where
  "hex_val c =
     (let n = of_char c :: nat in
      if 48 \<le> n \<and> n \<le> 57 then Some (n - 48)
      else if 65 \<le> n \<and> n \<le> 70 then Some (n - 55)
      else if 97 \<le> n \<and> n \<le> 102 then Some (n - 87)
      else None)"

fun query_unescape :: "string \<Rightarrow> string option" where
  "query_unescape [] = Some []"
| "query_unescape (c # s) =
     (if c = CHR ''+'' then map_option ((#) (CHR '' '')) (query_unescape s)
      else if c = CHR ''%'' then
        (case s of
           a # b # s' \<Rightarrow>
             (case (hex_val a, hex_val b) of
                (Some x, Some y) \<Rightarrow>
                  map_option ((#) (char_of (16 * x + y))) (query_unescape s')
              | _ \<Rightarrow> None)
         | _ \<Rightarrow> None)
      else map_option ((#) c) (query_unescape s))"

lemma hex_val_hex_digit [simp]: "d < 16 \<Longrightarrow> hex_val (hex_digit d) = Some d"
  by (auto simp: hex_val_def hex_digit_def Let_def)

lemma of_char_less_256: "(of_char c :: nat) < 256"
  by simp

lemma hex_halves: "(of_char c :: nat) div 16 < 16" "(of_char c :: nat) mod 16 < 16"
  using of_char_less_256 [of c] by (simp_all add: less_mult_imp_div_less)

lemma unreserved_plain: "unreserved c \<Longrightarrow> c \<noteq> CHR ''+'' \<and> c \<noteq> CHR ''%''"
  by (auto simp: unreserved_def)

lemma query_unescape_escape_byte:
  "query_unescape (escape_byte c @ s) = map_option ((#) c) (query_unescape s)"
proof -
  let ?n = "of_char c :: nat"
  have d: "?n div 16 < 16" "?n mod 16 < 16" by (rule hex_halves)+
  have "16 * (?n div 16) + ?n mod 16 = ?n" by simp
  then have joined: "char_of (16 * (?n div 16) + ?n mod 16) = c" by simp
  show ?thesis
    using unreserved_plain [of c] d joined by (auto simp: escape_byte_def Let_def)
qed

lemma query_unescape_escape [simp]: "query_unescape (query_escape s) = Some s"
  by (induction s) (auto simp: query_escape_def query_unescape_escape_byte)

text \<open>The separators of a query string never occur in an escaped value.\<close>

lemma hex_digit_unreserved: "d < 16 \<Longrightarrow> unreserved (hex_digit d)"
  by (auto simp: unreserved_def hex_digit_def Let_def)

lemma escape_byte_chars:
  "d \<in> set (escape_byte c) \<Longrightarrow> unreserved d \<or> d = CHR ''+'' \<or> d = CHR ''%''"
  using hex_halves [of c] by (auto simp: escape_byte_def Let_def hex_digit_unreserved split: if_splits)

lemma query_escape_no_sep:
  "CHR ''&'' \<notin> set (query_escape s)" "CHR ''='' \<notin> set (query_escape s)" "CHR '';'' \<notin> set (query_escape s)"
  by (auto simp: query_escape_def dest!: escape_byte_chars) (auto simp: unreserved_def)

text \<open>Reading a query string back into its pairs.\<close>

definition parse_pair :: "string \<Rightarrow> (string \<times> string) option" where
  "parse_pair p =
     (if CHR '';'' \<in> set p then None
      else
        (case (query_unescape (takeWhile (\<lambda>c. c \<noteq> CHR ''='') p),
               query_unescape (drop 1 (dropWhile (\<lambda>c. c \<noteq> CHR ''='') p))) of
           (Some k, Some v) \<Rightarrow> Some (k, v)
         | _ \<Rightarrow> None))"

definition parse_query :: "string \<Rightarrow> (string \<times> string) option list" where
  "parse_query q = map parse_pair (filter (\<lambda>p. p \<noteq> []) (split_on CHR ''&'' q))"

text \<open>The value a handler gets for a key: of the first pair with the key, or empty.\<close>

definition query_param :: "string \<Rightarrow> string \<Rightarrow> string" where
  "query_param q k = (case map_of (List.map_filter id (parse_query q)) k of Some v \<Rightarrow> v | None \<Rightarrow> [])"

lemma parse_pair_escape:
  "parse_pair (query_escape k @ ''='' @ query_escape v) = Some (k, v)"
proof -
  have k: "\<forall>c \<in> set (query_escape k). c \<noteq> CHR ''=''" using query_escape_no_sep(2) by blast
  from k have "takeWhile (\<lambda>c. c \<noteq> CHR ''='') (query_escape k @ ''='' @ query_escape v) = query_escape k"
    by (simp add: takeWhile_append2)
  moreover from k have "dropWhile (\<lambda>c. c \<noteq> CHR ''='') (query_escape k @ ''='' @ query_escape v) =
      ''='' @ query_escape v"
    by (simp add: dropWhile_append2)
  ultimately show ?thesis by (simp add: parse_pair_def query_escape_no_sep)
qed

lemma split_join_with:
  assumes "ps \<noteq> []" and "\<And>p. p \<in> set ps \<Longrightarrow> sep \<notin> set p"
  shows "split_on sep (join_with [sep] ps) = ps"
  using assms
proof (induction "[sep]" ps rule: join_with.induct)
  case (3 s s' ss)
  then show ?case by (simp add: split_on_append)
qed (auto simp: split_on_clean)

lemma parse_query_encode_values:
  "kvs \<noteq> [] \<Longrightarrow> parse_query (encode_values kvs) = map Some kvs"
proof -
  assume ne: "kvs \<noteq> []"
  let ?ps = "map (\<lambda>(k, v). query_escape k @ ''='' @ query_escape v) kvs"
  have "split_on CHR ''&'' (encode_values kvs) = ?ps"
    unfolding encode_values_def
    by (subst split_join_with) (use ne in \<open>auto simp: query_escape_no_sep\<close>)
  moreover have "filter (\<lambda>p. p \<noteq> []) ?ps = ?ps"
    by (rule filter_True) auto
  moreover have "map parse_pair ?ps = map Some kvs"
    by (simp add: parse_pair_escape [simplified] split_beta)
  ultimately show ?thesis unfolding parse_query_def by metis
qed

lemma query_param_encode_values:
  "kvs \<noteq> [] \<Longrightarrow> query_param (encode_values kvs) k = (case map_of kvs k of Some v \<Rightarrow> v | None \<Rightarrow> [])"
  by (simp add: query_param_def parse_query_encode_values List.map_filter_def comp_def)

end
