(* ===== verification/Server_World.thy ===== *)
theory Server_World
  imports Alert_Store Http
begin

text \<open>
  The state of the server and the outside it talks to.

  A run of the server is deterministic given what the outside answers. The record \<open>services\<close>
  holds those answers: each is a function of everything the server has sent so far (the trace), so
  any remote side, stateful or failing, is an instance. The server's own state is the alert store,
  the trace of calls it made, and the Prometheus series of \<open>server_metrics.go\<close>. Log lines and
  trace spans are not part of the state.
\<close>

section \<open>Data of the server\<close>

text \<open>\<open>AlertEvent\<close>, what a notifier is told (\<open>notifier.go\<close>).\<close>

record alert_event =
  ev_Level :: string
  ev_MachineID :: string
  ev_IP :: string
  ev_CurrentCPU :: float64
  ev_ThresholdCPU :: float64
  ev_TriggerCount :: int
  ev_CooldownSec :: int
  ev_TriggeredAt :: instant
  ev_SourceService :: string

text \<open>
  \<open>AlertEventRecord\<close>, the row of the alert table (\<open>alert_event.go\<close>). The database assigns
  \<open>ID\<close> and \<open>CreatedAt\<close>; their Go zero values are 0 here.
\<close>

record alert_event_record =
  rec_ID :: nat
  rec_MachineID :: string
  rec_IP :: string
  rec_Level :: string
  rec_Metric :: string
  rec_ThresholdValue :: float64
  rec_CurrentValue :: float64
  rec_TriggerCount :: int
  rec_CooldownSec :: int
  rec_NotifyStatus :: string
  rec_NotifyError :: string
  rec_TriggeredAt :: instant
  rec_CreatedAt :: instant

text \<open>\<open>MetricsPayload\<close>, the body of the ingest requests (\<open>main.go\<close>).\<close>

record metrics_payload =
  MachineID :: string
  IP :: string
  CPUUsage :: float64
  MemUsage :: float64
  DiskUsage :: float64
  Timestamp :: int

text \<open>\<open>kafka.Message\<close> as far as the program fills or reads it.\<close>

record kafka_message =
  msg_Topic :: string
  msg_Key :: string
  msg_Value :: "error + json"
  msg_Time :: instant
  msg_Headers :: "(string \<times> string) list"

section \<open>The outside\<close>

datatype effect =
    HttpDo http_request
  | CreateEvent alert_event_record
  | WriteKafka kafka_message

text \<open>
  \<open>url_error\<close> is the error \<^verbatim>\<open>http.NewRequestWithContext\<close> gives for a URL that does not parse,
  \<open>rfc3339\<close> the text of an instant in the server's time zone, and \<open>carrier\<close> what the installed
  trace propagator injects.
\<close>

record services =
  http_reply :: "effect list \<Rightarrow> http_request \<Rightarrow> error + http_response"
  db_create :: "effect list \<Rightarrow> alert_event_record \<Rightarrow> error option"
  kafka_write :: "effect list \<Rightarrow> kafka_message \<Rightarrow> error option"
  url_error :: "string \<Rightarrow> error option"
  rfc3339 :: "instant \<Rightarrow> string"
  carrier :: "(string \<times> string) list"

section \<open>The state\<close>

text \<open>A Prometheus series: the metric's name and its label values.\<close>

type_synonym series = "string \<times> string list"

record 's server =
  store :: 's
  trace :: "effect list"
  counters :: "series \<Rightarrow> nat"

definition serverIngestRequestsTotal :: string where
  "serverIngestRequestsTotal = ''cloudops_server_ingest_requests_total''"

definition serverKafkaPublishTotal :: string where
  "serverKafkaPublishTotal = ''cloudops_server_kafka_publish_total''"

definition serverVMWritesTotal :: string where
  "serverVMWritesTotal = ''cloudops_server_vm_writes_total''"

definition serverVMWriteDurationSeconds :: string where
  "serverVMWriteDurationSeconds = ''cloudops_server_vm_write_duration_seconds''"

definition serverMetricsProcessDurationSeconds :: string where
  "serverMetricsProcessDurationSeconds = ''cloudops_server_metrics_process_duration_seconds''"

definition serverAlertNotificationsTotal :: string where
  "serverAlertNotificationsTotal = ''cloudops_server_alert_notifications_total''"

definition serverAlertEventsSavedTotal :: string where
  "serverAlertEventsSavedTotal = ''cloudops_server_alert_events_saved_total''"

lemmas metric_names =
  serverIngestRequestsTotal_def serverKafkaPublishTotal_def serverVMWritesTotal_def
  serverVMWriteDurationSeconds_def serverMetricsProcessDurationSeconds_def
  serverAlertNotificationsTotal_def serverAlertEventsSavedTotal_def

lemma metric_names_distinct [simp]:
  "distinct [serverIngestRequestsTotal, serverKafkaPublishTotal, serverVMWritesTotal,
     serverVMWriteDurationSeconds, serverMetricsProcessDurationSeconds,
     serverAlertNotificationsTotal, serverAlertEventsSavedTotal]"
  by (simp add: metric_names)

lemma metric_names_distinct' [simp]:
  "distinct (rev [serverIngestRequestsTotal, serverKafkaPublishTotal, serverVMWritesTotal,
     serverVMWriteDurationSeconds, serverMetricsProcessDurationSeconds,
     serverAlertNotificationsTotal, serverAlertEventsSavedTotal])"
  unfolding distinct_rev by (rule metric_names_distinct)

lemmas metric_neq [simp] =
  metric_names_distinct [simplified, unfolded conj_assoc]
  metric_names_distinct' [simplified, unfolded conj_assoc]

text \<open>\<open>counter.WithLabelValues(labels...).Inc()\<close>\<close>

definition inc :: "string \<Rightarrow> string list \<Rightarrow> 's server \<Rightarrow> 's server" where
  "inc name labels w =
     w\<lparr>counters := (counters w)((name, labels) := Suc (counters w (name, labels)))\<rparr>"

text \<open>
  \<open>observeDuration\<close>: one more sample in a histogram. The sample count of a histogram is kept as
  a series without labels; the measured time is not modelled.
\<close>

definition observeDuration :: "string \<Rightarrow> 's server \<Rightarrow> 's server" where
  "observeDuration name w = inc name [] w"

text \<open>A call on the store, in the state.\<close>

definition with_store :: "('s \<Rightarrow> 'a \<times> 's) \<Rightarrow> 's server \<Rightarrow> 'a \<times> 's server" where
  "with_store f w = (case f (store w) of (a, s') \<Rightarrow> (a, w\<lparr>store := s'\<rparr>))"

definition http_do :: "services \<Rightarrow> http_request \<Rightarrow> 's server \<Rightarrow> (error + http_response) \<times> 's server" where
  "http_do sv req w = (http_reply sv (trace w) req, w\<lparr>trace := trace w @ [HttpDo req]\<rparr>)"

definition kafka_do :: "services \<Rightarrow> kafka_message \<Rightarrow> 's server \<Rightarrow> error option \<times> 's server" where
  "kafka_do sv msg w = (kafka_write sv (trace w) msg, w\<lparr>trace := trace w @ [WriteKafka msg]\<rparr>)"

text \<open>\<open>saveAlertEvent\<close> and \<open>saveAlertEventObserved\<close>\<close>

definition saveAlertEvent ::
    "services \<Rightarrow> alert_event_record \<Rightarrow> 's server \<Rightarrow> error option \<times> 's server" where
  "saveAlertEvent sv e w = (db_create sv (trace w) e, w\<lparr>trace := trace w @ [CreateEvent e]\<rparr>)"

definition saveAlertEventObserved ::
    "services \<Rightarrow> alert_event_record \<Rightarrow> 's server \<Rightarrow> error option \<times> 's server" where
  "saveAlertEventObserved sv row w =
     (case saveAlertEvent sv row w of
        (Some err, w1) \<Rightarrow>
          (Some err, inc serverAlertEventsSavedTotal [rec_Level row, ''failed''] w1)
      | (None, w1) \<Rightarrow>
          (None, inc serverAlertEventsSavedTotal [rec_Level row, ''success''] w1))"

section \<open>Frame facts\<close>

lemma inc_simps [simp]:
  "store (inc n ls w) = store w"
  "trace (inc n ls w) = trace w"
  "counters (inc n ls w) = (counters w)((n, ls) := Suc (counters w (n, ls)))"
  by (simp_all add: inc_def)

lemma observeDuration_simps [simp]:
  "store (observeDuration n w) = store w"
  "trace (observeDuration n w) = trace w"
  "counters (observeDuration n w) = (counters w)((n, []) := Suc (counters w (n, [])))"
  by (simp_all add: observeDuration_def)

lemma http_do_simps [simp]:
  "fst (http_do sv req w) = http_reply sv (trace w) req"
  "store (snd (http_do sv req w)) = store w"
  "trace (snd (http_do sv req w)) = trace w @ [HttpDo req]"
  "counters (snd (http_do sv req w)) = counters w"
  by (simp_all add: http_do_def)

lemma saveAlertEventObserved_simps [simp]:
  "store (snd (saveAlertEventObserved sv r w)) = store w"
  "trace (snd (saveAlertEventObserved sv r w)) = trace w @ [CreateEvent r]"
  "fst (saveAlertEventObserved sv r w) = db_create sv (trace w) r"
  by (simp_all add: saveAlertEventObserved_def saveAlertEvent_def split: option.split)

lemma saveAlertEventObserved_counters [simp]:
  "counters (snd (saveAlertEventObserved sv r w)) =
     (let x = (serverAlertEventsSavedTotal,
         [rec_Level r, if db_create sv (trace w) r = None then ''success'' else ''failed''])
      in (counters w)(x := Suc (counters w x)))"
  by (simp add: saveAlertEventObserved_def saveAlertEvent_def Let_def split: option.split)

text \<open>The alert rows a run has tried to save, in order.\<close>

definition saved_events :: "effect list \<Rightarrow> alert_event_record list" where
  "saved_events tr = concat (map (\<lambda>e. case e of CreateEvent r \<Rightarrow> [r] | _ \<Rightarrow> []) tr)"

definition requests_sent :: "effect list \<Rightarrow> http_request list" where
  "requests_sent tr = concat (map (\<lambda>e. case e of HttpDo r \<Rightarrow> [r] | _ \<Rightarrow> []) tr)"

lemma trace_views [simp]:
  "saved_events [] = []" "saved_events (xs @ ys) = saved_events xs @ saved_events ys"
  "saved_events [HttpDo q] = []" "saved_events [CreateEvent r] = [r]" "saved_events [WriteKafka m] = []"
  "requests_sent [] = []" "requests_sent (xs @ ys) = requests_sent xs @ requests_sent ys"
  "requests_sent [HttpDo q] = [q]" "requests_sent [CreateEvent r] = []" "requests_sent [WriteKafka m] = []"
  by (simp_all add: saved_events_def requests_sent_def)

section \<open>An example outside\<close>

text \<open>Remote sides that answer every request with the given status and accept every write.\<close>

definition example_services :: "int \<Rightarrow> services" where
  "example_services code =
     \<lparr>http_reply = (\<lambda>_ _. Inr \<lparr>StatusCode = code, StatusText = itoa code, RespBody = Inr JNull\<rparr>),
      db_create = (\<lambda>_ _. None), kafka_write = (\<lambda>_ _. None), url_error = (\<lambda>_. None),
      rfc3339 = itoa, carrier = []\<rparr>"

definition example_floats :: float_lib where
  "example_floats =
     \<lparr>ParseFloat = (\<lambda>s. case atoi s of Inr i \<Rightarrow> Some (Fin (of_int i)) | Inl _ \<Rightarrow> None),
      FormatFloat = (\<lambda>x. itoa \<lfloor>f64_val x\<rfloor>)\<rparr>"

definition start_server :: "'s \<Rightarrow> 's server" where
  "start_server s = \<lparr>store = s, trace = [], counters = (\<lambda>_. 0)\<rparr>"

definition example_sample :: "string \<Rightarrow> rat \<Rightarrow> metrics_payload" where
  "example_sample k cpu =
     \<lparr>MachineID = k, IP = ''10.0.0.7'', CPUUsage = Fin cpu, MemUsage = Fin 40, DiskUsage = Fin 50,
      Timestamp = 1700000000\<rparr>"

end
