(* ===== verification/Notifier.thy ===== *)
theory Notifier
  imports Server_World
begin

text \<open>
  Alert notifications (\<open>notifier.go\<close>): the interface \<open>Notifier\<close> with its contract as a locale, the
  no-op and the webhook implementation, and the choice between them.
\<close>

section \<open>The interface\<close>

record 's notifier_ops =
  NotifyCPUAlert :: "alert_event \<Rightarrow> 's server \<Rightarrow> error option \<times> 's server"
  NotifyCPURecovery :: "alert_event \<Rightarrow> 's server \<Rightarrow> error option \<times> 's server"

text \<open>
  A notifier leaves the alert store and the counters alone and saves no alert row; all it does is
  send requests.
\<close>

definition only_sends :: "'s server \<Rightarrow> 's server \<Rightarrow> bool" where
  "only_sends w w' \<longleftrightarrow>
     store w' = store w \<and> counters w' = counters w \<and>
     (\<exists>reqs. trace w' = trace w @ map HttpDo reqs)"

locale notifier_contract =
  fixes ops :: "'s notifier_ops"
  assumes alert_frame: "NotifyCPUAlert ops e w = (r, w') \<Longrightarrow> only_sends w w'"
    and recovery_frame: "NotifyCPURecovery ops e w = (r, w') \<Longrightarrow> only_sends w w'"
begin

lemma notify_store [simp]:
  "store (snd (NotifyCPUAlert ops e w)) = store w"
  "store (snd (NotifyCPURecovery ops e w)) = store w"
  using alert_frame [of e w] recovery_frame [of e w]
  by (simp_all add: only_sends_def prod_eq_iff)

lemma notify_counters [simp]:
  "counters (snd (NotifyCPUAlert ops e w)) = counters w"
  "counters (snd (NotifyCPURecovery ops e w)) = counters w"
  using alert_frame [of e w] recovery_frame [of e w]
  by (simp_all add: only_sends_def prod_eq_iff)

lemma saved_events_requests: "saved_events (map HttpDo reqs) = []"
  by (simp add: saved_events_def comp_def)

lemma notify_saved [simp]:
  "saved_events (trace (snd (NotifyCPUAlert ops e w))) = saved_events (trace w)"
  "saved_events (trace (snd (NotifyCPURecovery ops e w))) = saved_events (trace w)"
  using alert_frame [of e w] recovery_frame [of e w]
  by (auto simp: only_sends_def prod_eq_iff saved_events_requests)

end

section \<open>The no-op notifier\<close>

definition noop_notifier :: "'s notifier_ops" where
  "noop_notifier =
     \<lparr>NotifyCPUAlert = (\<lambda>_ w. (None, w)), NotifyCPURecovery = (\<lambda>_ w. (None, w))\<rparr>"

section \<open>The webhook notifier\<close>

record webhook_notifier =
  wh_provider :: string
  wh_url :: string
  wh_timeout :: duration

definition NewWebhookNotifier ::
    "(string \<Rightarrow> string) \<Rightarrow> string \<Rightarrow> string \<Rightarrow> duration \<Rightarrow> webhook_notifier" where
  "NewWebhookNotifier uni provider url timeout =
     (let timeout = (if timeout \<le> 0 then 5 * nanos_per_second else timeout) in
      \<lparr>wh_provider = to_lower uni (trim_space provider), wh_url = trim_space url,
       wh_timeout = timeout\<rparr>)"

definition buildPayload :: "webhook_notifier \<Rightarrow> string \<Rightarrow> error + json" where
  "buildPayload w content =
     (if wh_provider w \<in> set [''dingtalk'', ''ding''] then
        Inr (JObj [(''msgtype'', JStr ''text''), (''text'', JObj [(''content'', JStr content)])])
      else if wh_provider w \<in> set [''feishu'', ''lark'', ''''] then
        Inr (JObj [(''content'', JObj [(''text'', JStr content)]), (''msg_type'', JStr ''text'')])
      else Inl (''unsupported webhook provider: '' @ wh_provider w))"

definition alert_content :: "services \<Rightarrow> alert_event \<Rightarrow> string" where
  "alert_content sv e =
     ''['' @ ev_Level e @ ''] CPU'' @ [CHR 0xE5, CHR 0x91, CHR 0x8A, CHR 0xE8, CHR 0xAD, CHR 0xA6, CHR 0x0A, CHR 0xE8, CHR 0x8A, CHR 0x82, CHR 0xE7, CHR 0x82, CHR 0xB9] @ '': '' @ ev_MachineID e @ [CHR 0x0A] @ ''IP: '' @ ev_IP e @
     [CHR 0x0A, CHR 0xE5, CHR 0xBD, CHR 0x93, CHR 0xE5, CHR 0x89, CHR 0x8D] @ ''CPU: '' @ fmt_fixed 1 (ev_CurrentCPU e) @
     ''%'' @ [CHR 0x0A, CHR 0xE9, CHR 0x98, CHR 0x88, CHR 0xE5, CHR 0x80, CHR 0xBC] @ '': '' @ fmt_fixed 1 (ev_ThresholdCPU e) @
     ''%'' @ [CHR 0x0A, CHR 0xE8, CHR 0xBF, CHR 0x9E, CHR 0xE7, CHR 0xBB, CHR 0xAD, CHR 0xE6, CHR 0xAC, CHR 0xA1, CHR 0xE6, CHR 0x95, CHR 0xB0] @ '': '' @ itoa (ev_TriggerCount e) @
     [CHR 0x0A, CHR 0xE5, CHR 0x86, CHR 0xB7, CHR 0xE5, CHR 0x8D, CHR 0xB4] @ '': '' @ itoa (ev_CooldownSec e) @
     ''s'' @ [CHR 0x0A, CHR 0xE6, CHR 0x97, CHR 0xB6, CHR 0xE9, CHR 0x97, CHR 0xB4] @ '': '' @ rfc3339 sv (ev_TriggeredAt e)"

definition recovery_content :: "services \<Rightarrow> alert_event \<Rightarrow> string" where
  "recovery_content sv e =
     ''['' @ ev_Level e @ ''] CPU'' @ [CHR 0xE6, CHR 0x81, CHR 0xA2, CHR 0xE5, CHR 0xA4, CHR 0x8D, CHR 0x0A, CHR 0xE8, CHR 0x8A, CHR 0x82, CHR 0xE7, CHR 0x82, CHR 0xB9] @ '': '' @ ev_MachineID e @ [CHR 0x0A] @ ''IP: '' @ ev_IP e @
     [CHR 0x0A, CHR 0xE5, CHR 0xBD, CHR 0x93, CHR 0xE5, CHR 0x89, CHR 0x8D] @ ''CPU: '' @ fmt_fixed 1 (ev_CurrentCPU e) @
     ''%'' @ [CHR 0x0A, CHR 0xE9, CHR 0x98, CHR 0x88, CHR 0xE5, CHR 0x80, CHR 0xBC] @ '': '' @ fmt_fixed 1 (ev_ThresholdCPU e) @
     ''%'' @ [CHR 0x0A, CHR 0xE6, CHR 0xAD, CHR 0xA4, CHR 0xE5, CHR 0x89, CHR 0x8D, CHR 0xE8, CHR 0xBF, CHR 0x9E, CHR 0xE7, CHR 0xBB, CHR 0xAD, CHR 0xE6, CHR 0xAC, CHR 0xA1, CHR 0xE6, CHR 0x95, CHR 0xB0] @ '': '' @ itoa (ev_TriggerCount e) @
     [CHR 0x0A, CHR 0xE6, CHR 0x97, CHR 0xB6, CHR 0xE9, CHR 0x97, CHR 0xB4] @ '': '' @ rfc3339 sv (ev_TriggeredAt e)"

definition webhook_request :: "webhook_notifier \<Rightarrow> json \<Rightarrow> http_request" where
  "webhook_request w body =
     \<lparr>req_method = ''POST'', req_url = wh_url w,
      req_headers = [(''Content-Type'', ''application/json'')], req_body = JsonBody body\<rparr>"

text \<open>The two methods of the source differ in their content only; the rest is this function.\<close>

definition webhook_send ::
    "services \<Rightarrow> webhook_notifier \<Rightarrow> string \<Rightarrow> 's server \<Rightarrow> error option \<times> 's server" where
  "webhook_send sv n content w =
     (if wh_url n = [] then (Some ''webhook url is empty'', w)
      else
        (case buildPayload n content of
           Inl err \<Rightarrow> (Some err, w)
         | Inr body \<Rightarrow>
             (case url_error sv (wh_url n) of
                Some err \<Rightarrow> (Some err, w)
              | None \<Rightarrow>
                  (case http_do sv (webhook_request n body) w of
                     (Inl err, w1) \<Rightarrow> (Some err, w1)
                   | (Inr resp, w1) \<Rightarrow>
                       if StatusCode resp < 200 \<or> StatusCode resp \<ge> 300
                       then (Some (''webhook returned status='' @ itoa (StatusCode resp)), w1)
                       else (None, w1)))))"

definition webhook_NotifyCPUAlert ::
    "services \<Rightarrow> webhook_notifier \<Rightarrow> alert_event \<Rightarrow> 's server \<Rightarrow> error option \<times> 's server" where
  "webhook_NotifyCPUAlert sv n event w = webhook_send sv n (alert_content sv event) w"

definition webhook_NotifyCPURecovery ::
    "services \<Rightarrow> webhook_notifier \<Rightarrow> alert_event \<Rightarrow> 's server \<Rightarrow> error option \<times> 's server" where
  "webhook_NotifyCPURecovery sv n event w = webhook_send sv n (recovery_content sv event) w"

definition webhook_ops :: "services \<Rightarrow> webhook_notifier \<Rightarrow> 's notifier_ops" where
  "webhook_ops sv n =
     \<lparr>NotifyCPUAlert = webhook_NotifyCPUAlert sv n,
      NotifyCPURecovery = webhook_NotifyCPURecovery sv n\<rparr>"

lemma webhook_send_frame: "webhook_send sv n content w = (r, w') \<Longrightarrow> only_sends w w'"
proof -
  have idle: "only_sends w w" for w :: "'a server"
    by (simp add: only_sends_def exI [of _ "[]"])
  have sent: "only_sends w (w\<lparr>trace := trace w @ [HttpDo q]\<rparr>)" for w :: "'a server" and q
    by (simp add: only_sends_def exI [of _ "[q]"])
  show "webhook_send sv n content w = (r, w') \<Longrightarrow> ?thesis"
    by (auto simp: webhook_send_def http_do_def idle sent
        split: if_splits sum.splits option.splits)
qed

section \<open>The choice\<close>

text \<open>\<open>initNotifier\<close>: which implementation the configuration selects.\<close>

datatype notifier_choice = NoopNotifier | WebhookNotifier webhook_notifier

definition initNotifier :: "(string \<Rightarrow> string) \<Rightarrow> app_config \<Rightarrow> notifier_choice" where
  "initNotifier uni cfg =
     (let notifierType = to_lower uni (trim_space (NotifierType cfg)) in
      if notifierType = [] \<or> notifierType = ''noop'' then NoopNotifier
      else if notifierType = ''webhook'' then
        (if trim_space (WebhookURL cfg) = [] then NoopNotifier
         else WebhookNotifier
           (NewWebhookNotifier uni (WebhookProvider cfg) (WebhookURL cfg)
             (seconds (NotifyTimeoutSeconds cfg))))
      else NoopNotifier)"

fun notifier_of :: "services \<Rightarrow> notifier_choice \<Rightarrow> 's notifier_ops" where
  "notifier_of sv NoopNotifier = noop_notifier"
| "notifier_of sv (WebhookNotifier n) = webhook_ops sv n"

interpretation noop: notifier_contract noop_notifier
  by unfold_locales (auto simp: noop_notifier_def only_sends_def exI [of _ "[]"])

interpretation webhook: notifier_contract "webhook_ops sv n" for sv n
  by unfold_locales
    (auto simp: webhook_ops_def webhook_NotifyCPUAlert_def webhook_NotifyCPURecovery_def
      dest: webhook_send_frame)

interpretation configured: notifier_contract "notifier_of sv c" for sv c
  by (cases c) (simp_all add: noop.notifier_contract_axioms webhook.notifier_contract_axioms)

lemma noop_notifier_simps [simp]:
  "NotifyCPUAlert noop_notifier e w = (None, w)"
  "NotifyCPURecovery noop_notifier e w = (None, w)"
  by (simp_all add: noop_notifier_def)

lemma webhook_ops_simps [simp]:
  "NotifyCPUAlert (webhook_ops sv n) = webhook_NotifyCPUAlert sv n"
  "NotifyCPURecovery (webhook_ops sv n) = webhook_NotifyCPURecovery sv n"
  by (simp_all add: webhook_ops_def)

lemma initNotifier_webhookE:
  assumes "initNotifier uni cfg = WebhookNotifier n"
  shows "wh_url n = trim_space (WebhookURL cfg) \<and> wh_url n \<noteq> [] \<and> 0 < wh_timeout n"
  using assms
  by (auto simp: initNotifier_def NewWebhookNotifier_def Let_def split: if_splits)

text \<open>What one attempt sends: at most one request, and none exactly on an early error.\<close>

lemma webhook_send_trace:
  "trace (snd (webhook_send sv n content w)) =
     trace w @
     (if wh_url n = [] \<or> url_error sv (wh_url n) \<noteq> None then []
      else case buildPayload n content of
        Inl _ \<Rightarrow> [] | Inr body \<Rightarrow> [HttpDo (webhook_request n body)])"
  by (auto simp: webhook_send_def http_do_def split: sum.split option.split)

text \<open>
  A configured notifier reports success exactly when there was nothing to do (the no-op) or
  when its request was sent and answered with a 2xx status; it never fails for want of a URL,
  because a blank URL selects the no-op notifier.
\<close>

theorem configured_notifier_success:
  "fst (NotifyCPUAlert (notifier_of sv (initNotifier uni cfg)) e w) = None \<longleftrightarrow>
     (case initNotifier uni cfg of
        NoopNotifier \<Rightarrow> True
      | WebhookNotifier n \<Rightarrow>
          (case buildPayload n (alert_content sv e) of
             Inl _ \<Rightarrow> False
           | Inr body \<Rightarrow>
               url_error sv (wh_url n) = None \<and>
               (case http_reply sv (trace w) (webhook_request n body) of
                  Inl _ \<Rightarrow> False
                | Inr resp \<Rightarrow> is_2xx (StatusCode resp))))"
  (is "?l = ?r")
proof (cases "initNotifier uni cfg")
  case (WebhookNotifier n)
  with initNotifier_webhookE [OF this] show ?thesis
    by (auto simp: webhook_NotifyCPUAlert_def webhook_send_def http_do_def is_2xx_def
        split: sum.splits option.splits)
qed simp

text \<open>
  C38. A webhook notification never leaves the provider's text field out: whenever a request goes
  out it is one POST to the configured URL whose body carries the message under the field of the
  provider, and an unknown provider sends nothing.
\<close>

theorem webhook_sends_message:
  assumes "trace (snd (webhook_NotifyCPUAlert sv n e w)) \<noteq> trace w"
  shows "\<exists>body. trace (snd (webhook_NotifyCPUAlert sv n e w)) =
      trace w @ [HttpDo \<lparr>req_method = ''POST'', req_url = wh_url n,
        req_headers = [(''Content-Type'', ''application/json'')], req_body = JsonBody body\<rparr>] \<and>
    (if wh_provider n \<in> {''dingtalk'', ''ding''}
     then member_of ''msgtype'' body = Some (JStr ''text'') \<and>
       Option.bind (member_of ''text'' body) (member_of ''content'') = Some (JStr (alert_content sv e))
     else wh_provider n \<in> {''feishu'', ''lark'', ''''} \<and>
       member_of ''msg_type'' body = Some (JStr ''text'') \<and>
       Option.bind (member_of ''content'' body) (member_of ''text'') = Some (JStr (alert_content sv e)))"
proof -
  from assms obtain body where b: "buildPayload n (alert_content sv e) = Inr body"
    and t: "trace (snd (webhook_NotifyCPUAlert sv n e w)) = trace w @ [HttpDo (webhook_request n body)]"
    by (auto simp: webhook_NotifyCPUAlert_def webhook_send_trace split: sum.splits if_splits)
  from b have "if wh_provider n \<in> {''dingtalk'', ''ding''}
     then member_of ''msgtype'' body = Some (JStr ''text'') \<and>
       Option.bind (member_of ''text'' body) (member_of ''content'') = Some (JStr (alert_content sv e))
     else wh_provider n \<in> {''feishu'', ''lark'', ''''} \<and>
       member_of ''msg_type'' body = Some (JStr ''text'') \<and>
       Option.bind (member_of ''content'' body) (member_of ''text'') = Some (JStr (alert_content sv e))"
    by (auto simp: buildPayload_def member_of_def split: if_splits)
  with t show ?thesis by (auto simp: webhook_request_def)
qed

theorem webhook_sends_message_witness:
  "\<exists>n e body.
    trace (snd (webhook_NotifyCPUAlert (example_services 200) n e (start_server ()))) =
      trace (start_server ()) @ [HttpDo \<lparr>req_method = ''POST'', req_url = ''http://hook/1'',
        req_headers = [(''Content-Type'', ''application/json'')], req_body = JsonBody body\<rparr>] \<and>
    member_of ''msgtype'' body = Some (JStr ''text'') \<and>
    Option.bind (member_of ''text'' body) (member_of ''content'') =
      Some (JStr (alert_content (example_services 200) e))"
proof -
  let ?n = "NewWebhookNotifier id '' DingTalk'' ''http://hook/1'' 0"
  let ?e = "\<lparr>ev_Level = ''P0'', ev_MachineID = ''a'', ev_IP = ''b'', ev_CurrentCPU = Fin 90,
    ev_ThresholdCPU = Fin 80, ev_TriggerCount = 3, ev_CooldownSec = 60, ev_TriggeredAt = 0,
    ev_SourceService = ''cloud-ops-monitor''\<rparr>"
  have n: "wh_provider ?n = ''dingtalk''" "wh_url ?n = ''http://hook/1''" by code_simp+
  have "trace (snd (webhook_NotifyCPUAlert (example_services 200) ?n ?e (start_server ()))) \<noteq>
      trace (start_server ())"
    unfolding webhook_NotifyCPUAlert_def webhook_send_trace n
    by (simp add: buildPayload_def n example_services_def)
  from webhook_sends_message [OF this] show ?thesis unfolding n by auto
qed

end
