(* ===== verification/Redis_Store.thy ===== *)
theory Redis_Store
  imports Alert_Store
begin

text \<open>
  The Redis implementation of the alert state store (\<open>RedisAlertStateStore\<close>).

  The client library and the server are not part of the repository: a \<open>redis_client\<close> record of
  the five commands is the parameter, and \<open>redis_behaves\<close> states the documented behaviour of the
  commands that the store relies on, in terms of the live value \<open>look t r key\<close> of a key.
\<close>

section \<open>The client\<close>

record 'r redis_client =
  Incr :: "instant \<Rightarrow> string \<Rightarrow> 'r \<Rightarrow> (error + int) \<times> 'r"
  Expire :: "instant \<Rightarrow> string \<Rightarrow> duration \<Rightarrow> 'r \<Rightarrow> error option \<times> 'r"
  Get :: "instant \<Rightarrow> string \<Rightarrow> 'r \<Rightarrow> (error + string option) \<times> 'r"
  Del :: "instant \<Rightarrow> string \<Rightarrow> 'r \<Rightarrow> error option \<times> 'r"
  SetNX :: "instant \<Rightarrow> string \<Rightarrow> string \<Rightarrow> duration \<Rightarrow> 'r \<Rightarrow> (error + bool) \<times> 'r"

text \<open>
  \<open>Get\<close> returning \<open>Inr None\<close> is the error value \<open>redis.Nil\<close>. The behaviour of each command is a
  relation between the states before and after it: a command changes no key but its own; INCR
  adds one to an integer value, counting a missing key as 0, and fails on overflow; EXPIRE keeps
  the value until the given time has passed; GET reads; DEL removes; SET NX writes exactly when
  the key is missing, with the expiry it is given, where 0 means none, and never replaces a live
  value.
\<close>

type_synonym 'r look = "instant \<Rightarrow> 'r \<Rightarrow> string \<Rightarrow> string option"

definition only_key :: "'r look \<Rightarrow> instant \<Rightarrow> string \<Rightarrow> 'r \<Rightarrow> 'r \<Rightarrow> bool" where
  "only_key look t k r r' \<longleftrightarrow> (\<forall>t' k'. t \<le> t' \<longrightarrow> k' \<noteq> k \<longrightarrow> look t' r' k' = look t' r k')"

definition incr_effect :: "'r look \<Rightarrow> instant \<Rightarrow> string \<Rightarrow> 'r \<Rightarrow> error + int \<Rightarrow> 'r \<Rightarrow> bool" where
  "incr_effect look t k r res r' \<longleftrightarrow>
     only_key look t k r r' \<and>
     (\<forall>n. res = Inr n \<longrightarrow> in_int64 n \<and> look t r' k = Some (itoa n) \<and>
        (case look t r k of None \<Rightarrow> n = 1 | Some v \<Rightarrow> atoi v = Inr (n - 1)))"

definition expire_effect :: "'r look \<Rightarrow> instant \<Rightarrow> string \<Rightarrow> duration \<Rightarrow> 'r \<Rightarrow> 'r \<Rightarrow> bool" where
  "expire_effect look t k d r r' \<longleftrightarrow>
     only_key look t k r r' \<and> (0 < d \<longrightarrow> look t r' k = look t r k)"

definition get_effect ::
    "'r look \<Rightarrow> instant \<Rightarrow> string \<Rightarrow> 'r \<Rightarrow> error + string option \<Rightarrow> 'r \<Rightarrow> bool" where
  "get_effect look t k r res r' \<longleftrightarrow>
     (\<forall>t' k'. t \<le> t' \<longrightarrow> look t' r' k' = look t' r k') \<and>
     (\<forall>v. res = Inr v \<longrightarrow> v = look t r k)"

definition del_effect :: "'r look \<Rightarrow> instant \<Rightarrow> string \<Rightarrow> 'r \<Rightarrow> error option \<Rightarrow> 'r \<Rightarrow> bool" where
  "del_effect look t k r res r' \<longleftrightarrow>
     only_key look t k r r' \<and> (res = None \<longrightarrow> (\<forall>t' \<ge> t. look t' r' k = None))"

definition setnx_effect ::
    "'r look \<Rightarrow> instant \<Rightarrow> string \<Rightarrow> string \<Rightarrow> duration \<Rightarrow> 'r \<Rightarrow> error + bool \<Rightarrow> 'r \<Rightarrow> bool" where
  "setnx_effect look t k v d r res r' \<longleftrightarrow>
     only_key look t k r r' \<and>
     (\<forall>b. res = Inr b \<longrightarrow> b = (look t r k = None)) \<and>
     (res = Inr True \<longrightarrow>
        (\<forall>t' \<ge> t. d = 0 \<or> t' < t + d \<longrightarrow> look t' r' k = Some v) \<and>
        (0 < d \<longrightarrow> (\<forall>t' \<ge> t + d. look t' r' k = None))) \<and>
     (\<forall>t' \<ge> t. look t' r k \<noteq> None \<longrightarrow> look t' r' k = look t' r k)"

definition redis_behaves :: "'r redis_client \<Rightarrow> 'r look \<Rightarrow> bool" where
  "redis_behaves c look \<longleftrightarrow>
     (\<forall>t k r res r'. Incr c t k r = (res, r') \<longrightarrow> incr_effect look t k r res r') \<and>
     (\<forall>t k d r res r'. Expire c t k d r = (res, r') \<longrightarrow> expire_effect look t k d r r') \<and>
     (\<forall>t k r res r'. Get c t k r = (res, r') \<longrightarrow> get_effect look t k r res r') \<and>
     (\<forall>t k r res r'. Del c t k r = (res, r') \<longrightarrow> del_effect look t k r res r') \<and>
     (\<forall>t k v d r res r'. SetNX c t k v d r = (res, r') \<longrightarrow> setnx_effect look t k v d r res r')"

section \<open>The store\<close>

definition count_key :: "string \<Rightarrow> string" where
  "count_key machineID = ''alert:cpu:count:'' @ machineID"

definition cooldown_key :: "string \<Rightarrow> string" where
  "cooldown_key machineID = ''alert:cpu:cooldown:'' @ machineID"

definition redis_IncrementCPUBreach ::
    "'r redis_client \<Rightarrow> instant \<Rightarrow> string \<Rightarrow> 'r \<Rightarrow> (error + int) \<times> 'r" where
  "redis_IncrementCPUBreach c now machineID r =
     (let key = count_key machineID in
      case Incr c now key r of
        (Inl err, r1) \<Rightarrow> (Inl err, r1)
      | (Inr count, r1) \<Rightarrow> (Inr count, snd (Expire c now key (3600 * nanos_per_second) r1)))"

definition redis_GetCPUBreachCount ::
    "'r redis_client \<Rightarrow> instant \<Rightarrow> string \<Rightarrow> 'r \<Rightarrow> (error + int) \<times> 'r" where
  "redis_GetCPUBreachCount c now machineID r =
     (case Get c now (count_key machineID) r of
        (Inr None, r1) \<Rightarrow> (Inr 0, r1)
      | (Inl err, r1) \<Rightarrow> (Inl err, r1)
      | (Inr (Some v), r1) \<Rightarrow> (atoi v, r1))"

definition redis_ResetCPUBreach ::
    "'r redis_client \<Rightarrow> instant \<Rightarrow> string \<Rightarrow> 'r \<Rightarrow> error option \<times> 'r" where
  "redis_ResetCPUBreach c now machineID r = Del c now (count_key machineID) r"

definition redis_TryAcquireCooldown ::
    "'r redis_client \<Rightarrow> instant \<Rightarrow> string \<Rightarrow> duration \<Rightarrow> 'r \<Rightarrow> (error + bool) \<times> 'r" where
  "redis_TryAcquireCooldown c now machineID ttl r =
     (case SetNX c now (cooldown_key machineID) ''1'' ttl r of
        (Inl err, r1) \<Rightarrow> (Inl err, r1)
      | (Inr ok, r1) \<Rightarrow> (Inr ok, r1))"

definition redis_store :: "'r redis_client \<Rightarrow> 'r store_ops" where
  "redis_store c =
     \<lparr>IncrementCPUBreach = redis_IncrementCPUBreach c,
      GetCPUBreachCount = redis_GetCPUBreachCount c,
      ResetCPUBreach = redis_ResetCPUBreach c,
      TryAcquireCooldown = redis_TryAcquireCooldown c\<rparr>"

definition redis_count ::
    "'r look \<Rightarrow> instant \<Rightarrow> 'r \<Rightarrow> string \<Rightarrow> int" where
  "redis_count look t r machineID =
     (case look t r (count_key machineID) of
        None \<Rightarrow> 0
      | Some v \<Rightarrow> (case atoi v of Inl _ \<Rightarrow> 0 | Inr n \<Rightarrow> n))"

definition redis_cooling ::
    "'r look \<Rightarrow> instant \<Rightarrow> 'r \<Rightarrow> string \<Rightarrow> bool" where
  "redis_cooling look t r machineID \<longleftrightarrow> look t r (cooldown_key machineID) \<noteq> None"

lemma redis_store_simps [simp]:
  "IncrementCPUBreach (redis_store c) = redis_IncrementCPUBreach c"
  "GetCPUBreachCount (redis_store c) = redis_GetCPUBreachCount c"
  "ResetCPUBreach (redis_store c) = redis_ResetCPUBreach c"
  "TryAcquireCooldown (redis_store c) = redis_TryAcquireCooldown c"
  by (simp_all add: redis_store_def)

text \<open>The counters and the cooldowns of all machines live under pairwise different keys.\<close>

lemma count_cooldown_distinct [simp]:
  "count_key m \<noteq> cooldown_key m'" "cooldown_key m' \<noteq> count_key m"
  by (simp_all add: count_key_def cooldown_key_def)

lemma key_inject [simp]:
  "count_key m = count_key m' \<longleftrightarrow> m = m'" "cooldown_key m = cooldown_key m' \<longleftrightarrow> m = m'"
  by (simp_all add: count_key_def cooldown_key_def)

subsection \<open>The commands, one by one\<close>

lemma redis_effects:
  assumes "redis_behaves c look"
  shows "Incr c t k r = (res, r') \<Longrightarrow> incr_effect look t k r res r'"
    and "Expire c t k d r = (e, r') \<Longrightarrow> expire_effect look t k d r r'"
    and "Get c t k r = (got, r') \<Longrightarrow> get_effect look t k r got r'"
    and "Del c t k r = (e, r') \<Longrightarrow> del_effect look t k r e r'"
    and "SetNX c t k v d r = (acq, r') \<Longrightarrow> setnx_effect look t k v d r acq r'"
  using assms by (simp_all add: redis_behaves_def)

lemma redis_IncrD:
  assumes "redis_behaves c look" and "Incr c t k r = (res, r')"
  shows "res = Inr n \<Longrightarrow> in_int64 n \<and> look t r' k = Some (itoa n) \<and>
           (case look t r k of None \<Rightarrow> n = 1 | Some v \<Rightarrow> atoi v = Inr (n - 1))"
    and "t \<le> t' \<Longrightarrow> k' \<noteq> k \<Longrightarrow> look t' r' k' = look t' r k'"
  using redis_effects(1) [OF assms] by (simp_all add: incr_effect_def only_key_def)

lemma redis_ExpireD:
  assumes "redis_behaves c look" and "Expire c t k d r = (res, r')"
  shows "0 < d \<Longrightarrow> look t r' k = look t r k"
    and "t \<le> t' \<Longrightarrow> k' \<noteq> k \<Longrightarrow> look t' r' k' = look t' r k'"
  using redis_effects(2) [OF assms] by (simp_all add: expire_effect_def only_key_def)

lemma redis_GetD:
  assumes "redis_behaves c look" and "Get c t k r = (res, r')"
  shows "res = Inr v \<Longrightarrow> v = look t r k"
    and "t \<le> t' \<Longrightarrow> look t' r' k' = look t' r k'"
  using redis_effects(3) [OF assms] by (simp_all add: get_effect_def)

lemma redis_DelD:
  assumes "redis_behaves c look" and "Del c t k r = (res, r')"
  shows "res = None \<Longrightarrow> t \<le> t' \<Longrightarrow> look t' r' k = None"
    and "t \<le> t' \<Longrightarrow> k' \<noteq> k \<Longrightarrow> look t' r' k' = look t' r k'"
  using redis_effects(4) [OF assms] by (simp_all add: del_effect_def only_key_def)

lemma redis_SetNXD:
  assumes "redis_behaves c look" and "SetNX c t k v d r = (res, r')"
  shows "res = Inr b \<Longrightarrow> b = (look t r k = None)"
    and "res = Inr True \<Longrightarrow> t \<le> t' \<Longrightarrow> d = 0 \<or> t' < t + d \<Longrightarrow> look t' r' k = Some v"
    and "res = Inr True \<Longrightarrow> 0 < d \<Longrightarrow> t + d \<le> t' \<Longrightarrow> look t' r' k = None"
    and "t \<le> t' \<Longrightarrow> look t' r k \<noteq> None \<Longrightarrow> look t' r' k = look t' r k"
    and "t \<le> t' \<Longrightarrow> k' \<noteq> k \<Longrightarrow> look t' r' k' = look t' r k'"
proof -
  note e = redis_effects(5) [OF assms, unfolded setnx_effect_def]
  show "res = Inr b \<Longrightarrow> b = (look t r k = None)"
    and "res = Inr True \<Longrightarrow> t \<le> t' \<Longrightarrow> d = 0 \<or> t' < t + d \<Longrightarrow> look t' r' k = Some v"
    and "res = Inr True \<Longrightarrow> 0 < d \<Longrightarrow> t + d \<le> t' \<Longrightarrow> look t' r' k = None"
    and "t \<le> t' \<Longrightarrow> look t' r k \<noteq> None \<Longrightarrow> look t' r' k = look t' r k"
    using e by blast+
  show "t \<le> t' \<Longrightarrow> k' \<noteq> k \<Longrightarrow> look t' r' k' = look t' r k'"
    using e unfolding only_key_def by blast
qed

lemma redis_IncrementE:
  assumes "redis_IncrementCPUBreach c t m r = (res, r')"
  obtains (err) e where "Incr c t (count_key m) r = (Inl e, r')" "res = Inl e"
  | (ok) n r1 e where "Incr c t (count_key m) r = (Inr n, r1)" "res = Inr n"
      "Expire c t (count_key m) (3600 * nanos_per_second) r1 = (e, r')"
  using assms
  by (cases "Incr c t (count_key m) r"; cases "fst (Incr c t (count_key m) r)";
      cases "Expire c t (count_key m) (3600 * nanos_per_second) (snd (Incr c t (count_key m) r))")
    (auto simp: redis_IncrementCPUBreach_def)

lemma redis_Increment_other:
  assumes "redis_behaves c look" and "redis_IncrementCPUBreach c t m r = (res, r')"
    and "t \<le> t'" and "k \<noteq> count_key m"
  shows "look t' r' k = look t' r k"
  using assms(2)
proof (cases rule: redis_IncrementE)
  case (err e)
  show ?thesis by (rule redis_IncrD(2) [OF assms(1) err(1) assms(3,4)])
next
  case (ok n r1 e)
  with redis_ExpireD(2) [OF assms(1) ok(3) assms(3,4)] redis_IncrD(2) [OF assms(1) ok(1) assms(3,4)]
  show ?thesis by simp
qed

lemma redis_Increment_ok:
  assumes "redis_behaves c look" and "redis_IncrementCPUBreach c t m r = (Inr n, r')"
  shows "n = wrap64 (redis_count look t r m + 1) \<and> redis_count look t r' m = n"
  using assms(2)
proof (cases rule: redis_IncrementE)
  case (ok n' r1 e)
  from redis_IncrD(1) [OF assms(1) ok(1), of n] ok(2)
  have n: "in_int64 n" "look t r1 (count_key m) = Some (itoa n)"
    "case look t r (count_key m) of None \<Rightarrow> n = 1 | Some v \<Rightarrow> atoi v = Inr (n - 1)"
    by auto
  have "look t r' (count_key m) = Some (itoa n)"
    using redis_ExpireD(1) [OF assms(1) ok(3)] n(2) by simp
  with n show ?thesis by (auto simp: redis_count_def split: option.splits)
qed simp

lemma redis_TryAcquire_eq:
  "redis_TryAcquireCooldown c t m ttl r = SetNX c t (cooldown_key m) ''1'' ttl r"
  by (simp add: redis_TryAcquireCooldown_def split: prod.split sum.split)

text \<open>On any client with the documented behaviour, the Redis store keeps the contract.\<close>

lemma redis_alert_store:
  assumes c: "redis_behaves c look"
  shows "alert_store (redis_store c) (redis_count look) (redis_cooling look)"
proof
  fix t t' m m' r r' n res
  assume i: "IncrementCPUBreach (redis_store c) t m r = (res, r')"
  then have i': "redis_IncrementCPUBreach c t m r = (res, r')" by simp
  show "n = wrap64 (redis_count look t r m + 1) \<and> redis_count look t r' m = n"
    if "IncrementCPUBreach (redis_store c) t m r = (Inr n, r')"
    using redis_Increment_ok [OF c] that by simp
  show "redis_count look t' r' m' = redis_count look t' r m'" if "m' \<noteq> m" "t \<le> t'"
    using redis_Increment_other [OF c i' that(2)] that(1) by (simp add: redis_count_def)
  show "redis_cooling look t' r' m' = redis_cooling look t' r m'" if "t \<le> t'"
    using redis_Increment_other [OF c i' that] by (simp add: redis_cooling_def)
next
  fix t t' m m' r r' n res
  assume "GetCPUBreachCount (redis_store c) t m r = (res, r')"
  then obtain v where g: "Get c t (count_key m) r = (v, r')"
    and "res = (case v of Inl e \<Rightarrow> Inl e | Inr None \<Rightarrow> Inr 0 | Inr (Some w) \<Rightarrow> atoi w)"
    by (auto simp: redis_GetCPUBreachCount_def split: prod.splits sum.splits option.splits)
  then show "n = redis_count look t r m"
    if "GetCPUBreachCount (redis_store c) t m r = (Inr n, r')"
    using redis_GetD(1) [OF c g] that
    by (auto simp: redis_GetCPUBreachCount_def redis_count_def
        split: sum.splits option.splits)
  show "redis_count look t' r' m' = redis_count look t' r m'" if "t \<le> t'"
    using redis_GetD(2) [OF c g that] by (simp add: redis_count_def)
  show "redis_cooling look t' r' m' = redis_cooling look t' r m'" if "t \<le> t'"
    using redis_GetD(2) [OF c g that] by (simp add: redis_cooling_def)
next
  fix t t' m m' r r' res
  assume "ResetCPUBreach (redis_store c) t m r = (res, r')"
  then have d: "Del c t (count_key m) r = (res, r')" by (simp add: redis_ResetCPUBreach_def)
  show "redis_count look t' r' m = 0"
    if "ResetCPUBreach (redis_store c) t m r = (None, r')" "t \<le> t'"
    using redis_DelD(1) [OF c, of t "count_key m" r None r' t'] that
    by (simp add: redis_count_def redis_ResetCPUBreach_def)
  show "redis_count look t' r' m' = redis_count look t' r m'" if "m' \<noteq> m" "t \<le> t'"
    using redis_DelD(2) [OF c d that(2)] that(1) by (simp add: redis_count_def)
  show "redis_cooling look t' r' m' = redis_cooling look t' r m'" if "t \<le> t'"
    using redis_DelD(2) [OF c d that] by (simp add: redis_cooling_def)
next
  fix t t' m m' ttl r r' b res
  assume "TryAcquireCooldown (redis_store c) t m ttl r = (res, r')"
  then have x: "SetNX c t (cooldown_key m) ''1'' ttl r = (res, r')"
    by (simp add: redis_TryAcquire_eq)
  show "b = (\<not> redis_cooling look t r m)"
    if "TryAcquireCooldown (redis_store c) t m ttl r = (Inr b, r')"
    using redis_SetNXD(1) [OF c, of t _ _ _ r _ r'] that
    by (simp add: redis_cooling_def redis_TryAcquire_eq)
  show "redis_cooling look t' r' m"
    if "TryAcquireCooldown (redis_store c) t m ttl r = (Inr True, r')" "0 < ttl" "t \<le> t'" "t' < t + ttl"
    using redis_SetNXD(2) [OF c, of t _ _ ttl r _ r' t'] that
    by (auto simp: redis_cooling_def redis_TryAcquire_eq)
  show "redis_cooling look t' r' m" if "t \<le> t'" "redis_cooling look t' r m"
    using redis_SetNXD(4) [OF c x that(1)] that(2) by (auto simp: redis_cooling_def)
  show "redis_cooling look t' r' m' = redis_cooling look t' r m'" if "m' \<noteq> m" "t \<le> t'"
    using redis_SetNXD(5) [OF c x that(2)] that(1) by (simp add: redis_cooling_def)
  show "redis_count look t' r' m' = redis_count look t' r m'" if "t \<le> t'"
    using redis_SetNXD(5) [OF c x that] by (simp add: redis_count_def)
qed

section \<open>A reference client\<close>

text \<open>
  A client with the documented behaviour, which shows that \<open>redis_behaves\<close> can hold: a key has a
  value and an optional expiry.
\<close>

type_synonym ref_redis = "string \<Rightarrow> (string \<times> instant option) option"

fun ref_live :: "instant \<Rightarrow> (string \<times> instant option) option \<Rightarrow> string option" where
  "ref_live t None = None"
| "ref_live t (Some (v, None)) = Some v"
| "ref_live t (Some (v, Some e)) = (if t < e then Some v else None)"

definition ref_look :: "instant \<Rightarrow> ref_redis \<Rightarrow> string \<Rightarrow> string option" where
  "ref_look t r k = ref_live t (r k)"

definition ref_incr :: "instant \<Rightarrow> string \<Rightarrow> ref_redis \<Rightarrow> (error + int) \<times> ref_redis" where
  "ref_incr t k r =
     (case ref_look t r k of
        None \<Rightarrow> (Inr 1, r(k \<mapsto> (itoa 1, None)))
      | Some v \<Rightarrow>
          (case atoi v of
             Inl e \<Rightarrow> (Inl e, r)
           | Inr n \<Rightarrow>
               if in_int64 (n + 1) then (Inr (n + 1), r(k \<mapsto> (itoa (n + 1), snd (the (r k)))))
               else (Inl ''increment or decrement would overflow'', r)))"

definition ref_client :: "ref_redis redis_client" where
  "ref_client =
     \<lparr>Incr = ref_incr,
      Expire = (\<lambda>t k d r. case ref_look t r k of
         None \<Rightarrow> (None, r) | Some v \<Rightarrow> (None, r(k \<mapsto> (v, Some (t + d))))),
      Get = (\<lambda>t k r. (Inr (ref_look t r k), r)),
      Del = (\<lambda>t k r. (None, r(k := None))),
      SetNX = (\<lambda>t k v d r. case ref_look t r k of
         None \<Rightarrow> (Inr True, r(k \<mapsto> (v, if d = 0 then None else Some (t + d))))
       | Some _ \<Rightarrow> (Inr False, r))\<rparr>"

lemma ref_look_upd [simp]:
  "ref_look t (r(k := x)) k' = (if k' = k then ref_live t x else ref_look t r k')"
  by (simp add: ref_look_def)

lemma ref_live_keep: "ref_live t x = Some v \<Longrightarrow> ref_live t (Some (w, snd (the x))) = Some w"
  by (cases "(t, x)" rule: ref_live.cases) (auto split: if_splits)

lemma ref_look_gone: "ref_look t r k = None \<Longrightarrow> t \<le> t' \<Longrightarrow> ref_look t' r k = None"
  unfolding ref_look_def by (cases "(t, r k)" rule: ref_live.cases) (auto split: if_splits)

lemma ref_incr_effect: "ref_incr t k r = (res, r') \<Longrightarrow> incr_effect ref_look t k r res r'"
  using ref_live_keep [of t "r k"]
  by (cases "ref_look t r k")
    (auto simp: ref_incr_def incr_effect_def only_key_def ref_look_def [of t r k]
      in_int64_def [of 1] split: sum.splits if_splits)

lemma ref_client_behaves: "redis_behaves ref_client ref_look"
  unfolding redis_behaves_def
proof (intro conjI allI impI)
  show "incr_effect ref_look t k r res r'" if "Incr ref_client t k r = (res, r')" for t k r res r'
    using that by (simp add: ref_client_def ref_incr_effect)
  show "expire_effect ref_look t k d r r'" if "Expire ref_client t k d r = (res, r')"
    for t k d r res r'
    using that
    by (cases "ref_look t r k") (auto simp: ref_client_def expire_effect_def only_key_def)
  show "get_effect ref_look t k r res r'" if "Get ref_client t k r = (res, r')" for t k r res r'
    using that by (auto simp: ref_client_def get_effect_def)
  show "del_effect ref_look t k r res r'" if "Del ref_client t k r = (res, r')" for t k r res r'
    using that by (auto simp: ref_client_def del_effect_def only_key_def)
  show "setnx_effect ref_look t k v d r res r'" if "SetNX ref_client t k v d r = (res, r')"
    for t k v d r res r'
    using that
    by (cases "ref_look t r k") (auto simp: ref_client_def setnx_effect_def only_key_def
        ref_look_gone split: if_splits)
qed

text \<open>
  C12. Cooldown exclusivity of the Redis store, on any client with the documented behaviour of
  Redis and whatever calls fail: two grants for one machine are at least one cooldown apart.
\<close>

theorem redis_cooldown_exclusive:
  assumes "redis_behaves c look"
    and "sorted (map fst cs)" and "uniform_ttl k d cs" and "0 < d"
  shows "sorted_wrt (\<lambda>g g'. g + d \<le> g') (grants (redis_store c) k cs r)"
  using assms(2-4) by (rule alert_store.grants_spaced [OF redis_alert_store [OF assms(1)]])

theorem redis_cooldown_exclusive_witness:
  "redis_behaves ref_client ref_look \<and>
   grants (redis_store ref_client) ''a''
     [(0, Call_Acquire ''a'' 60), (9, Call_Acquire ''a'' 60), (60, Call_Acquire ''a'' 60)]
     (\<lambda>_. None) = [0, 60] \<and>
   sorted_wrt (\<lambda>g g'. g + 60 \<le> g')
     (grants (redis_store ref_client) ''a''
       [(0, Call_Acquire ''a'' 60), (9, Call_Acquire ''a'' 60), (60, Call_Acquire ''a'' 60)]
       (\<lambda>_. None))"
  (is "_ \<and> ?g \<and> _")
proof (intro conjI)
  show ?g
    by (simp add: redis_TryAcquire_eq ref_client_def ref_look_def)
  show "redis_behaves ref_client ref_look" by (rule ref_client_behaves)
qed (rule redis_cooldown_exclusive [OF ref_client_behaves]; simp)

text \<open>
  C37. With a cooldown of 0 the two stores disagree: on Redis the first grant of a machine is also
  the last one, because a key set without expiry is never free again, while the in-memory store
  grants every request.
\<close>

theorem zero_cooldown_stores_disagree:
  assumes "redis_behaves c look"
    and "TryAcquireCooldown (redis_store c) t m 0 r = (Inr True, r')" and "t \<le> t'"
    and "TryAcquireCooldown (redis_store c) t' m 0 r' = (Inr b, r'')"
  shows "\<not> b \<and> (\<forall>s s'. TryAcquireCooldown memory_store t m 0 s = (Inr True, s') \<longrightarrow>
      fst (TryAcquireCooldown memory_store t' m 0 s') = Inr True)"
proof (intro conjI allI impI)
  have "redis_cooling look t' r' m"
    using redis_SetNXD(2) [OF assms(1), of t _ _ 0 r _ r' t'] assms(2,3)
    by (auto simp: redis_cooling_def redis_TryAcquire_eq)
  with alert_store.acquire_ok [OF redis_alert_store [OF assms(1)] assms(4)] show "\<not> b" by simp
  show "fst (TryAcquireCooldown memory_store t' m 0 s') = Inr True"
    if "TryAcquireCooldown memory_store t m 0 s = (Inr True, s')" for s s'
    using that assms(3) by (auto simp: mem_defs Let_def split: option.splits if_splits)
qed

text \<open>Two requests on an empty Redis, and two on an empty store in memory.\<close>

theorem zero_cooldown_stores_disagree_witness:
  "\<exists>r' r'' s' s''. redis_behaves ref_client ref_look \<and>
     TryAcquireCooldown (redis_store ref_client) 1 ''a'' 0 (\<lambda>_. None) = (Inr True, r') \<and>
     TryAcquireCooldown (redis_store ref_client) 9 ''a'' 0 r' = (Inr False, r'') \<and>
     TryAcquireCooldown memory_store 1 ''a'' 0 NewMemoryAlertStateStore = (Inr True, s') \<and>
     TryAcquireCooldown memory_store 9 ''a'' 0 s' = (Inr True, s'')"
proof -
  let ?m = "TryAcquireCooldown (redis_store ref_client)" and ?r = "[cooldown_key ''a'' \<mapsto> (''1'', None)]"
  have first: "?m 1 ''a'' 0 (\<lambda>_. None) = (Inr True, ?r)"
    by (simp add: redis_TryAcquire_eq ref_client_def ref_look_def)
  have "\<not> isl (fst (?m 9 ''a'' 0 ?r))"
    by (simp add: redis_TryAcquire_eq ref_client_def ref_look_def)
  then obtain b r'' where second: "?m 9 ''a'' 0 ?r = (Inr b, r'')"
    by (metis prod.collapse sum.collapse(2))
  obtain s' where mem: "TryAcquireCooldown memory_store 1 ''a'' 0 NewMemoryAlertStateStore = (Inr True, s')"
    by (simp add: mem_defs NewMemoryAlertStateStore_def)
  from zero_cooldown_stores_disagree [OF ref_client_behaves first _ second]
  have no: "b = False" and yes: "fst (TryAcquireCooldown memory_store 9 ''a'' 0 s') = Inr True"
    using mem by auto
  obtain s'' where "TryAcquireCooldown memory_store 9 ''a'' 0 s' = (Inr True, s'')"
    using yes by (metis prod.collapse)
  with first second mem no ref_client_behaves show ?thesis by blast
qed

section \<open>The store the server runs with\<close>

text \<open>
  \<open>initAlertStore\<close> in \<open>main.go\<close>: the in-memory store when it is configured or when Redis does not
  answer the first ping, the Redis store otherwise. The interface value of the program is the
  state tagged with its implementation, and a call goes to the implementation it holds.
\<close>

datatype 'r alert_state = InMemory memory_alert_store | InRedis 'r

text \<open>\<open>NewRedisAlertStateStore\<close>: the connection \<open>conn\<close> is kept if the ping succeeds.\<close>

definition NewRedisAlertStateStore :: "error option \<Rightarrow> 'r \<Rightarrow> error + 'r" where
  "NewRedisAlertStateStore ping conn = (case ping of Some err \<Rightarrow> Inl err | None \<Rightarrow> Inr conn)"

definition initAlertStore :: "app_config \<Rightarrow> error option \<Rightarrow> 'r \<Rightarrow> 'r alert_state" where
  "initAlertStore cfg ping conn =
     (if equal_fold (AlertStoreType cfg) ''memory'' then InMemory NewMemoryAlertStateStore
      else case NewRedisAlertStateStore ping conn of
             Inl err \<Rightarrow> InMemory NewMemoryAlertStateStore
           | Inr r \<Rightarrow> InRedis r)"

definition on_impl ::
    "(memory_alert_store \<Rightarrow> 'a \<times> memory_alert_store) \<Rightarrow> ('r \<Rightarrow> 'a \<times> 'r) \<Rightarrow> 'r alert_state \<Rightarrow>
       'a \<times> 'r alert_state"
where
  "on_impl f g s =
     (case s of
        InMemory m \<Rightarrow> (case f m of (a, m') \<Rightarrow> (a, InMemory m'))
      | InRedis r \<Rightarrow> (case g r of (a, r') \<Rightarrow> (a, InRedis r')))"

definition server_store :: "'r redis_client \<Rightarrow> 'r alert_state store_ops" where
  "server_store c =
     \<lparr>IncrementCPUBreach = (\<lambda>t k. on_impl (mem_IncrementCPUBreach t k) (redis_IncrementCPUBreach c t k)),
      GetCPUBreachCount = (\<lambda>t k. on_impl (mem_GetCPUBreachCount t k) (redis_GetCPUBreachCount c t k)),
      ResetCPUBreach = (\<lambda>t k. on_impl (mem_ResetCPUBreach t k) (redis_ResetCPUBreach c t k)),
      TryAcquireCooldown =
        (\<lambda>t k ttl. on_impl (mem_TryAcquireCooldown t k ttl) (redis_TryAcquireCooldown c t k ttl))\<rparr>"

definition server_count :: "'r look \<Rightarrow> instant \<Rightarrow> 'r alert_state \<Rightarrow> string \<Rightarrow> int" where
  "server_count look t s k =
     (case s of InMemory m \<Rightarrow> mem_count t m k | InRedis r \<Rightarrow> redis_count look t r k)"

definition server_cooling :: "'r look \<Rightarrow> instant \<Rightarrow> 'r alert_state \<Rightarrow> string \<Rightarrow> bool" where
  "server_cooling look t s k =
     (case s of InMemory m \<Rightarrow> mem_cooling t m k | InRedis r \<Rightarrow> redis_cooling look t r k)"

lemma on_implE:
  assumes "on_impl f g s = (a, s')"
  obtains (mem) m m' where "s = InMemory m" "s' = InMemory m'" "f m = (a, m')"
  | (redis) r r' where "s = InRedis r" "s' = InRedis r'" "g r = (a, r')"
  using assms by (auto simp: on_impl_def split: alert_state.splits prod.splits)

lemma server_store_simps [simp]:
  "IncrementCPUBreach (server_store c) t k = on_impl (mem_IncrementCPUBreach t k) (redis_IncrementCPUBreach c t k)"
  "GetCPUBreachCount (server_store c) t k = on_impl (mem_GetCPUBreachCount t k) (redis_GetCPUBreachCount c t k)"
  "ResetCPUBreach (server_store c) t k = on_impl (mem_ResetCPUBreach t k) (redis_ResetCPUBreach c t k)"
  "TryAcquireCooldown (server_store c) t k ttl =
     on_impl (mem_TryAcquireCooldown t k ttl) (redis_TryAcquireCooldown c t k ttl)"
  by (simp_all add: server_store_def)

text \<open>The contract is kept by whichever implementation was chosen.\<close>

lemma server_alert_store:
  assumes c: "redis_behaves c look"
  shows "alert_store (server_store c) (server_count look) (server_cooling look)"
proof -
  note r = alert_store.store_laws [OF redis_alert_store [OF c], simplified]
  note m = mem.store_laws [simplified]
  show ?thesis
    by unfold_locales
      (simp, erule on_implE; auto simp: server_count_def server_cooling_def dest: r m)+
qed

end
