(* ===== verification/Alert_Eval.thy ===== *)
theory Alert_Eval
  imports Notifier Redis_Store
begin

text \<open>
  The evaluation of a sample (\<open>evaluateCPUAlert\<close> in \<open>main.go\<close>): count breaches, raise a P0 alert
  when the count reaches the trigger and the cooldown is free, report a recovery when a counted
  machine is back below the threshold.

  \<open>clk\<close> gives the instants of the steps of one evaluation: \<open>clk 0\<close> and \<open>clk 1\<close> are those of its two
  store calls, \<open>clk 2\<close> the one stamped on the event. The abstract machine at the end of the theory
  is the specification the evaluation refines.
\<close>

section \<open>The evaluation\<close>

definition p0_event :: "app_config \<Rightarrow> metrics_payload \<Rightarrow> instant \<Rightarrow> alert_event" where
  "p0_event cfg m now =
     \<lparr>ev_Level = ''P0'', ev_MachineID = MachineID m, ev_IP = IP m, ev_CurrentCPU = CPUUsage m,
      ev_ThresholdCPU = CPUAlertThreshold cfg, ev_TriggerCount = AlertTriggerCount cfg,
      ev_CooldownSec = AlertCooldownSeconds cfg, ev_TriggeredAt = now,
      ev_SourceService = ''cloud-ops-monitor''\<rparr>"

definition p0_record ::
    "app_config \<Rightarrow> metrics_payload \<Rightarrow> alert_event \<Rightarrow> string \<Rightarrow> string \<Rightarrow> alert_event_record" where
  "p0_record cfg m event notifyStatus notifyError =
     \<lparr>rec_ID = 0, rec_MachineID = MachineID m, rec_IP = IP m, rec_Level = ev_Level event,
      rec_Metric = ''cpu_usage'', rec_ThresholdValue = CPUAlertThreshold cfg,
      rec_CurrentValue = CPUUsage m, rec_TriggerCount = AlertTriggerCount cfg,
      rec_CooldownSec = AlertCooldownSeconds cfg, rec_NotifyStatus = notifyStatus,
      rec_NotifyError = notifyError, rec_TriggeredAt = ev_TriggeredAt event, rec_CreatedAt = 0\<rparr>"

definition recovery_event :: "app_config \<Rightarrow> metrics_payload \<Rightarrow> int \<Rightarrow> instant \<Rightarrow> alert_event" where
  "recovery_event cfg m prevCount now =
     \<lparr>ev_Level = ''RECOVERY'', ev_MachineID = MachineID m, ev_IP = IP m,
      ev_CurrentCPU = CPUUsage m, ev_ThresholdCPU = CPUAlertThreshold cfg,
      ev_TriggerCount = prevCount, ev_CooldownSec = AlertCooldownSeconds cfg,
      ev_TriggeredAt = now, ev_SourceService = ''cloud-ops-monitor''\<rparr>"

definition recovery_record ::
    "app_config \<Rightarrow> metrics_payload \<Rightarrow> int \<Rightarrow> alert_event \<Rightarrow> alert_event_record" where
  "recovery_record cfg m prevCount event =
     \<lparr>rec_ID = 0, rec_MachineID = MachineID m, rec_IP = IP m, rec_Level = ''RECOVERY'',
      rec_Metric = ''cpu_usage'', rec_ThresholdValue = CPUAlertThreshold cfg,
      rec_CurrentValue = CPUUsage m, rec_TriggerCount = prevCount,
      rec_CooldownSec = AlertCooldownSeconds cfg, rec_NotifyStatus = ''sent'',
      rec_NotifyError = [], rec_TriggeredAt = ev_TriggeredAt event, rec_CreatedAt = 0\<rparr>"

text \<open>The branch taken once the cooldown is acquired.\<close>

definition raise_alert ::
    "services \<Rightarrow> 's notifier_ops \<Rightarrow> app_config \<Rightarrow> metrics_payload \<Rightarrow> instant \<Rightarrow> 's server \<Rightarrow> 's server"
where
  "raise_alert sv nt cfg m now w =
     (let event = p0_event cfg m now in
      case NotifyCPUAlert nt event w of
        (Some notifyErr, w1) \<Rightarrow>
          (let w2 = inc serverAlertNotificationsTotal [ev_Level event, ''failed''] w1 in
           snd (saveAlertEventObserved sv (p0_record cfg m event ''failed'' notifyErr) w2))
      | (None, w1) \<Rightarrow>
          (let w2 = inc serverAlertNotificationsTotal [ev_Level event, ''sent''] w1 in
           snd (saveAlertEventObserved sv (p0_record cfg m event ''sent'' []) w2)))"

text \<open>The branch of a sample above the threshold.\<close>

definition evaluate_breach ::
    "services \<Rightarrow> 's store_ops \<Rightarrow> 's notifier_ops \<Rightarrow> app_config \<Rightarrow> (nat \<Rightarrow> instant) \<Rightarrow>
       metrics_payload \<Rightarrow> 's server \<Rightarrow> 's server"
where
  "evaluate_breach sv st nt cfg clk m w =
     (case with_store (IncrementCPUBreach st (clk 0) (MachineID m)) w of
        (Inl err, w1) \<Rightarrow> w1
      | (Inr count, w1) \<Rightarrow>
          if count \<ge> AlertTriggerCount cfg then
            (let cooldown = seconds (AlertCooldownSeconds cfg) in
             case with_store (TryAcquireCooldown st (clk 1) (MachineID m) cooldown) w1 of
               (Inl err, w2) \<Rightarrow> w2
             | (Inr acquired, w2) \<Rightarrow> if acquired then raise_alert sv nt cfg m (clk 2) w2 else w2)
          else w1)"

text \<open>The branch of a sample at or below the threshold, or not comparable with it.\<close>

definition evaluate_normal ::
    "services \<Rightarrow> 's store_ops \<Rightarrow> 's notifier_ops \<Rightarrow> app_config \<Rightarrow> (nat \<Rightarrow> instant) \<Rightarrow>
       metrics_payload \<Rightarrow> 's server \<Rightarrow> 's server"
where
  "evaluate_normal sv st nt cfg clk m w =
     (case with_store (GetCPUBreachCount st (clk 0) (MachineID m)) w of
        (Inl err, w1) \<Rightarrow> w1
      | (Inr prevCount, w1) \<Rightarrow>
          (case with_store (ResetCPUBreach st (clk 1) (MachineID m)) w1 of
             (Some err, w2) \<Rightarrow> w2
           | (None, w2) \<Rightarrow>
               if prevCount > 0 then
                 (let event = recovery_event cfg m prevCount (clk 2);
                      w3 = snd (NotifyCPURecovery nt event w2)
                  in snd (saveAlertEventObserved sv (recovery_record cfg m prevCount event) w3))
               else w2))"

definition evaluateCPUAlert ::
    "services \<Rightarrow> 's store_ops \<Rightarrow> 's notifier_ops \<Rightarrow> app_config \<Rightarrow> (nat \<Rightarrow> instant) \<Rightarrow>
       metrics_payload \<Rightarrow> 's server \<Rightarrow> 's server"
where
  "evaluateCPUAlert sv st nt cfg clk m w =
     (if f64_gt (CPUUsage m) (CPUAlertThreshold cfg)
      then evaluate_breach sv st nt cfg clk m w
      else evaluate_normal sv st nt cfg clk m w)"

text \<open>A sequence of samples, each evaluated at its own instants.\<close>

fun eval_run ::
    "services \<Rightarrow> 's store_ops \<Rightarrow> 's notifier_ops \<Rightarrow> app_config \<Rightarrow>
       ((nat \<Rightarrow> instant) \<times> metrics_payload) list \<Rightarrow> 's server \<Rightarrow> 's server"
where
  "eval_run sv st nt cfg [] w = w"
| "eval_run sv st nt cfg ((clk, m) # ms) w =
     eval_run sv st nt cfg ms (evaluateCPUAlert sv st nt cfg clk m w)"

lemmas eval_defs =
  evaluateCPUAlert_def evaluate_breach_def evaluate_normal_def with_store_def

abbreviation breaches :: "app_config \<Rightarrow> metrics_payload \<Rightarrow> bool" where
  "breaches cfg m \<equiv> f64_gt (CPUUsage m) (CPUAlertThreshold cfg)"

section \<open>An evaluation is a few store calls\<close>

definition eval_calls ::
    "'s store_ops \<Rightarrow> app_config \<Rightarrow> (nat \<Rightarrow> instant) \<Rightarrow> metrics_payload \<Rightarrow> 's \<Rightarrow>
       (instant \<times> store_call) list"
where
  "eval_calls st cfg clk m s =
     (if breaches cfg m then
        (clk 0, Call_Increment (MachineID m)) #
          (case IncrementCPUBreach st (clk 0) (MachineID m) s of
             (Inr n, _) \<Rightarrow>
               if AlertTriggerCount cfg \<le> n
               then [(clk 1, Call_Acquire (MachineID m) (seconds (AlertCooldownSeconds cfg)))]
               else []
           | (Inl _, _) \<Rightarrow> [])
      else
        (clk 0, Call_Get (MachineID m)) #
          (case GetCPUBreachCount st (clk 0) (MachineID m) s of
             (Inr _, _) \<Rightarrow> [(clk 1, Call_Reset (MachineID m))]
           | (Inl _, _) \<Rightarrow> []))"

definition is_p0 :: "string \<Rightarrow> alert_event_record \<Rightarrow> bool" where
  "is_p0 k r \<longleftrightarrow> rec_Level r = ''P0'' \<and> rec_MachineID r = k"

definition p0_count :: "string \<Rightarrow> 's server \<Rightarrow> nat" where
  "p0_count k w = count_where (is_p0 k) (saved_events (trace w))"

context notifier_contract
begin

lemma raise_alert_simps [simp]:
  "store (raise_alert sv ops cfg m now w) = store w"
  by (auto simp: raise_alert_def Let_def split: prod.split option.split
      dest!: alert_frame simp: only_sends_def)

lemma raise_alert_saved:
  "\<exists>st err. saved_events (trace (raise_alert sv ops cfg m now w)) =
      saved_events (trace w) @ [p0_record cfg m (p0_event cfg m now) st err] \<and>
      (st, err) = (case fst (NotifyCPUAlert ops (p0_event cfg m now) w) of
         None \<Rightarrow> (''sent'', []) | Some e \<Rightarrow> (''failed'', e))"
proof -
  obtain r w1 where n: "NotifyCPUAlert ops (p0_event cfg m now) w = (r, w1)"
    by (cases "NotifyCPUAlert ops (p0_event cfg m now) w")
  have "saved_events (trace w1) = saved_events (trace w)"
    using notify_saved(1) [of "p0_event cfg m now" w] n by simp
  with n show ?thesis by (cases r) (simp_all add: raise_alert_def Let_def)
qed

lemma store_evaluate:
  "store (evaluateCPUAlert sv st ops cfg clk m w) =
     run_calls st (eval_calls st cfg clk m (store w)) (store w)"
  by (auto simp: eval_defs eval_calls_def Let_def split: prod.split sum.split option.split)

lemma p0_count_evaluate:
  "p0_count k (evaluateCPUAlert sv st ops cfg clk m w) =
     p0_count k w + length (grants st k (eval_calls st cfg clk m (store w)) (store w))"
proof (cases "breaches cfg m")
  case True
  have raise: "p0_count k (raise_alert sv ops cfg m now v) =
      (if MachineID m = k then Suc (p0_count k v) else p0_count k v)" for now v
    using raise_alert_saved [of sv cfg m now v]
    by (auto simp: p0_count_def is_p0_def p0_record_def p0_event_def)
  have upd: "p0_count k (w\<lparr>store := s\<rparr>) = p0_count k w" for s
    by (simp add: p0_count_def)
  from True show ?thesis
    by (auto simp: eval_defs eval_calls_def Let_def raise upd split: prod.split sum.split)
next
  case False
  have upd: "p0_count k (v\<lparr>store := s\<rparr>) = p0_count k v" for s and v :: "'s server"
    by (simp add: p0_count_def)
  have rec: "p0_count k (snd (saveAlertEventObserved sv (recovery_record cfg m n e) v)) = p0_count k v"
    for n e and v :: "'s server"
    by (simp add: p0_count_def is_p0_def recovery_record_def)
  have notify: "p0_count k (snd (NotifyCPURecovery ops e v)) = p0_count k v" for e v
    by (simp add: p0_count_def)
  from False show ?thesis
    by (auto simp: eval_defs eval_calls_def Let_def upd rec notify split: prod.split sum.split option.split)
qed

end

section \<open>At most one P0 alert per cooldown\<close>

text \<open>The instants of the store calls a sequence of samples may make.\<close>

definition instants :: "((nat \<Rightarrow> instant) \<times> 'a) list \<Rightarrow> instant list" where
  "instants ms = concat (map (\<lambda>(clk, m). [clk 0, clk 1]) ms)"

lemma instants_simps [simp]:
  "instants [] = []" "instants ((clk, m) # ms) = clk 0 # clk 1 # instants ms"
  by (simp_all add: instants_def)

fun eval_run_calls ::
    "'s store_ops \<Rightarrow> app_config \<Rightarrow> ((nat \<Rightarrow> instant) \<times> metrics_payload) list \<Rightarrow> 's \<Rightarrow>
       (instant \<times> store_call) list"
where
  "eval_run_calls st cfg [] s = []"
| "eval_run_calls st cfg ((clk, m) # ms) s =
     (let cs = eval_calls st cfg clk m s
      in cs @ eval_run_calls st cfg ms (run_calls st cs s))"

lemma eval_calls_times: "subseq (map fst (eval_calls st cfg clk m s)) [clk 0, clk 1]"
  by (auto simp: eval_calls_def split: prod.split sum.split)

lemma eval_run_calls_times: "subseq (map fst (eval_run_calls st cfg ms s)) (instants ms)"
proof (induction ms arbitrary: s)
  case (Cons cm ms)
  obtain clk m where cm: "cm = (clk, m)" by (cases cm)
  let ?cs = "eval_calls st cfg clk m s"
  have "subseq (map fst ?cs @ map fst (eval_run_calls st cfg ms (run_calls st ?cs s)))
      ([clk 0, clk 1] @ instants ms)"
    by (rule list_emb_append_mono [OF eval_calls_times Cons.IH])
  with cm show ?case by (simp add: Let_def)
qed simp

lemma uniform_ttl_eval_calls:
  "uniform_ttl k (seconds (AlertCooldownSeconds cfg)) (eval_calls st cfg clk m s)"
  by (auto simp: eval_calls_def split: prod.split sum.split)

lemma uniform_ttl_eval_run_calls:
  "uniform_ttl k (seconds (AlertCooldownSeconds cfg)) (eval_run_calls st cfg ms s)"
  by (induction ms arbitrary: s) (auto simp: Let_def uniform_ttl_eval_calls)

text \<open>A store and a notifier that keep their contracts.\<close>

locale alert_engine = alert_store st count cooling + notifier_contract nt
  for st :: "'s store_ops" and count and cooling and nt :: "'s notifier_ops"
begin

lemma store_eval_run:
  "store (eval_run sv st nt cfg ms w) = run_calls st (eval_run_calls st cfg ms (store w)) (store w)"
  by (induction ms arbitrary: w) (auto simp: Let_def store_evaluate)

lemma p0_count_eval_run:
  "p0_count k (eval_run sv st nt cfg ms w) =
     p0_count k w + length (grants st k (eval_run_calls st cfg ms (store w)) (store w))"
  by (induction ms arbitrary: w) (auto simp: Let_def store_evaluate p0_count_evaluate)

lemma p0_window:
  assumes "sorted (instants ms)" and d: "d = seconds (AlertCooldownSeconds cfg)" "0 < d"
    and "\<forall>t \<in> set (instants ms). lo \<le> t \<and> t < lo + d"
  shows "p0_count k (eval_run sv st nt cfg ms w) \<le> Suc (p0_count k w)"
proof -
  let ?cs = "eval_run_calls st cfg ms (store w)"
  have sub: "subseq (map fst ?cs) (instants ms)" by (rule eval_run_calls_times)
  have "\<forall>(t, c) \<in> set ?cs. lo \<le> t \<and> t < lo + d"
  proof (intro ballI, clarify)
    fix t c assume "(t, c) \<in> set ?cs"
    then have "t \<in> set (map fst ?cs)" by force
    with subseq_set [OF sub] assms(4) show "lo \<le> t \<and> t < lo + d" by blast
  qed
  moreover have "sorted (map fst ?cs)" using sub assms(1) by (rule sorted_subseq)
  ultimately have "length (grants st k ?cs (store w)) \<le> 1"
    using d uniform_ttl_eval_run_calls by (intro at_most_one_grant) auto
  then show ?thesis by (simp add: p0_count_eval_run)
qed

end

interpretation mem_engine: alert_engine memory_store mem_count mem_cooling "notifier_of sv n" for sv n
  by unfold_locales

lemma server_engine:
  assumes "redis_behaves c look"
  shows "alert_engine (server_store c) (server_count look) (server_cooling look) (notifier_of sv n)"
  using server_alert_store [OF assms] configured.notifier_contract_axioms
  by (simp add: alert_engine_def)

text \<open>
  C1. Whichever store the configuration selects (in memory, or Redis with its documented
  behaviour) and whatever the notifier, the database and failing calls do: evaluating any sequence
  of samples whose store calls lie in a window shorter than the cooldown raises at most one P0
  alert per machine.
\<close>

theorem at_most_one_p0_per_cooldown:
  assumes "redis_behaves c look"
    and "sorted (instants ms)" and "0 < seconds (AlertCooldownSeconds cfg)"
    and "\<forall>t \<in> set (instants ms). lo \<le> t \<and> t < lo + seconds (AlertCooldownSeconds cfg)"
  shows "p0_count k (eval_run sv (server_store c) (notifier_of sv n) cfg ms w) \<le> Suc (p0_count k w)"
  using alert_engine.p0_window [OF server_engine [OF assms(1)] assms(2) refl assms(3,4)] .

abbreviation example_config :: app_config where
  "example_config \<equiv> loadConfig example_floats Map.empty"

text \<open>Samples of one machine, ten seconds apart, starting at \<open>t\<close>.\<close>

definition at_second :: "int \<Rightarrow> nat \<Rightarrow> instant" where
  "at_second t i = t * nanos_per_second + int i"

theorem at_most_one_p0_per_cooldown_witness:
  "p0_count ''a'' (eval_run (example_services 200) (server_store ref_client)
     (notifier_of (example_services 200) NoopNotifier) example_config
     [(at_second 0, example_sample ''a'' 90), (at_second 10, example_sample ''a'' 91),
      (at_second 20, example_sample ''a'' 92), (at_second 30, example_sample ''a'' 93)]
     (start_server (InRedis (\<lambda>_. None)))) \<le> Suc 0"
proof -
  let ?ms = "[(at_second 0, example_sample ''a'' 90), (at_second 10, example_sample ''a'' 91),
      (at_second 20, example_sample ''a'' 92), (at_second 30, example_sample ''a'' 93)]"
  have cd: "seconds (AlertCooldownSeconds example_config) = 60 * nanos_per_second"
    by (simp add: loadConfig_def getEnvAsInt_def seconds_exact)
  have "p0_count ''a'' (start_server (InRedis (\<lambda>_. None)) :: ref_redis alert_state server) = 0"
    by (simp add: p0_count_def start_server_def)
  with at_most_one_p0_per_cooldown [where ms = ?ms and cfg = example_config and lo = 0
      and k = "''a''" and sv = "example_services 200" and n = NoopNotifier
      and w = "start_server (InRedis (\<lambda>_. None))", OF ref_client_behaves]
  show ?thesis by (simp add: cd at_second_def)
qed

section \<open>The specification of an evaluation\<close>

text \<open>
  What the alert logic promises for one machine, without store, notifier or database: from the
  number of consecutive breaches and the end of the cooldown it decides to stay quiet, to raise a
  P0 alert, or to report a recovery after that many breaches.
\<close>

datatype decision = Quiet | RaiseP0 | Recovered int

type_synonym machine_view = "int \<times> instant option"

definition spec_step ::
    "app_config \<Rightarrow> instant \<Rightarrow> float64 \<Rightarrow> machine_view \<Rightarrow> decision \<times> machine_view"
where
  "spec_step cfg now cpu v =
     (let (n, held) = v;
          n' = wrap64 (n + 1);
          free = (case held of None \<Rightarrow> True | Some e \<Rightarrow> e \<le> now)
      in if f64_gt cpu (CPUAlertThreshold cfg) then
           (if AlertTriggerCount cfg \<le> n' \<and> free
            then (RaiseP0, n', Some (now + seconds (AlertCooldownSeconds cfg)))
            else (Quiet, n', held))
         else (if 0 < n then Recovered n else Quiet, 0, held))"

definition mem_view :: "memory_alert_store server \<Rightarrow> string \<Rightarrow> machine_view" where
  "mem_view w k = (mem_lookup (store w) k, cooldowns (store w) k)"

text \<open>The alert rows a decision asks for, given how the notification went.\<close>

definition decided_rows ::
    "app_config \<Rightarrow> metrics_payload \<Rightarrow> instant \<Rightarrow> error option \<Rightarrow> decision \<Rightarrow> alert_event_record list"
where
  "decided_rows cfg m now notified d =
     (case d of
        Quiet \<Rightarrow> []
      | RaiseP0 \<Rightarrow>
          [case notified of
             None \<Rightarrow> p0_record cfg m (p0_event cfg m now) ''sent'' []
           | Some err \<Rightarrow> p0_record cfg m (p0_event cfg m now) ''failed'' err]
      | Recovered n \<Rightarrow> [recovery_record cfg m n (recovery_event cfg m n now)])"

lemma raise_alert_rows:
  "saved_events (trace (raise_alert sv (notifier_of sv n) cfg m now w)) =
     saved_events (trace w) @
       decided_rows cfg m now (fst (NotifyCPUAlert (notifier_of sv n) (p0_event cfg m now) w)) RaiseP0"
  using configured.raise_alert_saved [of sv sv n cfg m now w]
  by (auto simp: decided_rows_def split: option.splits)

lemma evaluate_breach_memory:
  assumes "breaches cfg m"
    and "spec_step cfg (clk 1) (CPUUsage m) (mem_view w (MachineID m)) = (d, v)"
  shows "evaluateCPUAlert sv memory_store nt cfg clk m w =
    (let w1 = w\<lparr>store := (store w)\<lparr>counts := (counts (store w))(MachineID m \<mapsto> fst v),
            cooldowns := (cooldowns (store w))(MachineID m := snd v)\<rparr>\<rparr>
     in if d = RaiseP0 then raise_alert sv nt cfg m (clk 2) w1 else w1)"
proof -
  have same: "x\<lparr>cooldowns := cooldowns x\<rparr> = x" for x :: memory_alert_store by simp
  show ?thesis
    using assms
    by (auto simp: eval_defs mem_defs spec_step_def mem_view_def Let_def fun_upd_idem
        split: option.splits if_splits)
qed

lemma evaluate_normal_memory:
  assumes "\<not> breaches cfg m"
    and "spec_step cfg (clk 1) (CPUUsage m) (mem_view w (MachineID m)) = (d, v)"
  shows "evaluateCPUAlert sv memory_store nt cfg clk m w =
    (let w1 = w\<lparr>store := (store w)\<lparr>counts := (counts (store w))(MachineID m := None)\<rparr>\<rparr>
     in case d of
          Recovered n \<Rightarrow>
            snd (saveAlertEventObserved sv (recovery_record cfg m n (recovery_event cfg m n (clk 2)))
              (snd (NotifyCPURecovery nt (recovery_event cfg m n (clk 2)) w1)))
        | _ \<Rightarrow> w1)"
  using assms
  by (auto simp: eval_defs mem_defs spec_step_def mem_view_def Let_def split: option.splits if_splits)

text \<open>How the notification of a decision goes, asked in the state after the store calls.\<close>

definition notified_result ::
    "'s notifier_ops \<Rightarrow> app_config \<Rightarrow> metrics_payload \<Rightarrow> instant \<Rightarrow> 's server \<Rightarrow> error option"
where
  "notified_result nt cfg m now w = fst (NotifyCPUAlert nt (p0_event cfg m now) w)"

lemma evaluate_spec:
  assumes "spec_step cfg (clk 1) (CPUUsage m) (mem_view w (MachineID m)) = (d, v)"
    and "w' = evaluateCPUAlert sv memory_store (notifier_of sv n) cfg clk m w"
  shows "mem_view w' (MachineID m) = v \<and>
    (\<forall>k. k \<noteq> MachineID m \<longrightarrow> mem_view w' k = mem_view w k) \<and>
    saved_events (trace w') = saved_events (trace w) @
      decided_rows cfg m (clk 2)
        (notified_result (notifier_of sv n) cfg m (clk 2) (w\<lparr>store := store w'\<rparr>)) d"
proof (cases "breaches cfg m")
  case True
  let ?w1 = "w\<lparr>store := (store w)\<lparr>counts := (counts (store w))(MachineID m \<mapsto> fst v),
            cooldowns := (cooldowns (store w))(MachineID m := snd v)\<rparr>\<rparr>"
  have w': "w' = (if d = RaiseP0 then raise_alert sv (notifier_of sv n) cfg m (clk 2) ?w1 else ?w1)"
    using evaluate_breach_memory [where clk = clk and nt = "notifier_of sv n", OF True assms(1)] assms(2)
    by (simp add: Let_def)
  have d: "d = RaiseP0 \<or> d = Quiet"
    using True assms(1) by (auto simp: spec_step_def mem_view_def Let_def split: if_splits)
  have st: "store w' = store ?w1"
    by (simp add: w')
  have "saved_events (trace w') = saved_events (trace w) @
      decided_rows cfg m (clk 2) (notified_result (notifier_of sv n) cfg m (clk 2) ?w1) d"
    using d raise_alert_rows [of sv n cfg m "clk 2" ?w1]
    by (auto simp: w' notified_result_def decided_rows_def)
  then show ?thesis by (simp add: st mem_view_def mem_lookup_def)
next
  case False
  let ?w1 = "w\<lparr>store := (store w)\<lparr>counts := (counts (store w))(MachineID m := None)\<rparr>\<rparr>"
  have w': "w' = (case d of
      Recovered p \<Rightarrow> snd (saveAlertEventObserved sv (recovery_record cfg m p (recovery_event cfg m p (clk 2)))
          (snd (NotifyCPURecovery (notifier_of sv n) (recovery_event cfg m p (clk 2)) ?w1)))
    | _ \<Rightarrow> ?w1)"
    using evaluate_normal_memory [where clk = clk and nt = "notifier_of sv n", OF False assms(1)] assms(2)
    by (simp add: Let_def)
  have d: "d = Quiet \<or> (\<exists>p. d = Recovered p)" and v: "v = (0, snd (mem_view w (MachineID m)))"
    using False assms(1) by (auto simp: spec_step_def Let_def split: if_splits prod.splits)
  have "store w' = store ?w1"
    using d by (auto simp: w')
  with d v show ?thesis
    by (auto simp: w' decided_rows_def mem_view_def mem_lookup_def)
qed

text \<open>
  C2. On the in-memory store an evaluation refines the specification: it moves the machine's view
  as the specification does, touches no other machine, and tries to save exactly the rows the
  decision asks for, a P0 row carrying the outcome of its own notification.
\<close>

theorem evaluate_refines_spec:
  assumes "spec_step cfg (clk 1) (CPUUsage m) (mem_view w (MachineID m)) = (d, v)"
    and "w' = evaluateCPUAlert sv memory_store (notifier_of sv n) cfg clk m w"
  shows "mem_view w' (MachineID m) = v \<and>
    (\<forall>k. k \<noteq> MachineID m \<longrightarrow> mem_view w' k = mem_view w k) \<and>
    saved_events (trace w') = saved_events (trace w) @
      decided_rows cfg m (clk 2)
        (notified_result (notifier_of sv n) cfg m (clk 2) (w\<lparr>store := store w'\<rparr>)) d"
  using assms by (rule evaluate_spec)

section \<open>Runs of one machine on the in-memory store\<close>

lemma evaluate_view:
  "mem_view (evaluateCPUAlert sv memory_store (notifier_of sv n) cfg clk m w) (MachineID m) =
     snd (spec_step cfg (clk 1) (CPUUsage m) (mem_view w (MachineID m)))"
  "saved_events (trace (evaluateCPUAlert sv memory_store (notifier_of sv n) cfg clk m w)) =
     saved_events (trace w) @
       decided_rows cfg m (clk 2)
        (notified_result (notifier_of sv n) cfg m (clk 2)
          (w\<lparr>store := store (evaluateCPUAlert sv memory_store (notifier_of sv n) cfg clk m w)\<rparr>))
        (fst (spec_step cfg (clk 1) (CPUUsage m) (mem_view w (MachineID m))))"
proof -
  obtain d v where s: "spec_step cfg (clk 1) (CPUUsage m) (mem_view w (MachineID m)) = (d, v)"
    by (cases "spec_step cfg (clk 1) (CPUUsage m) (mem_view w (MachineID m))")
  note e = evaluate_spec [where clk = clk, OF s refl, of sv n]
  show "mem_view (evaluateCPUAlert sv memory_store (notifier_of sv n) cfg clk m w) (MachineID m) =
     snd (spec_step cfg (clk 1) (CPUUsage m) (mem_view w (MachineID m)))"
    using e s by simp
  show "saved_events (trace (evaluateCPUAlert sv memory_store (notifier_of sv n) cfg clk m w)) =
     saved_events (trace w) @
       decided_rows cfg m (clk 2)
        (notified_result (notifier_of sv n) cfg m (clk 2)
          (w\<lparr>store := store (evaluateCPUAlert sv memory_store (notifier_of sv n) cfg clk m w)\<rparr>))
        (fst (spec_step cfg (clk 1) (CPUUsage m) (mem_view w (MachineID m))))"
    using e s by simp
qed

text \<open>The samples of one machine among many, and its alert rows.\<close>

definition of_machine ::
    "string \<Rightarrow> ((nat \<Rightarrow> instant) \<times> metrics_payload) list \<Rightarrow> ((nat \<Rightarrow> instant) \<times> metrics_payload) list"
where
  "of_machine k ms = filter (\<lambda>(clk, m). MachineID m = k) ms"

definition machine_rows :: "string \<Rightarrow> 's server \<Rightarrow> alert_event_record list" where
  "machine_rows k w = filter (\<lambda>r. rec_MachineID r = k) (saved_events (trace w))"

lemma decided_rows_machine: "r \<in> set (decided_rows cfg m now notified d) \<Longrightarrow> rec_MachineID r = MachineID m"
  by (auto simp: decided_rows_def p0_record_def recovery_record_def split: decision.splits option.splits)

lemma machine_rows_evaluate:
  "machine_rows k (evaluateCPUAlert sv memory_store (notifier_of sv n) cfg clk m w) = machine_rows k w @
     (if MachineID m = k
      then decided_rows cfg m (clk 2)
        (notified_result (notifier_of sv n) cfg m (clk 2)
          (w\<lparr>store := store (evaluateCPUAlert sv memory_store (notifier_of sv n) cfg clk m w)\<rparr>))
        (fst (spec_step cfg (clk 1) (CPUUsage m) (mem_view w (MachineID m))))
      else [])"
  unfolding machine_rows_def evaluate_view(2)
  by (auto simp: filter_empty_conv filter_id_conv dest: decided_rows_machine)

text \<open>
  Breaches of a machine that stay below the trigger are counted and otherwise silent, whatever the
  other machines send in between.
\<close>

lemma breaches_below_trigger:
  assumes "\<forall>(clk, m) \<in> set (of_machine k ms). breaches cfg m"
    and "mem_view w k = (int j, held)" and "in_int64 (AlertTriggerCount cfg)"
    and "int (j + length (of_machine k ms)) < AlertTriggerCount cfg"
    and "w' = eval_run sv memory_store (notifier_of sv n) cfg ms w"
  shows "mem_view w' k = (int (j + length (of_machine k ms)), held) \<and> machine_rows k w' = machine_rows k w"
  using assms
proof (induction ms arbitrary: w j)
  case (Cons cm ms)
  obtain clk m where cm: "cm = (clk, m)" by (cases cm)
  let ?w1 = "evaluateCPUAlert sv memory_store (notifier_of sv n) cfg clk m w"
  show ?case
  proof (cases "MachineID m = k")
    case True
    with Cons.prems(1) cm have m: "breaches cfg m" "MachineID m = k" by (auto simp: of_machine_def)
    have "int j + 1 < AlertTriggerCount cfg" "in_int64 (int j + 1)"
      using Cons.prems(3,4) cm m(2) by (auto simp: in_int64_def of_machine_def)
    then have "spec_step cfg (clk 1) (CPUUsage m) (mem_view w k) = (Quiet, int (Suc j), held)"
      using m Cons.prems(2) by (simp add: spec_step_def Let_def add.commute)
    with evaluate_view(1) [of sv n cfg clk m w] machine_rows_evaluate [of k sv n cfg clk m w] m
    have w1: "mem_view ?w1 k = (int (Suc j), held)" "machine_rows k ?w1 = machine_rows k w"
      by (simp_all add: decided_rows_def)
    show ?thesis
      using Cons.IH [OF _ w1(1) Cons.prems(3)] Cons.prems w1(2) cm m(2) by (auto simp: of_machine_def)
  next
    case False
    obtain d v where "spec_step cfg (clk 1) (CPUUsage m) (mem_view w (MachineID m)) = (d, v)"
      by (cases "spec_step cfg (clk 1) (CPUUsage m) (mem_view w (MachineID m))")
    from evaluate_spec [where clk = clk, OF this refl] False have "mem_view ?w1 k = mem_view w k" by simp
    moreover have "machine_rows k ?w1 = machine_rows k w" by (simp add: machine_rows_evaluate False)
    ultimately show ?thesis
      using Cons.IH [of ?w1 j] Cons.prems cm False by (simp add: of_machine_def)
  qed
qed (simp add: of_machine_def)

text \<open>
  C13. Timeliness, on the in-memory store: take a machine that is at a count of \<open>j\<close> breaches and
  whose cooldown, if it has one, is over by its last sample, and let it breach the threshold in each
  of its samples, as many as \<^verbatim>\<open>ALERT_TRIGGER_COUNT\<close> still asks for; then, whatever the
  samples of other machines in between, it gets no alert row before the last of them, and exactly
  one row, a P0 row for that sample, at the last.
\<close>

theorem alert_exactly_at_trigger:
  assumes "\<forall>(clk, m) \<in> set (of_machine k (ms @ [(clk', m')])). breaches cfg m" and "MachineID m' = k"
    and "mem_view w k = (int j, held)" and "case held of None \<Rightarrow> True | Some e \<Rightarrow> e \<le> clk' 1"
    and "in_int64 (AlertTriggerCount cfg)"
    and "int (j + Suc (length (of_machine k ms))) = AlertTriggerCount cfg"
  shows "machine_rows k (eval_run sv memory_store (notifier_of sv n) cfg ms w) = machine_rows k w \<and>
    (\<exists>status err. machine_rows k (eval_run sv memory_store (notifier_of sv n) cfg (ms @ [(clk', m')]) w) =
      machine_rows k w @ [p0_record cfg m' (p0_event cfg m' (clk' 2)) status err])"
proof -
  let ?w1 = "eval_run sv memory_store (notifier_of sv n) cfg ms w"
  have run: "eval_run sv memory_store (notifier_of sv n) cfg (ms @ [(clk', m')]) w =
      evaluateCPUAlert sv memory_store (notifier_of sv n) cfg clk' m' ?w1"
    by (induction ms arbitrary: w) auto
  have breach: "\<forall>(clk, m) \<in> set (of_machine k ms). breaches cfg m" "breaches cfg m'"
    using assms(1,2) by (auto simp: of_machine_def)
  from breaches_below_trigger [OF breach(1) assms(3,5) _ refl, of sv n] assms(6)
  have w1: "mem_view ?w1 k = (int (j + length (of_machine k ms)), held)" "machine_rows k ?w1 = machine_rows k w"
    by simp_all
  have "in_int64 (int (j + length (of_machine k ms)) + 1)" using assms(5,6) by (simp add: add.commute)
  then have "fst (spec_step cfg (clk' 1) (CPUUsage m') (mem_view ?w1 k)) = RaiseP0"
    using w1(1) breach(2) assms(4,6) by (simp add: spec_step_def Let_def split: option.splits)
  with w1(2) assms(2) show ?thesis
    unfolding run machine_rows_evaluate by (auto simp: decided_rows_def split: option.splits)
qed

text \<open>
  C40. The row of a recovery claims that the notification was sent whether or not it was: when the
  notifier fails, the saved row still has status \<^verbatim>\<open>sent\<close> and an empty error.
\<close>

theorem recovery_row_hides_failure:
  assumes "\<not> breaches cfg m" and "0 < mem_lookup (store w) (MachineID m)"
    and "w' = evaluateCPUAlert sv memory_store (notifier_of sv n) cfg clk m w"
    and "fst (NotifyCPURecovery (notifier_of sv n)
        (recovery_event cfg m (mem_lookup (store w) (MachineID m)) (clk 2))
        (w\<lparr>store := store w'\<rparr>)) = Some err"
  shows "\<exists>row. saved_events (trace w') = saved_events (trace w) @ [row] \<and>
    rec_Level row = ''RECOVERY'' \<and> rec_NotifyStatus row = ''sent'' \<and> rec_NotifyError row = []"
proof -
  have "fst (spec_step cfg (clk 1) (CPUUsage m) (mem_view w (MachineID m))) =
      Recovered (mem_lookup (store w) (MachineID m))"
    using assms(1,2) by (simp add: spec_step_def mem_view_def Let_def)
  with evaluate_view(2) [of sv n cfg clk m w] assms(3) show ?thesis
    by (simp add: decided_rows_def recovery_record_def)
qed

text \<open>
  A recovery is reported for machines that never alerted: with a trigger of at least 2, one
  sample above the threshold followed by one below it saves a RECOVERY row and no P0 row.
\<close>

theorem recovery_without_alert:
  assumes "breaches cfg hot" and "\<not> breaches cfg cool" and "MachineID hot = k" and "MachineID cool = k"
    and "mem_view w k = (0, held)" and "2 \<le> AlertTriggerCount cfg"
  shows "saved_events (trace (eval_run sv memory_store (notifier_of sv n) cfg [(clk, hot), (clk', cool)] w)) =
    saved_events (trace w) @ [recovery_record cfg cool 1 (recovery_event cfg cool 1 (clk' 2))]"
proof -
  let ?w1 = "evaluateCPUAlert sv memory_store (notifier_of sv n) cfg clk hot w"
  have "spec_step cfg (clk 1) (CPUUsage hot) (mem_view w k) = (Quiet, 1, held)"
    using assms by (simp add: spec_step_def Let_def in_int64_def [of 1])
  with evaluate_view [of sv n cfg clk hot w] assms(3)
  have w1: "mem_view ?w1 k = (1, held)" "saved_events (trace ?w1) = saved_events (trace w)"
    by (simp_all add: decided_rows_def)
  have "fst (spec_step cfg (clk' 1) (CPUUsage cool) (mem_view ?w1 k)) = Recovered 1"
    using assms(2) w1 by (simp add: spec_step_def Let_def)
  with evaluate_view(2) [of sv n cfg clk' cool ?w1] assms(4) w1(2) show ?thesis
    by (simp add: decided_rows_def)
qed

section \<open>Alerts and counters agree\<close>

text \<open>
  Every P0 row goes with one counted notification attempt of the outcome it records, and every row
  with one counted attempt to save it.
\<close>

definition rows_of_level :: "string \<Rightarrow> 's server \<Rightarrow> nat" where
  "rows_of_level lvl w = count_where (\<lambda>r. rec_Level r = lvl) (saved_events (trace w))"

definition p0_rows :: "string \<Rightarrow> 's server \<Rightarrow> nat" where
  "p0_rows st w =
     count_where (\<lambda>r. rec_Level r = ''P0'' \<and> rec_NotifyStatus r = st) (saved_events (trace w))"

definition counted_notifications :: "string \<Rightarrow> 's server \<Rightarrow> nat" where
  "counted_notifications st w = counters w (serverAlertNotificationsTotal, [''P0'', st])"

definition counted_saves :: "string \<Rightarrow> 's server \<Rightarrow> nat" where
  "counted_saves lvl w =
     counters w (serverAlertEventsSavedTotal, [lvl, ''success'']) +
     counters w (serverAlertEventsSavedTotal, [lvl, ''failed''])"

definition accounted :: "'s server \<Rightarrow> bool" where
  "accounted w \<longleftrightarrow>
     (\<forall>st. counted_notifications st w = p0_rows st w) \<and>
     (\<forall>lvl. counted_saves lvl w = rows_of_level lvl w)"

lemma ev_level_p0: "ev_Level (p0_event cfg m now) = ''P0''"
  by (simp add: p0_event_def)

lemma rec_level_p0:
  "rec_Level (p0_record cfg m e st err) = ev_Level e" "rec_NotifyStatus (p0_record cfg m e st err) = st"
  by (simp_all add: p0_record_def)

lemma rec_level_recovery: "rec_Level (recovery_record cfg m n e) = ''RECOVERY''"
  by (simp add: recovery_record_def)

lemma rows_of_level_frame [simp]:
  "rows_of_level lvl (w\<lparr>store := s\<rparr>) = rows_of_level lvl w"
  "rows_of_level lvl (inc name ls w) = rows_of_level lvl w"
  "rows_of_level lvl (snd (saveAlertEventObserved sv r w)) =
     rows_of_level lvl w + (if rec_Level r = lvl then 1 else 0)"
  "p0_rows st (w\<lparr>store := s\<rparr>) = p0_rows st w"
  "p0_rows st (inc name ls w) = p0_rows st w"
  "p0_rows st (snd (saveAlertEventObserved sv r w)) =
     p0_rows st w + (if rec_Level r = ''P0'' \<and> rec_NotifyStatus r = st then 1 else 0)"
  by (simp_all add: rows_of_level_def p0_rows_def)

lemma counted_frame [simp]:
  "counted_notifications st (w\<lparr>store := s\<rparr>) = counted_notifications st w"
  "counted_saves lvl (w\<lparr>store := s\<rparr>) = counted_saves lvl w"
  "name \<noteq> serverAlertNotificationsTotal \<Longrightarrow> counted_notifications st (inc name ls w) = counted_notifications st w"
  "name \<noteq> serverAlertEventsSavedTotal \<Longrightarrow> counted_saves lvl (inc name ls w) = counted_saves lvl w"
  by (auto simp: counted_notifications_def counted_saves_def)

lemma counted_saves_save [simp]:
  "counted_saves lvl (snd (saveAlertEventObserved sv r w)) =
     counted_saves lvl w + (if rec_Level r = lvl then 1 else 0)"
  "counted_notifications st (snd (saveAlertEventObserved sv r w)) = counted_notifications st w"
  by (cases "db_create sv (trace w) r")
    (auto simp: counted_saves_def counted_notifications_def Let_def)

lemma counted_notifications_inc [simp]:
  "counted_notifications st (inc serverAlertNotificationsTotal [''P0'', st'] w) =
     counted_notifications st w + (if st' = st then 1 else 0)"
  by (auto simp: counted_notifications_def)

lemma accounted_store [simp]: "accounted (w\<lparr>store := s\<rparr>) = accounted w"
  by (simp add: accounted_def)

lemma accounted_inc_other [simp]:
  "name \<noteq> serverAlertNotificationsTotal \<Longrightarrow> name \<noteq> serverAlertEventsSavedTotal \<Longrightarrow>
     accounted (inc name ls w) = accounted w"
  by (simp add: accounted_def)

lemma accounted_save_recovery:
  "accounted w \<Longrightarrow> rec_Level r \<noteq> ''P0'' \<Longrightarrow> accounted (snd (saveAlertEventObserved sv r w))"
  by (auto simp: accounted_def)

lemma accounted_save_p0:
  "accounted w \<Longrightarrow> rec_Level r = ''P0'' \<Longrightarrow> rec_NotifyStatus r = st \<Longrightarrow>
     accounted (snd (saveAlertEventObserved sv r (inc serverAlertNotificationsTotal [''P0'', st] w)))"
  by (simp add: accounted_def)

context notifier_contract
begin

lemma accounted_notify [simp]:
  "accounted (snd (NotifyCPUAlert ops e w)) = accounted w"
  "accounted (snd (NotifyCPURecovery ops e w)) = accounted w"
  by (simp_all add: accounted_def rows_of_level_def p0_rows_def counted_saves_def counted_notifications_def)

lemma accounted_raise_alert: "accounted w \<Longrightarrow> accounted (raise_alert sv ops cfg m now w)"
proof -
  assume w: "accounted w"
  obtain r w1 where n: "NotifyCPUAlert ops (p0_event cfg m now) w = (r, w1)"
    by (cases "NotifyCPUAlert ops (p0_event cfg m now) w")
  with w accounted_notify(1) [of "p0_event cfg m now" w] have "accounted w1" by simp
  with n show ?thesis
    by (auto simp: raise_alert_def Let_def ev_level_p0 rec_level_p0 split: option.split
        intro!: accounted_save_p0)
qed

lemma accounted_evaluate: "accounted w \<Longrightarrow> accounted (evaluateCPUAlert sv st ops cfg clk m w)"
  by (simp add: eval_defs Let_def accounted_raise_alert accounted_save_recovery rec_level_recovery
      split: prod.split sum.split option.split)

end

lemma example_config_simps [simp]:
  "CPUAlertThreshold example_config = Fin 80"
  "AlertTriggerCount example_config = 3"
  "AlertCooldownSeconds example_config = 60"
  by (simp_all add: loadConfig_def getEnvAsInt_def getEnvAsFloat_def)

lemma example_sample_simps [simp]:
  "MachineID (example_sample k cpu) = k"
  "CPUUsage (example_sample k cpu) = Fin cpu"
  by (simp_all add: example_sample_def)

theorem evaluate_refines_spec_witness:
  "let w = start_server \<lparr>counts = [''a'' \<mapsto> 2], cooldowns = Map.empty\<rparr>;
       w' = evaluateCPUAlert (example_services 200) memory_store
         (notifier_of (example_services 200) NoopNotifier) example_config (at_second 5)
         (example_sample ''a'' 95) w
   in mem_view w' ''a'' = (3, Some 65000000001) \<and>
      saved_events (trace w') =
        [p0_record example_config (example_sample ''a'' 95)
          (p0_event example_config (example_sample ''a'' 95) 5000000002) ''sent'' []]"
proof -
  let ?w = "start_server \<lparr>counts = [''a'' \<mapsto> 2], cooldowns = Map.empty\<rparr>"
  have s: "spec_step example_config (at_second 5 1) (CPUUsage (example_sample ''a'' 95))
      (mem_view ?w (MachineID (example_sample ''a'' 95))) = (RaiseP0, 3, Some 65000000001)"
    by (simp add: spec_step_def mem_view_def start_server_def mem_lookup_def at_second_def
        seconds_def in_int64_def)
  show ?thesis
    using evaluate_refines_spec [where clk = "at_second 5" and sv = "example_services 200"
        and n = NoopNotifier, OF s refl]
    by (simp add: Let_def decided_rows_def notified_result_def at_second_def start_server_def)
qed

text \<open>A machine with one breach and a cooldown that ends, and another machine in between.\<close>

theorem alert_exactly_at_trigger_witness:
  "let run = (\<lambda>ms. machine_rows ''a'' (eval_run (example_services 200) memory_store
         (notifier_of (example_services 200) NoopNotifier) example_config ms
         (start_server \<lparr>counts = [''a'' \<mapsto> 1], cooldowns = [''a'' \<mapsto> 15000000000]\<rparr>)));
       first = [(at_second 0, example_sample ''a'' 90), (at_second 10, example_sample ''b'' 20)]
   in run first = [] \<and>
      (\<exists>status err. run (first @ [(at_second 20, example_sample ''a'' 92)]) =
        [p0_record example_config (example_sample ''a'' 92)
          (p0_event example_config (example_sample ''a'' 92) 20000000002) status err])"
proof -
  let ?w = "start_server \<lparr>counts = [''a'' \<mapsto> 1], cooldowns = [''a'' \<mapsto> 15000000000]\<rparr>"
  have view: "mem_view ?w ''a'' = (int 1, Some 15000000000)"
    by (simp add: mem_view_def mem_lookup_def start_server_def)
  have "machine_rows ''a'' ?w = []" by (simp add: machine_rows_def start_server_def)
  with alert_exactly_at_trigger [where ms = "[(at_second 0, example_sample ''a'' 90),
      (at_second 10, example_sample ''b'' 20)]" and clk' = "at_second 20"
      and m' = "example_sample ''a'' 92" and cfg = example_config and k = "''a''"
      and sv = "example_services 200" and n = NoopNotifier, OF _ _ view]
  show ?thesis by (simp add: Let_def in_int64_def at_second_def of_machine_def)
qed

text \<open>A webhook whose server answers 500: the recovery is recorded as sent all the same.\<close>

theorem recovery_row_hides_failure_witness:
  "let w = start_server \<lparr>counts = [''a'' \<mapsto> 5], cooldowns = Map.empty\<rparr>;
       hook = WebhookNotifier \<lparr>wh_provider = ''ding'', wh_url = ''http://hook'', wh_timeout = 1\<rparr>;
       w' = evaluateCPUAlert (example_services 500) memory_store
         (notifier_of (example_services 500) hook) example_config (at_second 5)
         (example_sample ''a'' 20) w
   in \<exists>row. saved_events (trace w') = [row] \<and> rec_Level row = ''RECOVERY'' \<and>
        rec_NotifyStatus row = ''sent'' \<and> rec_NotifyError row = []"
proof -
  let ?w = "start_server \<lparr>counts = [''a'' \<mapsto> 5], cooldowns = Map.empty\<rparr>"
  let ?hook = "WebhookNotifier \<lparr>wh_provider = ''ding'', wh_url = ''http://hook'', wh_timeout = 1\<rparr>"
  have failed: "fst (NotifyCPURecovery (notifier_of (example_services 500) ?hook) e v) =
      Some (''webhook returned status='' @ itoa 500)" for e and v :: "'s server"
    by (simp add: webhook_NotifyCPURecovery_def webhook_send_def buildPayload_def http_do_def
        example_services_def)
  show ?thesis
    using recovery_row_hides_failure [where w = ?w and n = ?hook and sv = "example_services 500"
        and cfg = example_config and m = "example_sample ''a'' 20" and clk = "at_second 5",
        OF _ _ refl failed]
    by (simp add: Let_def start_server_def mem_lookup_def)
qed

theorem recovery_without_alert_witness:
  "saved_events (trace (eval_run (example_services 200) memory_store
     (notifier_of (example_services 200) NoopNotifier) example_config
     [(at_second 0, example_sample ''a'' 90), (at_second 10, example_sample ''a'' 10)]
     (start_server NewMemoryAlertStateStore))) =
   [recovery_record example_config (example_sample ''a'' 10) 1
     (recovery_event example_config (example_sample ''a'' 10) 1 10000000002)]"
  using recovery_without_alert [where cfg = example_config and hot = "example_sample ''a'' 90"
      and cool = "example_sample ''a'' 10" and k = "''a''"
      and w = "start_server NewMemoryAlertStateStore" and held = None
      and sv = "example_services 200" and n = NoopNotifier
      and clk = "at_second 0" and clk' = "at_second 10"]
  by (simp add: start_server_def mem_view_def mem_lookup_def NewMemoryAlertStateStore_def at_second_def)

end
