(* ===== verification/Publisher.thy ===== *)
theory Publisher
  imports Server_World
begin

text \<open>
  The Kafka publisher (\<open>internal/ingest/publisher\<close>): the event, the interface \<open>Publisher\<close> with its
  contract as a locale, and the implementation on a Kafka writer. What the brokers answer to a
  write is part of \<open>services\<close>.
\<close>

text \<open>\<open>publisher.MetricsEvent\<close>\<close>

record metrics_event =
  pe_MachineID :: string
  pe_IP :: string
  pe_CPUUsage :: float64
  pe_MemUsage :: float64
  pe_DiskUsage :: float64
  pe_Timestamp :: int

text \<open>The struct has no tags, so the keys are the field names; the first bad float is the error.\<close>

definition marshal_event :: "float_lib \<Rightarrow> metrics_event \<Rightarrow> error + json" where
  "marshal_event fl e =
     bind_err (encode_float fl (pe_CPUUsage e)) (\<lambda>cpu.
     bind_err (encode_float fl (pe_MemUsage e)) (\<lambda>mem.
     bind_err (encode_float fl (pe_DiskUsage e)) (\<lambda>disk.
       Inr (JObj
         [(''MachineID'', JStr (pe_MachineID e)), (''IP'', JStr (pe_IP e)),
          (''CPUUsage'', cpu), (''MemUsage'', mem), (''DiskUsage'', disk),
          (''Timestamp'', encode_int (pe_Timestamp e))]))))"

text \<open>The writer \<open>NewKafkaPublisher\<close> configures; acknowledgements and batching are the library's.\<close>

record kafka_publisher =
  kp_Addr :: "string list"
  kp_Topic :: string

definition NewKafkaPublisher :: "string \<Rightarrow> string \<Rightarrow> kafka_publisher" where
  "NewKafkaPublisher brokersCSV topic =
     \<lparr>kp_Addr = filter (\<lambda>v. v \<noteq> []) (map trim_space (split_on CHR '','' brokersCSV)),
      kp_Topic = topic\<rparr>"

definition traceHeadersFromContext :: "services \<Rightarrow> (string \<times> string) list" where
  "traceHeadersFromContext sv = map (\<lambda>(key, value). (key, value)) (carrier sv)"

definition PublishMetrics ::
    "float_lib \<Rightarrow> services \<Rightarrow> kafka_publisher \<Rightarrow> instant \<Rightarrow> metrics_event \<Rightarrow> 's server \<Rightarrow>
       error option \<times> 's server"
where
  "PublishMetrics fl sv k now event w =
     (case marshal_event fl event of
        Inl err \<Rightarrow> (Some err, w)
      | Inr payload \<Rightarrow>
          kafka_do sv
            \<lparr>msg_Topic = kp_Topic k, msg_Key = pe_MachineID event, msg_Value = Inr payload,
             msg_Time = now, msg_Headers = traceHeadersFromContext sv\<rparr> w)"

text \<open>
  What the ingest handler relies on: publishing touches nothing but the queue, and when it reports
  success exactly one message was handed over, keyed by the machine.
\<close>

locale publisher_contract =
  fixes publish :: "metrics_event \<Rightarrow> 's server \<Rightarrow> error option \<times> 's server"
  assumes publish_frame: "publish e w = (r, w') \<Longrightarrow>
      store w' = store w \<and> counters w' = counters w \<and>
      (\<exists>msgs. trace w' = trace w @ map WriteKafka msgs \<and> length msgs \<le> 1)"
    and publish_success: "publish e w = (None, w') \<Longrightarrow>
      \<exists>msg. trace w' = trace w @ [WriteKafka msg] \<and> msg_Key msg = pe_MachineID e"
begin

lemma publish_simps [simp]:
  "store (snd (publish e w)) = store w"
  "counters (snd (publish e w)) = counters w"
  using publish_frame [of e w] by (simp_all add: prod_eq_iff)

lemma publish_no_rows [simp]: "saved_events (trace (snd (publish e w))) = saved_events (trace w)"
proof -
  obtain msgs where "trace (snd (publish e w)) = trace w @ map WriteKafka msgs"
    using publish_frame [of e w] by (auto simp: prod_eq_iff)
  then show ?thesis by (simp add: saved_events_def comp_def)
qed

lemma publish_no_requests [simp]:
  "requests_sent (trace (snd (publish e w))) = requests_sent (trace w)"
proof -
  obtain msgs where "trace (snd (publish e w)) = trace w @ map WriteKafka msgs"
    using publish_frame [of e w] by (auto simp: prod_eq_iff)
  then show ?thesis by (simp add: requests_sent_def comp_def)
qed

end

interpretation kafka: publisher_contract "PublishMetrics fl sv k now" for fl sv k now
proof
  fix e r and w w' :: "'a server"
  assume p: "PublishMetrics fl sv k now e w = (r, w')"
  show "store w' = store w \<and> counters w' = counters w \<and>
      (\<exists>msgs. trace w' = trace w @ map WriteKafka msgs \<and> length msgs \<le> 1)"
  proof (cases "marshal_event fl e")
    case (Inl err)
    with p show ?thesis by (auto simp: PublishMetrics_def exI [of _ "[]"])
  next
    case (Inr payload)
    with p obtain msg where "w' = w\<lparr>trace := trace w @ map WriteKafka [msg]\<rparr>"
      by (auto simp: PublishMetrics_def kafka_do_def)
    then show ?thesis by (auto intro!: exI [of _ "[msg]"])
  qed
next
  fix e and w w' :: "'a server"
  assume "PublishMetrics fl sv k now e w = (None, w')"
  then show "\<exists>msg. trace w' = trace w @ [WriteKafka msg] \<and> msg_Key msg = pe_MachineID e"
    by (auto simp: PublishMetrics_def kafka_do_def split: sum.splits)
qed

text \<open>
  The broker list of the publisher holds the non-blank entries of the comma-separated setting,
  trimmed: its members are the trimmed non-blank entries, none of them is empty, and none starts or
  ends with white space.
\<close>

theorem broker_list_clean:
  "set (kp_Addr (NewKafkaPublisher csv topic)) =
     {trim_space p | p. p \<in> set (split_on CHR '','' csv) \<and> \<not> blank p} \<and>
   [] \<notin> set (kp_Addr (NewKafkaPublisher csv topic)) \<and>
   map trim_space (kp_Addr (NewKafkaPublisher csv topic)) = kp_Addr (NewKafkaPublisher csv topic)"
  by (auto simp: NewKafkaPublisher_def intro!: map_idI)

end
