(* ===== verification/Ingest.thy ===== *)
theory Ingest
  imports Alert_Eval Publisher
begin

text \<open>
  The ingest path of the server (\<open>main.go\<close>): the write to VictoriaMetrics followed by the alert
  evaluation (\<open>processMetricsPayload\<close>), and the reading of a payload that both
  ingest handlers share.

  \<open>clk\<close> gives the instants of an evaluation as in \<open>Alert_Eval\<close>, \<open>nowu\<close> is \<^verbatim>\<open>time.Now().Unix()\<close> as the
  handler reads it.
\<close>

section \<open>Processing a payload\<close>

definition dq :: string where "dq = [CHR 0x22]"

definition newline :: char where "newline = CHR 0x0A"

text \<open>One line of the Prometheus text format; the timestamp product wraps as \<open>int64\<close> does.\<close>

definition metric_line :: "string \<Rightarrow> metrics_payload \<Rightarrow> float64 \<Rightarrow> string" where
  "metric_line name m v =
     name @ ''{machine_id='' @ dq @ MachineID m @ dq @ '',ip='' @ dq @ IP m @ dq @ ''} '' @
     fmt_fixed 2 v @ '' '' @ itoa (wrap64 (Timestamp m * 1000))"

definition vm_payload :: "metrics_payload \<Rightarrow> string" where
  "vm_payload m =
     metric_line ''host_cpu_usage'' m (CPUUsage m) @ [newline] @
     metric_line ''host_mem_usage'' m (MemUsage m) @ [newline] @
     metric_line ''host_disk_usage'' m (DiskUsage m)"

definition vm_request :: "app_config \<Rightarrow> metrics_payload \<Rightarrow> http_request" where
  "vm_request cfg m =
     \<lparr>req_method = ''POST'', req_url = VictoriaMetricsURL cfg,
      req_headers = [(''Content-Type'', ''text/plain'')], req_body = TextBody (vm_payload m)\<rparr>"

text \<open>The function up to its deferred observation of the duration.\<close>

definition process_body ::
    "services \<Rightarrow> 's store_ops \<Rightarrow> 's notifier_ops \<Rightarrow> app_config \<Rightarrow> (nat \<Rightarrow> instant) \<Rightarrow>
       metrics_payload \<Rightarrow> 's server \<Rightarrow> error option \<times> 's server"
where
  "process_body sv st nt cfg clk m w =
     (case url_error sv (VictoriaMetricsURL cfg) of
        Some err \<Rightarrow>
          (Some ([CHR 0xE6, CHR 0x9E, CHR 0x84, CHR 0xE9, CHR 0x80, CHR 0xA0] @ ''VM'' @ [CHR 0xE8, CHR 0xAF, CHR 0xB7, CHR 0xE6, CHR 0xB1, CHR 0x82, CHR 0xE5, CHR 0xA4, CHR 0xB1, CHR 0xE8, CHR 0xB4, CHR 0xA5]), inc serverVMWritesTotal [''build_request_error''] w)
      | None \<Rightarrow>
          (case http_do sv (vm_request cfg m) w of
             (reply, w1) \<Rightarrow>
               let w2 = observeDuration serverVMWriteDurationSeconds w1 in
               (case reply of
                  Inl err \<Rightarrow>
                    (Some ([CHR 0xE5, CHR 0x86, CHR 0x99, CHR 0xE5, CHR 0x85, CHR 0xA5] @ ''VM'' @ [CHR 0xE5, CHR 0xA4, CHR 0xB1, CHR 0xE8, CHR 0xB4, CHR 0xA5]), inc serverVMWritesTotal [''error''] w2)
                | Inr resp \<Rightarrow>
                    if StatusCode resp < 200 \<or> StatusCode resp \<ge> 300 then
                      (Some (''VM'' @ [CHR 0xE5, CHR 0x86, CHR 0x99, CHR 0xE5, CHR 0x85, CHR 0xA5, CHR 0xE8, CHR 0xBF, CHR 0x94, CHR 0xE5, CHR 0x9B, CHR 0x9E, CHR 0xE5, CHR 0xA4, CHR 0xB1, CHR 0xE8, CHR 0xB4, CHR 0xA5]), inc serverVMWritesTotal [''non_2xx''] w2)
                    else
                      (None,
                       evaluateCPUAlert sv st nt cfg clk m
                         (inc serverVMWritesTotal [''success''] w2)))))"

definition processMetricsPayload ::
    "services \<Rightarrow> 's store_ops \<Rightarrow> 's notifier_ops \<Rightarrow> app_config \<Rightarrow> (nat \<Rightarrow> instant) \<Rightarrow>
       metrics_payload \<Rightarrow> 's server \<Rightarrow> error option \<times> 's server"
where
  "processMetricsPayload sv st nt cfg clk m w =
     (case process_body sv st nt cfg clk m w of
        (r, w1) \<Rightarrow> (r, observeDuration serverMetricsProcessDurationSeconds w1))"

section \<open>Reading a payload\<close>

definition zero_payload :: metrics_payload where
  "zero_payload =
     \<lparr>MachineID = [], IP = [], CPUUsage = Fin 0, MemUsage = Fin 0, DiskUsage = Fin 0, Timestamp = 0\<rparr>"

definition payload_fields :: "float_lib \<Rightarrow> (string \<times> metrics_payload setter) list" where
  "payload_fields fl =
     [string_field ''MetricsPayload'' ''machine_id'' (\<lambda>s m. m\<lparr>MachineID := s\<rparr>),
      string_field ''MetricsPayload'' ''ip'' (\<lambda>s m. m\<lparr>IP := s\<rparr>),
      float_field fl ''MetricsPayload'' ''cpu_usage'' (\<lambda>x m. m\<lparr>CPUUsage := x\<rparr>),
      float_field fl ''MetricsPayload'' ''mem_usage'' (\<lambda>x m. m\<lparr>MemUsage := x\<rparr>),
      float_field fl ''MetricsPayload'' ''disk_usage'' (\<lambda>x m. m\<lparr>DiskUsage := x\<rparr>),
      int_field in_int64 ''int64'' ''MetricsPayload'' ''timestamp'' (\<lambda>i m. m\<lparr>Timestamp := i\<rparr>)]"

definition decode_payload :: "float_lib \<Rightarrow> error + json \<Rightarrow> error + metrics_payload" where
  "decode_payload fl body =
     bind_err body (\<lambda>j. decode_struct ''main.MetricsPayload'' (payload_fields fl) j zero_payload)"

text \<open>
  The prologue both handlers share: bind the body, refuse a blank machine, stamp a missing or
  non-positive timestamp. The error is the text of the 400 response.
\<close>

definition read_payload :: "float_lib \<Rightarrow> int \<Rightarrow> error + json \<Rightarrow> error + metrics_payload" where
  "read_payload fl nowu body =
     (case decode_payload fl body of
        Inl err \<Rightarrow> Inl err
      | Inr metrics \<Rightarrow>
          if trim_space (MachineID metrics) = [] then Inl (''machine_id '' @ [CHR 0xE4, CHR 0xB8, CHR 0x8D, CHR 0xE8, CHR 0x83, CHR 0xBD, CHR 0xE4, CHR 0xB8, CHR 0xBA, CHR 0xE7, CHR 0xA9, CHR 0xBA])
          else Inr (if Timestamp metrics \<le> 0 then metrics\<lparr>Timestamp := nowu\<rparr> else metrics))"

section \<open>Reading: facts\<close>

lemma read_payload_Inr:
  assumes "read_payload fl nowu body = Inr m" and "0 < nowu" and "in_int64 nowu"
  shows "\<not> blank (MachineID m) \<and> 0 < Timestamp m"
  using assms by (auto simp: read_payload_def split: sum.splits if_splits)

section \<open>Processing: facts\<close>

lemma process_cases:
  obtains (bad_url) err where "url_error sv (VictoriaMetricsURL cfg) = Some err"
    "processMetricsPayload sv st nt cfg clk m w =
       (Some ([CHR 0xE6, CHR 0x9E, CHR 0x84, CHR 0xE9, CHR 0x80, CHR 0xA0] @ ''VM'' @ [CHR 0xE8, CHR 0xAF, CHR 0xB7, CHR 0xE6, CHR 0xB1, CHR 0x82, CHR 0xE5, CHR 0xA4, CHR 0xB1, CHR 0xE8, CHR 0xB4, CHR 0xA5]),
        observeDuration serverMetricsProcessDurationSeconds
          (inc serverVMWritesTotal [''build_request_error''] w))"
  | (failed) w2 r lbl where "url_error sv (VictoriaMetricsURL cfg) = None"
    "w2 = observeDuration serverVMWriteDurationSeconds (snd (http_do sv (vm_request cfg m) w))"
    "case http_reply sv (trace w) (vm_request cfg m) of Inl _ \<Rightarrow> True | Inr resp \<Rightarrow> \<not> is_2xx (StatusCode resp)"
    "r \<noteq> None"
    "processMetricsPayload sv st nt cfg clk m w =
       (r, observeDuration serverMetricsProcessDurationSeconds (inc serverVMWritesTotal [lbl] w2))"
  | (written) w2 resp where "url_error sv (VictoriaMetricsURL cfg) = None"
    "w2 = observeDuration serverVMWriteDurationSeconds (snd (http_do sv (vm_request cfg m) w))"
    "http_reply sv (trace w) (vm_request cfg m) = Inr resp" "is_2xx (StatusCode resp)"
    "processMetricsPayload sv st nt cfg clk m w =
       (None, observeDuration serverMetricsProcessDurationSeconds
          (evaluateCPUAlert sv st nt cfg clk m (inc serverVMWritesTotal [''success''] w2)))"
proof -
  note defs = processMetricsPayload_def process_body_def http_do_def Let_def is_2xx_def
  show ?thesis
  proof (cases "url_error sv (VictoriaMetricsURL cfg)")
    case (Some err)
    then show ?thesis using bad_url by (simp add: defs)
  next
    case ok: None
    show ?thesis
    proof (cases "http_reply sv (trace w) (vm_request cfg m)")
      case (Inl err)
      with ok show ?thesis by (intro failed) (auto simp: defs)
    next
      case (Inr resp)
      show ?thesis
      proof (cases "is_2xx (StatusCode resp)")
        case True
        with ok Inr show ?thesis by (intro written) (auto simp: defs)
      next
        case False
        with ok Inr show ?thesis by (intro failed) (auto simp: defs)
      qed
    qed
  qed
qed

text \<open>The messages written to Kafka.\<close>

definition kafka_messages :: "effect list \<Rightarrow> kafka_message list" where
  "kafka_messages tr = concat (map (\<lambda>e. case e of WriteKafka m \<Rightarrow> [m] | _ \<Rightarrow> []) tr)"

lemma kafka_messages_simps [simp]:
  "kafka_messages [] = []" "kafka_messages (xs @ ys) = kafka_messages xs @ kafka_messages ys"
  "kafka_messages [HttpDo q] = []" "kafka_messages [CreateEvent r] = []"
  "kafka_messages [WriteKafka m] = [m]"
  by (simp_all add: kafka_messages_def)

context notifier_contract
begin

lemma notify_kafka [simp]:
  "kafka_messages (trace (snd (NotifyCPUAlert ops e w))) = kafka_messages (trace w)"
  "kafka_messages (trace (snd (NotifyCPURecovery ops e w))) = kafka_messages (trace w)"
proof -
  have none: "kafka_messages (map HttpDo reqs) = []" for reqs
    by (simp add: kafka_messages_def comp_def)
  show "kafka_messages (trace (snd (NotifyCPUAlert ops e w))) = kafka_messages (trace w)"
    "kafka_messages (trace (snd (NotifyCPURecovery ops e w))) = kafka_messages (trace w)"
    using alert_frame [of e w] recovery_frame [of e w]
    by (auto simp: only_sends_def prod_eq_iff none)
qed

lemma raise_alert_frame [simp]:
  "kafka_messages (trace (raise_alert sv ops cfg m now w)) = kafka_messages (trace w)"
  "name \<noteq> serverAlertNotificationsTotal \<Longrightarrow> name \<noteq> serverAlertEventsSavedTotal \<Longrightarrow>
     counters (raise_alert sv ops cfg m now w) (name, ls) = counters w (name, ls)"
proof -
  obtain r w1 where n: "NotifyCPUAlert ops (p0_event cfg m now) w = (r, w1)"
    by (cases "NotifyCPUAlert ops (p0_event cfg m now) w")
  then have "kafka_messages (trace w1) = kafka_messages (trace w)" "counters w1 = counters w"
    using notify_kafka(1) [of "p0_event cfg m now" w] notify_counters(1) [of "p0_event cfg m now" w]
    by simp_all
  with n show "kafka_messages (trace (raise_alert sv ops cfg m now w)) = kafka_messages (trace w)"
    and "name \<noteq> serverAlertNotificationsTotal \<Longrightarrow> name \<noteq> serverAlertEventsSavedTotal \<Longrightarrow>
      counters (raise_alert sv ops cfg m now w) (name, ls) = counters w (name, ls)"
    by (auto simp: raise_alert_def Let_def split: option.split)
qed

lemma evaluate_frame [simp]:
  "kafka_messages (trace (evaluateCPUAlert sv st ops cfg clk m w)) = kafka_messages (trace w)"
  "name \<noteq> serverAlertNotificationsTotal \<Longrightarrow> name \<noteq> serverAlertEventsSavedTotal \<Longrightarrow>
     counters (evaluateCPUAlert sv st ops cfg clk m w) (name, ls) = counters w (name, ls)"
  by (simp_all add: eval_defs Let_def split: prod.split sum.split option.split)

lemma process_kafka [simp]:
  "kafka_messages (trace (snd (processMetricsPayload sv st ops cfg clk m w))) = kafka_messages (trace w)"
  by (rule process_cases [of sv cfg st ops clk m w]) simp_all

lemma process_ingest_counters [simp]:
  "counters (snd (processMetricsPayload sv st ops cfg clk m w)) (serverIngestRequestsTotal, ls) =
     counters w (serverIngestRequestsTotal, ls)"
  by (rule process_cases [of sv cfg st ops clk m w]) simp_all

lemma process_observed:
  "counters (snd (processMetricsPayload sv st ops cfg clk m w))
     (serverMetricsProcessDurationSeconds, []) =
   Suc (counters w (serverMetricsProcessDurationSeconds, []))"
  by (rule process_cases [of sv cfg st ops clk m w]) simp_all

lemma accounted_observe [simp]:
  "name \<noteq> serverAlertNotificationsTotal \<Longrightarrow> name \<noteq> serverAlertEventsSavedTotal \<Longrightarrow>
     accounted (observeDuration name w) = accounted w"
  by (simp add: observeDuration_def)

lemma accounted_http_do [simp]: "accounted (snd (http_do sv req w)) = accounted w"
  by (simp add: accounted_def rows_of_level_def p0_rows_def counted_saves_def counted_notifications_def)

lemma accounted_process:
  "accounted w \<Longrightarrow> accounted (snd (processMetricsPayload sv st ops cfg clk m w))"
  by (rule process_cases [of sv cfg st ops clk m w]) (simp_all add: accounted_evaluate)

end

text \<open>
  C15. A payload that VictoriaMetrics does not acknowledge is not evaluated: processing returns an
  error exactly when the write request cannot be built, gets no answer, or an answer outside 2xx,
  and then the alert store is untouched, no notification is sent and no row saved.
\<close>

theorem unacknowledged_write_skips_alerting:
  "let (r, w') = processMetricsPayload sv st nt cfg clk m w in
   (r = None \<longleftrightarrow> url_error sv (VictoriaMetricsURL cfg) = None \<and>
      (case http_reply sv (trace w) (vm_request cfg m) of
         Inl _ \<Rightarrow> False | Inr resp \<Rightarrow> is_2xx (StatusCode resp))) \<and>
   (r = None \<or>
      store w' = store w \<and>
      trace w' = trace w @ (if url_error sv (VictoriaMetricsURL cfg) = None
                            then [HttpDo (vm_request cfg m)] else []))"
  by (rule process_cases [of sv cfg st nt clk m w]) (auto split: sum.splits)

section \<open>The lines sent to VictoriaMetrics\<close>

lemma number_texts_clean [simp]:
  "newline \<notin> set (itoa i)" "newline \<notin> set (fmt_fixed p x)"
  "CHR 0x22 \<notin> set (itoa i)" "CHR 0x22 \<notin> set (fmt_fixed p x)"
proof -
  show "newline \<notin> set (itoa i)" by (rule not_in_itoa) (simp_all add: newline_def)
  show "newline \<notin> set (fmt_fixed p x)" by (rule not_in_fmt_fixed) (simp_all add: newline_def)
  show "CHR 0x22 \<notin> set (itoa i)" by (rule not_in_itoa) simp_all
  show "CHR 0x22 \<notin> set (fmt_fixed p x)" by (rule not_in_fmt_fixed) simp_all
qed

lemma count_list_absent: "c \<notin> set s \<Longrightarrow> count_list s c = 0"
  by (simp add: count_list_0_iff)

lemma metric_line_newlines:
  assumes "newline \<notin> set name"
  shows "count_list (metric_line name m v) newline =
    count_list (MachineID m) newline + count_list (IP m) newline"
proof -
  have "newline \<notin> set ''{machine_id=''" "newline \<notin> set '',ip=''" "newline \<notin> set ''} ''"
    "newline \<notin> set '' ''" "newline \<notin> set dq"
    by (simp_all add: newline_def dq_def)
  note absent = this [THEN count_list_absent] assms [THEN count_list_absent]
    number_texts_clean(1,2) [THEN count_list_absent]
  show ?thesis
    unfolding metric_line_def count_list_append absent by simp
qed

lemma names_clean:
  "newline \<notin> set ''host_cpu_usage''" "newline \<notin> set ''host_mem_usage''"
  "newline \<notin> set ''host_disk_usage''"
  by (simp_all add: newline_def)

lemma metric_line_fields:
  assumes "CHR 0x22 \<notin> set name" and "CHR 0x22 \<notin> set (MachineID m)" and "CHR 0x22 \<notin> set (IP m)"
  shows "split_on (CHR 0x22) (metric_line name m v) =
    [name @ ''{machine_id='', MachineID m, '',ip='', IP m,
     ''} '' @ fmt_fixed 2 v @ '' '' @ itoa (wrap64 (Timestamp m * 1000))]"
proof -
  let ?q = "CHR 0x22"
  let ?rest = "''} '' @ fmt_fixed 2 v @ '' '' @ itoa (wrap64 (Timestamp m * 1000))"
  have line: "metric_line name m v =
      (name @ ''{machine_id='') @ ?q # MachineID m @ ?q # '',ip='' @ ?q # IP m @ ?q # ?rest"
    by (simp add: metric_line_def dq_def)
  have rest: "split_on ?q ?rest = [?rest]" by (rule split_on_clean) simp
  have "split_on ?q (IP m @ ?q # ?rest) = [IP m, ?rest]"
    by (subst split_on_append [OF assms(3)]) (simp only: rest)
  then have "split_on ?q ('',ip='' @ ?q # IP m @ ?q # ?rest) = [ '',ip='', IP m, ?rest]"
    by (subst split_on_append) simp_all
  then have "split_on ?q (MachineID m @ ?q # '',ip='' @ ?q # IP m @ ?q # ?rest) =
      [MachineID m, '',ip='', IP m, ?rest]"
    by (subst split_on_append [OF assms(2)]) simp
  then show ?thesis
    unfolding line using assms(1) by (subst split_on_append) simp_all
qed

text \<open>
  C29. What is written for a clean sample: when the machine and IP hold neither a quote nor a line
  break, the body has exactly one line per metric, and cutting a line at its quotes gives back the
  machine, the IP, and the value with the timestamp in milliseconds, exact up to the year 292 million.
\<close>

theorem vm_payload_lines:
  assumes "CHR 0x22 \<notin> set (MachineID m)" and "CHR 0x22 \<notin> set (IP m)"
    and "newline \<notin> set (MachineID m)" and "newline \<notin> set (IP m)"
    and "0 < Timestamp m" and "Timestamp m \<le> 9223372036854775"
  shows "map (split_on (CHR 0x22)) (split_on newline (vm_payload m)) =
    map (\<lambda>(name, v). [name @ ''{machine_id='', MachineID m, '',ip='', IP m,
        ''} '' @ fmt_fixed 2 v @ '' '' @ itoa (Timestamp m * 1000)])
      [(''host_cpu_usage'', CPUUsage m), (''host_mem_usage'', MemUsage m), (''host_disk_usage'', DiskUsage m)]"
proof -
  have ts: "wrap64 (Timestamp m * 1000) = Timestamp m * 1000"
    using assms(5,6) by (simp add: in_int64_def)
  have clean: "newline \<notin> set (metric_line name m v)" if "newline \<notin> set name" for name v
    using metric_line_newlines [OF that, of m v] assms(3,4) by (simp add: count_list_0_iff)
  have "split_on newline (vm_payload m) =
      [metric_line ''host_cpu_usage'' m (CPUUsage m), metric_line ''host_mem_usage'' m (MemUsage m),
       metric_line ''host_disk_usage'' m (DiskUsage m)]"
    using clean names_clean by (simp add: vm_payload_def split_on_append split_on_clean)
  then show ?thesis
    using assms(1,2) by (simp add: metric_line_fields ts)
qed

theorem vm_payload_lines_witness:
  "map (split_on (CHR 0x22)) (split_on newline (vm_payload (example_sample ''a'' 90))) =
    map (\<lambda>(name, v). [name @ ''{machine_id='', ''a'', '',ip='', ''10.0.0.7'',
        ''} '' @ fmt_fixed 2 v @ '' '' @ itoa 1700000000000])
      [(''host_cpu_usage'', Fin 90), (''host_mem_usage'', Fin 40), (''host_disk_usage'', Fin 50)]"
  using vm_payload_lines [of "example_sample ''a'' 90"]
  by (simp add: example_sample_def newline_def)

text \<open>
  Labels are not escaped: every line break a request puts into the machine or the IP adds
  three lines to the text VictoriaMetrics reads, so the body has one line per metric only for
  labels without line breaks.
\<close>

theorem vm_payload_line_count:
  "length (split_on newline (vm_payload m)) =
     3 * (1 + count_list (MachineID m) newline + count_list (IP m) newline)"
  by (simp only: length_split_on vm_payload_def count_list_append
      names_clean [THEN metric_line_newlines]) simp

end
