(* ===== verification/Ingest_Api.thy ===== *)
theory Ingest_Api
  imports Ingest
begin

text \<open>
  The two ingest entries of the server (\<open>main.go\<close>): the handlers of \<open>/api/v1/metrics\<close> and
  \<open>/api/v1/metrics/process\<close>, what each of them touches and counts, and runs that serve a sequence
  of requests. \<open>now\<close> is the instant stamped on a Kafka message.
\<close>

section \<open>The handlers\<close>

definition failure_body :: "error \<Rightarrow> json" where
  "failure_body err = JObj [(''message'', JStr err), (''status'', JStr ''error'')]"

definition ok_body :: json where
  "ok_body = JObj [(''status'', JStr ''ok'')]"

definition handle_process ::
    "float_lib \<Rightarrow> services \<Rightarrow> 's store_ops \<Rightarrow> 's notifier_ops \<Rightarrow> app_config \<Rightarrow> (nat \<Rightarrow> instant) \<Rightarrow>
       int \<Rightarrow> error + json \<Rightarrow> 's server \<Rightarrow> http_result \<times> 's server"
where
  "handle_process fl sv st nt cfg clk nowu body w =
     (let path = ''/api/v1/metrics/process'' in
      case read_payload fl nowu body of
        Inl err \<Rightarrow>
          ((400, error_body err), inc serverIngestRequestsTotal [path, ''process'', ''bad_request''] w)
      | Inr metrics \<Rightarrow>
          (case processMetricsPayload sv st nt cfg clk metrics w of
             (Some err, w1) \<Rightarrow>
               ((500, failure_body err), inc serverIngestRequestsTotal [path, ''process'', ''error''] w1)
           | (None, w1) \<Rightarrow>
               ((200, ok_body), inc serverIngestRequestsTotal [path, ''process'', ''success''] w1)))"

type_synonym 's publish = "metrics_event \<Rightarrow> 's server \<Rightarrow> error option \<times> 's server"

text \<open>The publisher \<^verbatim>\<open>main\<close> installs: none unless the mode is Kafka.\<close>

definition initPublisher ::
    "float_lib \<Rightarrow> services \<Rightarrow> app_config \<Rightarrow> instant \<Rightarrow> 's publish option"
where
  "initPublisher fl sv cfg now =
     (if equal_fold (IngestMode cfg) ''kafka''
      then Some (PublishMetrics fl sv (NewKafkaPublisher (KafkaBrokers cfg) (KafkaTopic cfg)) now)
      else None)"

definition event_of :: "metrics_payload \<Rightarrow> metrics_event" where
  "event_of m =
     \<lparr>pe_MachineID = MachineID m, pe_IP = IP m, pe_CPUUsage = CPUUsage m,
      pe_MemUsage = MemUsage m, pe_DiskUsage = DiskUsage m, pe_Timestamp = Timestamp m\<rparr>"

definition handle_metrics ::
    "float_lib \<Rightarrow> services \<Rightarrow> 's store_ops \<Rightarrow> 's notifier_ops \<Rightarrow> app_config \<Rightarrow> 's publish option \<Rightarrow>
       (nat \<Rightarrow> instant) \<Rightarrow> int \<Rightarrow> error + json \<Rightarrow> 's server \<Rightarrow> http_result \<times> 's server"
where
  "handle_metrics fl sv st nt cfg metricsPublisher clk nowu body w =
     (let path = ''/api/v1/metrics'' in
      case read_payload fl nowu body of
        Inl err \<Rightarrow>
          ((400, error_body err),
           inc serverIngestRequestsTotal [path, IngestMode cfg, ''bad_request''] w)
      | Inr metrics \<Rightarrow>
          if equal_fold (IngestMode cfg) ''kafka'' then
            (case metricsPublisher of
               None \<Rightarrow>
                 ((500, failure_body ''kafka publisher not initialized''),
                  inc serverIngestRequestsTotal [path, ''kafka'', ''error''] w)
             | Some publish \<Rightarrow>
                 (case publish (event_of metrics) w of
                    (Some err, w1) \<Rightarrow>
                      ((500, failure_body ''kafka publish failed''),
                       inc serverIngestRequestsTotal [path, ''kafka'', ''error'']
                         (inc serverKafkaPublishTotal [KafkaTopic cfg, ''error''] w1))
                  | (None, w1) \<Rightarrow>
                      ((202, JObj [(''mode'', JStr ''kafka''), (''status'', JStr ''accepted'')]),
                       inc serverIngestRequestsTotal [path, ''kafka'', ''accepted'']
                         (inc serverKafkaPublishTotal [KafkaTopic cfg, ''success''] w1))))
          else
            (case processMetricsPayload sv st nt cfg clk metrics w of
               (Some err, w1) \<Rightarrow>
                 ((500, failure_body err), inc serverIngestRequestsTotal [path, ''direct'', ''error''] w1)
             | (None, w1) \<Rightarrow>
                 ((200, ok_body), inc serverIngestRequestsTotal [path, ''direct'', ''success''] w1)))"

section \<open>Requests and counters\<close>

definition status_label :: "int \<Rightarrow> string" where
  "status_label code =
     (if code = 400 then ''bad_request'' else if code = 500 then ''error''
      else if code = 202 then ''accepted'' else ''success'')"

text \<open>
  The entry the worker posts to never writes to Kafka, whatever the ingest mode, so a sample
  taken off the queue is never put back on it.
\<close>

theorem process_endpoint_never_publishes:
  "kafka_messages (trace (snd (handle_process fl sv st (notifier_of sv n) cfg clk nowu body w))) =
     kafka_messages (trace w)"
proof (cases "read_payload fl nowu body")
  case (Inr m)
  obtain r w1 where p: "processMetricsPayload sv st (notifier_of sv n) cfg clk m w = (r, w1)"
    by (cases "processMetricsPayload sv st (notifier_of sv n) cfg clk m w")
  have "kafka_messages (trace w1) = kafka_messages (trace w)"
    using configured.process_kafka [of sv st sv n cfg clk m w] p by simp
  with Inr p show ?thesis
    by (cases r) (simp_all add: handle_process_def Let_def)
qed (simp add: handle_process_def Let_def)

text \<open>The three ways a request to \<open>/api/v1/metrics\<close> goes, with the publisher \<^verbatim>\<open>main\<close> installs.\<close>

lemma metrics_cases:
  obtains (refused) err where "read_payload fl nowu body = Inl err"
    "handle_metrics fl sv st nt cfg (initPublisher fl sv cfg now) clk nowu body w =
       ((400, error_body err),
        inc serverIngestRequestsTotal [''/api/v1/metrics'', IngestMode cfg, ''bad_request''] w)"
  | (queued) m r w1 reply where "read_payload fl nowu body = Inr m"
    "equal_fold (IngestMode cfg) ''kafka''"
    "PublishMetrics fl sv (NewKafkaPublisher (KafkaBrokers cfg) (KafkaTopic cfg)) now (event_of m) w = (r, w1)"
    "handle_metrics fl sv st nt cfg (initPublisher fl sv cfg now) clk nowu body w =
       ((if r = None then 202 else 500, reply),
        inc serverIngestRequestsTotal
          [''/api/v1/metrics'', ''kafka'', if r = None then ''accepted'' else ''error'']
          (inc serverKafkaPublishTotal [KafkaTopic cfg, if r = None then ''success'' else ''error''] w1))"
  | (direct) m r w1 where "read_payload fl nowu body = Inr m"
    "\<not> equal_fold (IngestMode cfg) ''kafka''"
    "processMetricsPayload sv st nt cfg clk m w = (r, w1)"
    "handle_metrics fl sv st nt cfg (initPublisher fl sv cfg now) clk nowu body w =
       (case r of Some err \<Rightarrow> (500, failure_body err) | None \<Rightarrow> (200, ok_body),
        inc serverIngestRequestsTotal
          [''/api/v1/metrics'', ''direct'', if r = None then ''success'' else ''error''] w1)"
proof (cases "read_payload fl nowu body")
  case (Inl err)
  then show ?thesis by (intro refused) (simp_all add: handle_metrics_def Let_def)
next
  case read: (Inr m)
  let ?k = "NewKafkaPublisher (KafkaBrokers cfg) (KafkaTopic cfg)"
  show ?thesis
  proof (cases "equal_fold (IngestMode cfg) ''kafka''")
    case True
    obtain r w1 where p: "PublishMetrics fl sv ?k now (event_of m) w = (r, w1)"
      by (cases "PublishMetrics fl sv ?k now (event_of m) w")
    have "handle_metrics fl sv st nt cfg (initPublisher fl sv cfg now) clk nowu body w =
      ((if r = None then 202 else 500,
        if r = None then JObj [(''mode'', JStr ''kafka''), (''status'', JStr ''accepted'')]
        else failure_body ''kafka publish failed''),
       inc serverIngestRequestsTotal
         [''/api/v1/metrics'', ''kafka'', if r = None then ''accepted'' else ''error'']
         (inc serverKafkaPublishTotal [KafkaTopic cfg, if r = None then ''success'' else ''error''] w1))"
      by (cases r) (simp_all add: handle_metrics_def initPublisher_def Let_def read True p)
    then show ?thesis by (rule queued [OF read True p])
  next
    case False
    obtain r w1 where p: "processMetricsPayload sv st nt cfg clk m w = (r, w1)"
      by (cases "processMetricsPayload sv st nt cfg clk m w")
    show ?thesis
      by (rule direct [OF read False p])
        (cases r; simp add: handle_metrics_def read False p Let_def)
  qed
qed

text \<open>
  In Kafka mode a request to \<open>/api/v1/metrics\<close> only publishes: the alert store, VictoriaMetrics,
  the notifier and the alert table are not touched, at most one message is written, keyed by the
  machine, and the answer is 202 exactly when one was written and the broker accepted it.
\<close>

theorem kafka_mode_only_publishes:
  assumes "equal_fold (IngestMode cfg) ''kafka''"
  shows "let ((code, reply), w') =
      handle_metrics fl sv st nt cfg (initPublisher fl sv cfg now) clk nowu body w in
    store w' = store w \<and>
    (\<exists>msgs. trace w' = trace w @ map WriteKafka msgs \<and> length msgs \<le> 1) \<and>
    (code = 202 \<longleftrightarrow> (\<exists>msg. trace w' = trace w @ [WriteKafka msg] \<and> kafka_write sv (trace w) msg = None))"
proof (rule metrics_cases [of fl nowu body sv st nt cfg now clk w])
  fix err assume "read_payload fl nowu body = Inl err"
    "handle_metrics fl sv st nt cfg (initPublisher fl sv cfg now) clk nowu body w =
       ((400, error_body err),
        inc serverIngestRequestsTotal [''/api/v1/metrics'', IngestMode cfg, ''bad_request''] w)"
  then show ?thesis by (auto intro: exI [of _ "[]"])
next
  fix m r w1 reply
  let ?publish = "PublishMetrics fl sv (NewKafkaPublisher (KafkaBrokers cfg) (KafkaTopic cfg)) now"
  assume p: "?publish (event_of m) w = (r, w1)"
    and h: "handle_metrics fl sv st nt cfg (initPublisher fl sv cfg now) clk nowu body w =
       ((if r = None then 202 else 500, reply),
        inc serverIngestRequestsTotal
          [''/api/v1/metrics'', ''kafka'', if r = None then ''accepted'' else ''error'']
          (inc serverKafkaPublishTotal [KafkaTopic cfg, if r = None then ''success'' else ''error''] w1))"
  have "r = None \<longleftrightarrow> (\<exists>msg. trace w1 = trace w @ [WriteKafka msg] \<and> kafka_write sv (trace w) msg = None)"
    using p by (auto simp: PublishMetrics_def kafka_do_def split: sum.splits)
  with kafka.publish_frame [OF p] show ?thesis unfolding h by auto
next
  assume "\<not> equal_fold (IngestMode cfg) ''kafka''"
  with assms show ?thesis by simp
qed

theorem kafka_mode_only_publishes_witness:
  "let ((code, reply), w') = handle_metrics example_floats (example_services 200) memory_store noop_notifier
      (loadConfig example_floats [''INGEST_MODE'' \<mapsto> ''Kafka''])
      (initPublisher example_floats (example_services 200)
         (loadConfig example_floats [''INGEST_MODE'' \<mapsto> ''Kafka'']) 0) (\<lambda>_. 0) 1
      (Inr (JObj [(''machine_id'', JStr ''a'')])) (start_server NewMemoryAlertStateStore) in
    store w' = NewMemoryAlertStateStore \<and>
    (\<exists>msgs. trace w' = [] @ map WriteKafka msgs \<and> length msgs \<le> 1) \<and>
    (code = 202 \<longleftrightarrow> (\<exists>msg. trace w' = [] @ [WriteKafka msg] \<and>
       kafka_write (example_services 200) [] msg = None))"
proof -
  have "equal_fold (IngestMode (loadConfig example_floats [''INGEST_MODE'' \<mapsto> ''Kafka''])) ''kafka''"
    unfolding loadConfig_def by code_simp
  from kafka_mode_only_publishes [OF this, of example_floats "example_services 200" memory_store
      noop_notifier 0 "\<lambda>_. 0" 1 "Inr (JObj [(''machine_id'', JStr ''a'')])"
      "start_server NewMemoryAlertStateStore"]
  show ?thesis by (simp add: start_server_def Let_def)
qed

section \<open>Serving\<close>

text \<open>A request to one of the two entries, with the instants its handler reads.\<close>

datatype entry = Metrics | Process

record ingest_request =
  rq_entry :: entry
  rq_clock :: "nat \<Rightarrow> instant"
  rq_unix :: int
  rq_now :: instant
  rq_body :: "error + json"

definition serve_one ::
    "float_lib \<Rightarrow> services \<Rightarrow> 's store_ops \<Rightarrow> 's notifier_ops \<Rightarrow> app_config \<Rightarrow> ingest_request \<Rightarrow>
       's server \<Rightarrow> http_result \<times> 's server"
where
  "serve_one fl sv st nt cfg q =
     (case rq_entry q of
        Metrics \<Rightarrow> handle_metrics fl sv st nt cfg (initPublisher fl sv cfg (rq_now q))
                    (rq_clock q) (rq_unix q) (rq_body q)
      | Process \<Rightarrow> handle_process fl sv st nt cfg (rq_clock q) (rq_unix q) (rq_body q))"

fun serve ::
    "float_lib \<Rightarrow> services \<Rightarrow> 's store_ops \<Rightarrow> 's notifier_ops \<Rightarrow> app_config \<Rightarrow> ingest_request list \<Rightarrow>
       's server \<Rightarrow> http_result list \<times> 's server"
where
  "serve fl sv st nt cfg [] w = ([], w)"
| "serve fl sv st nt cfg (q # qs) w =
     (let (r, w1) = serve_one fl sv st nt cfg q w;
          (rs, w2) = serve fl sv st nt cfg qs w1
      in (r # rs, w2))"

subsection \<open>Every request is counted once\<close>

definition path_of :: "entry \<Rightarrow> string" where
  "path_of e = (case e of Metrics \<Rightarrow> ''/api/v1/metrics'' | Process \<Rightarrow> ''/api/v1/metrics/process'')"

text \<open>The mode label: the configured text for a refused body, the branch taken otherwise.\<close>

definition mode_label :: "app_config \<Rightarrow> entry \<Rightarrow> int \<Rightarrow> string" where
  "mode_label cfg e code =
     (case e of
        Process \<Rightarrow> ''process''
      | Metrics \<Rightarrow> if code = 400 then IngestMode cfg
                  else if equal_fold (IngestMode cfg) ''kafka'' then ''kafka'' else ''direct'')"

abbreviation ingest_series :: "app_config \<Rightarrow> ingest_request \<Rightarrow> int \<Rightarrow> series" where
  "ingest_series cfg q code \<equiv>
     (serverIngestRequestsTotal, [path_of (rq_entry q), mode_label cfg (rq_entry q) code, status_label code])"

lemma serve_one_counted:
  "let (r, w') = serve_one fl sv st (notifier_of sv n) cfg q w in
   fst r \<in> {200, 202, 400, 500} \<and>
   (\<forall>ls. counters w' (serverIngestRequestsTotal, ls) =
      counters w (serverIngestRequestsTotal, ls) +
        (if ls = snd (ingest_series cfg q (fst r)) then 1 else 0))"
proof (cases "rq_entry q")
  case Process
  let ?p = "\<lambda>m. processMetricsPayload sv st (notifier_of sv n) cfg (rq_clock q) m w"
  have kept: "counters (snd (?p m)) (serverIngestRequestsTotal, ls) =
      counters w (serverIngestRequestsTotal, ls)" for m ls
    by simp
  show ?thesis
    using Process kept
    by (auto simp: serve_one_def handle_process_def path_of_def mode_label_def status_label_def Let_def
        prod_eq_iff split: sum.split prod.split option.split)
next
  case Metrics
  let ?h = "handle_metrics fl sv st (notifier_of sv n) cfg (initPublisher fl sv cfg (rq_now q))
      (rq_clock q) (rq_unix q) (rq_body q) w"
  have one: "serve_one fl sv st (notifier_of sv n) cfg q w = ?h"
    by (simp add: serve_one_def Metrics)
  note labels = path_of_def mode_label_def status_label_def Metrics
  show ?thesis
    unfolding one
  proof (rule metrics_cases [of fl "rq_unix q" "rq_body q" sv st "notifier_of sv n" cfg "rq_now q" "rq_clock q" w])
    fix m r w1 reply
    assume "PublishMetrics fl sv (NewKafkaPublisher (KafkaBrokers cfg) (KafkaTopic cfg)) (rq_now q)
        (event_of m) w = (r, w1)"
    then have "counters w1 = counters w" by (rule kafka.publish_frame [THEN conjunct2, THEN conjunct1])
    moreover assume "equal_fold (IngestMode cfg) ''kafka''" "?h = ((if r = None then 202 else 500, reply),
        inc serverIngestRequestsTotal
          [''/api/v1/metrics'', ''kafka'', if r = None then ''accepted'' else ''error'']
          (inc serverKafkaPublishTotal [KafkaTopic cfg, if r = None then ''success'' else ''error''] w1))"
    ultimately show "let (r, w') = ?h in fst r \<in> {200, 202, 400, 500} \<and>
       (\<forall>ls. counters w' (serverIngestRequestsTotal, ls) =
          counters w (serverIngestRequestsTotal, ls) +
            (if ls = snd (ingest_series cfg q (fst r)) then 1 else 0))"
      by (auto simp: labels)
  next
    fix m r w1
    assume p: "processMetricsPayload sv st (notifier_of sv n) cfg (rq_clock q) m w = (r, w1)"
    have "counters w1 (serverIngestRequestsTotal, ls) = counters w (serverIngestRequestsTotal, ls)" for ls
      using configured.process_ingest_counters [of sv st sv n cfg "rq_clock q" m w ls] p by simp
    moreover assume "\<not> equal_fold (IngestMode cfg) ''kafka''"
      "?h = (case r of Some err \<Rightarrow> (500, failure_body err) | None \<Rightarrow> (200, ok_body),
        inc serverIngestRequestsTotal
          [''/api/v1/metrics'', ''direct'', if r = None then ''success'' else ''error''] w1)"
    ultimately show "let (r, w') = ?h in fst r \<in> {200, 202, 400, 500} \<and>
       (\<forall>ls. counters w' (serverIngestRequestsTotal, ls) =
          counters w (serverIngestRequestsTotal, ls) +
            (if ls = snd (ingest_series cfg q (fst r)) then 1 else 0))"
      by (cases r) (auto simp: labels)
  qed (auto simp: labels)
qed

text \<open>
  C16. Every request to either entry is answered with 200, 202, 400 or 500 and counted once, in the
  series of its path, mode and outcome: over any run the value of a series grows by the number of
  requests that ended in it.
\<close>

theorem served_requests_counted:
  "let (rs, w') = serve fl sv st (notifier_of sv n) cfg qs w in
   length rs = length qs \<and> fst ` set rs \<subseteq> {200, 202, 400, 500} \<and>
   counters w' (serverIngestRequestsTotal, ls) =
     counters w (serverIngestRequestsTotal, ls) +
     count_where (\<lambda>(q, r). ingest_series cfg q (fst r) = (serverIngestRequestsTotal, ls)) (zip qs rs)"
proof (induction qs arbitrary: w)
  case (Cons q qs)
  obtain r w1 where one: "serve_one fl sv st (notifier_of sv n) cfg q w = (r, w1)"
    by (cases "serve_one fl sv st (notifier_of sv n) cfg q w")
  obtain rs w2 where rest: "serve fl sv st (notifier_of sv n) cfg qs w1 = (rs, w2)"
    by (cases "serve fl sv st (notifier_of sv n) cfg qs w1")
  from serve_one_counted [of fl sv st n cfg q w] Cons.IH [of w1] show ?case
    by (auto simp: one rest)
qed simp

section \<open>The counters agree with the alert table\<close>

lemma accounted_trace:
  "saved_events tr = saved_events (trace w) \<Longrightarrow> accounted (w\<lparr>trace := tr\<rparr>) = accounted w"
  by (simp add: accounted_def rows_of_level_def p0_rows_def counted_saves_def counted_notifications_def)

lemma accounted_cong:
  "saved_events (trace w') = saved_events (trace w) \<Longrightarrow> counters w' = counters w \<Longrightarrow>
     accounted w' = accounted w"
  by (simp add: accounted_def rows_of_level_def p0_rows_def counted_saves_def counted_notifications_def)

lemma accounted_serve_one:
  assumes "accounted w"
  shows "accounted (snd (serve_one fl sv st (notifier_of sv n) cfg q w))"
proof (cases "rq_entry q")
  case Process
  have "accounted (snd (processMetricsPayload sv st (notifier_of sv n) cfg (rq_clock q) m w))" for m
    using assms by (rule configured.accounted_process)
  with assms Process show ?thesis
    by (auto simp: serve_one_def handle_process_def Let_def prod_eq_iff split: sum.split prod.split option.split)
next
  case Metrics
  let ?h = "handle_metrics fl sv st (notifier_of sv n) cfg (initPublisher fl sv cfg (rq_now q))
      (rq_clock q) (rq_unix q) (rq_body q) w"
  have "accounted (snd ?h)"
  proof (rule metrics_cases [of fl "rq_unix q" "rq_body q" sv st "notifier_of sv n" cfg "rq_now q" "rq_clock q" w])
    fix m r w1
    assume "PublishMetrics fl sv (NewKafkaPublisher (KafkaBrokers cfg) (KafkaTopic cfg)) (rq_now q)
        (event_of m) w = (r, w1)"
    then have "accounted w1"
      using assms kafka.publish_simps kafka.publish_no_rows by (metis accounted_cong snd_conv)
    moreover fix reply
    assume "?h = ((if r = None then 202 else 500, reply),
        inc serverIngestRequestsTotal
          [''/api/v1/metrics'', ''kafka'', if r = None then ''accepted'' else ''error'']
          (inc serverKafkaPublishTotal [KafkaTopic cfg, if r = None then ''success'' else ''error''] w1))"
    ultimately show "accounted (snd ?h)" by simp
  next
    fix m r w1
    assume "processMetricsPayload sv st (notifier_of sv n) cfg (rq_clock q) m w = (r, w1)"
    with configured.accounted_process [OF assms, of sv st sv n cfg "rq_clock q" m] have "accounted w1" by simp
    moreover assume "?h = (case r of Some err \<Rightarrow> (500, failure_body err) | None \<Rightarrow> (200, ok_body),
        inc serverIngestRequestsTotal
          [''/api/v1/metrics'', ''direct'', if r = None then ''success'' else ''error''] w1)"
    ultimately show "accounted (snd ?h)" by simp
  qed (use assms in simp)
  then show ?thesis by (simp add: serve_one_def Metrics)
qed

lemma accounted_serve:
  "accounted w \<Longrightarrow> accounted (snd (serve fl sv st (notifier_of sv n) cfg qs w))"
proof (induction qs arbitrary: w)
  case (Cons q qs)
  from accounted_serve_one [OF Cons.prems, of fl sv st n cfg q]
  have "accounted (snd (serve fl sv st (notifier_of sv n) cfg qs (snd (serve_one fl sv st (notifier_of sv n) cfg q w))))"
    by (rule Cons.IH)
  then show ?case by (simp add: prod.case_eq_if Let_def)
qed simp

lemma accounted_fresh: "accounted (start_server s)"
  by (simp add: accounted_def start_server_def rows_of_level_def p0_rows_def counted_saves_def
      counted_notifications_def)

text \<open>
  The alert counters agree with the alert table: after any requests to either entry, from a
  fresh server, the P0 notifications counted under a status (\<open>sent\<close>, \<open>failed\<close>) are as many as the
  P0 rows with that status the server tried to save, and the saves counted for a level are the
  rows of that level.
\<close>

theorem served_alerts_accounted:
  "let w' = snd (serve fl sv st (notifier_of sv n) cfg qs (start_server s)) in
   counters w' (serverAlertNotificationsTotal, [''P0'', nst]) =
     count_where (\<lambda>r. rec_Level r = ''P0'' \<and> rec_NotifyStatus r = nst) (saved_events (trace w')) \<and>
   counters w' (serverAlertEventsSavedTotal, [lvl, ''success'']) +
   counters w' (serverAlertEventsSavedTotal, [lvl, ''failed'']) =
     count_where (\<lambda>r. rec_Level r = lvl) (saved_events (trace w'))"
proof -
  from accounted_serve [OF accounted_fresh, of fl sv st n cfg qs] show ?thesis
    by (simp add: accounted_def rows_of_level_def p0_rows_def counted_saves_def counted_notifications_def Let_def)
qed

end
