(* ===== verification/Cmd_Env.thy ===== *)
theory Cmd_Env
  imports Config
begin

text \<open>
  Reading the environment in the programs beside the server. \<open>os.Getenv\<close> gives the empty text for
  an unset variable; the worker, the operator and the assistant trim what they read, so a blank
  variable counts as unset.
\<close>

definition os_getenv :: "environ \<Rightarrow> string \<Rightarrow> string" where
  "os_getenv env key = (case env key of Some v \<Rightarrow> v | None \<Rightarrow> [])"

definition trimmed_env :: "environ \<Rightarrow> string \<Rightarrow> string \<Rightarrow> string" where
  "trimmed_env env key defaultValue =
     (let value = trim_space (os_getenv env key) in if value \<noteq> [] then value else defaultValue)"

definition trimmed_int :: "environ \<Rightarrow> string \<Rightarrow> int \<Rightarrow> int" where
  "trimmed_int env key defaultValue =
     (let value = trim_space (os_getenv env key) in
      if value = [] then defaultValue
      else case atoi value of Inl err \<Rightarrow> defaultValue | Inr parsed \<Rightarrow> parsed)"

text \<open>A table of spellings, given as the words for true and the words for false.\<close>

definition bool_words :: "string list \<Rightarrow> string list \<Rightarrow> string \<Rightarrow> bool \<Rightarrow> bool" where
  "bool_words yes no v defaultValue =
     (if v \<in> set yes then True else if v \<in> set no then False else defaultValue)"

lemma trimmed_env_cases:
  "trimmed_env env key d = d \<or> (trim_space (trimmed_env env key d) = trimmed_env env key d \<and>
     trimmed_env env key d \<noteq> [])"
  by (auto simp: trimmed_env_def Let_def)

lemma trimmed_env_trim:
  "env key = Some v \<Longrightarrow> \<not> blank v \<Longrightarrow> trimmed_env env key d = trim_space v"
  by (simp add: trimmed_env_def os_getenv_def Let_def)

lemma trimmed_env_unset: "env key = None \<Longrightarrow> trimmed_env env key d = d"
  by (simp add: trimmed_env_def os_getenv_def Let_def)

lemma trimmed_int_range: "in_int64 d \<Longrightarrow> in_int64 (trimmed_int env key d)"
  by (auto simp: trimmed_int_def Let_def atoi_in_int64 split: sum.split)

lemma trimmed_int_itoa:
  "env key = Some v \<Longrightarrow> trim_space v = itoa i \<Longrightarrow> in_int64 i \<Longrightarrow> trimmed_int env key d = i"
  by (simp add: trimmed_int_def os_getenv_def)

end
