(* ===== verification/Worker.thy ===== *)
theory Worker
  imports Server_World Cmd_Env
begin

text \<open>
  The worker (\<open>cmd/worker\<close>): it takes one message at a time off the Kafka topic and forwards the
  sample in it to the server's process endpoint.

  One pass of the loop is \<open>worker_step\<close>; what \<^verbatim>\<open>ReadMessage\<close> returned is its argument and the answers
  of the server are the record \<open>forward_target\<close>. A run is the fold of the step over the sequence of
  read results. The state is the requests sent, the Prometheus series of \<open>worker_metrics.go\<close> and the
  time slept; log lines and trace spans are not part of it.
\<close>

section \<open>Configuration\<close>

definition worker_getEnv :: "environ \<Rightarrow> string \<Rightarrow> string \<Rightarrow> string" where
  "worker_getEnv env key defaultValue =
     (let v = trim_space (os_getenv env key) in if v = [] then defaultValue else v)"

definition worker_getEnvAsBool :: "(string \<Rightarrow> string) \<Rightarrow> environ \<Rightarrow> string \<Rightarrow> bool \<Rightarrow> bool" where
  "worker_getEnvAsBool uni env key defaultValue =
     (let v = worker_getEnv env key [] in
      if v = [] then defaultValue
      else bool_words [''1'', ''true'', ''t'', ''yes'', ''y'', ''on'']
             [''0'', ''false'', ''f'', ''no'', ''n'', ''off''] (to_lower uni v) defaultValue)"

record worker_config =
  wc_brokers :: string
  wc_topic :: string
  wc_groupID :: string
  wc_processURL :: string
  wc_otelEnabled :: bool
  wc_otelServiceName :: string
  wc_otelEndpoint :: string
  wc_metricsPort :: string

definition worker_loadConfig :: "(string \<Rightarrow> string) \<Rightarrow> environ \<Rightarrow> worker_config" where
  "worker_loadConfig uni env =
     \<lparr>wc_brokers = worker_getEnv env ''KAFKA_BROKERS'' ''localhost:9092'',
      wc_topic = worker_getEnv env ''KAFKA_TOPIC'' ''cloudops.metrics'',
      wc_groupID = worker_getEnv env ''KAFKA_GROUP_ID'' ''cloudops-worker'',
      wc_processURL = worker_getEnv env ''WORKER_PROCESS_TARGET_URL''
        ''http://localhost:8080/api/v1/metrics/process'',
      wc_otelEnabled = worker_getEnvAsBool uni env ''OTEL_ENABLED'' False,
      wc_otelServiceName = worker_getEnv env ''OTEL_SERVICE_NAME'' ''cloudops-worker'',
      wc_otelEndpoint = worker_getEnv env ''OTEL_EXPORTER_OTLP_ENDPOINT'' ''localhost:4317'',
      wc_metricsPort = worker_getEnv env ''WORKER_METRICS_PORT'' ''9091''\<rparr>"

section \<open>The event\<close>

record worker_event =
  wev_MachineID :: string
  wev_IP :: string
  wev_CPUUsage :: float64
  wev_MemUsage :: float64
  wev_DiskUsage :: float64
  wev_Timestamp :: int

definition zero_event :: worker_event where
  "zero_event =
     \<lparr>wev_MachineID = [], wev_IP = [], wev_CPUUsage = Fin 0, wev_MemUsage = Fin 0,
      wev_DiskUsage = Fin 0, wev_Timestamp = 0\<rparr>"

definition event_fields :: "float_lib \<Rightarrow> (string \<times> worker_event setter) list" where
  "event_fields fl =
     [string_field ''metricsEvent'' ''MachineID'' (\<lambda>s e. e\<lparr>wev_MachineID := s\<rparr>),
      string_field ''metricsEvent'' ''IP'' (\<lambda>s e. e\<lparr>wev_IP := s\<rparr>),
      float_field fl ''metricsEvent'' ''CPUUsage'' (\<lambda>x e. e\<lparr>wev_CPUUsage := x\<rparr>),
      float_field fl ''metricsEvent'' ''MemUsage'' (\<lambda>x e. e\<lparr>wev_MemUsage := x\<rparr>),
      float_field fl ''metricsEvent'' ''DiskUsage'' (\<lambda>x e. e\<lparr>wev_DiskUsage := x\<rparr>),
      int_field in_int64 ''int64'' ''metricsEvent'' ''Timestamp'' (\<lambda>i e. e\<lparr>wev_Timestamp := i\<rparr>)]"

definition decode_event :: "float_lib \<Rightarrow> error + json \<Rightarrow> error + worker_event" where
  "decode_event fl val =
     bind_err val (\<lambda>j. decode_struct ''main.metricsEvent'' (event_fields fl) j zero_event)"

text \<open>
  The body of the forwarded request. \<^verbatim>\<open>json.Marshal\<close> writes a map in the order of its keys; its
  error is discarded, which leaves an empty body.
\<close>

definition forward_body :: "float_lib \<Rightarrow> worker_event \<Rightarrow> http_body" where
  "forward_body fl e =
     (case bind_err (encode_float fl (wev_CPUUsage e)) (\<lambda>cpu.
           bind_err (encode_float fl (wev_DiskUsage e)) (\<lambda>disk.
           bind_err (encode_float fl (wev_MemUsage e)) (\<lambda>mem.
             Inr (JObj
               [(''cpu_usage'', cpu), (''disk_usage'', disk), (''ip'', JStr (wev_IP e)),
                (''machine_id'', JStr (wev_MachineID e)), (''mem_usage'', mem),
                (''timestamp'', encode_int (wev_Timestamp e))])))) of
        Inl err \<Rightarrow> TextBody []
      | Inr j \<Rightarrow> JsonBody j)"

section \<open>The state and the outside\<close>

record worker =
  forwarded :: "http_request list"
  worker_counters :: "series \<Rightarrow> nat"
  paused :: duration

text \<open>
  \<open>target_error\<close> is the error of \<^verbatim>\<open>http.NewRequestWithContext\<close>, \<open>target_reply\<close> the status the server
  answers with, a function of what was forwarded before, and \<open>propagated\<close> what the trace propagator
  injects into a request for a message with the given headers.
\<close>

record forward_target =
  target_error :: "string \<Rightarrow> error option"
  target_reply :: "http_request list \<Rightarrow> http_request \<Rightarrow> error + int"
  propagated :: "(string \<times> string) list \<Rightarrow> (string \<times> string) list"

definition workerKafkaMessagesTotal :: string where
  "workerKafkaMessagesTotal = ''cloudops_worker_kafka_messages_total''"

definition workerForwardTotal :: string where
  "workerForwardTotal = ''cloudops_worker_forward_total''"

definition workerForwardDurationSeconds :: string where
  "workerForwardDurationSeconds = ''cloudops_worker_forward_duration_seconds''"

definition workerProcessingDurationSeconds :: string where
  "workerProcessingDurationSeconds = ''cloudops_worker_processing_duration_seconds''"

definition worker_inc :: "string \<Rightarrow> string list \<Rightarrow> worker \<Rightarrow> worker" where
  "worker_inc name labels w =
     w\<lparr>worker_counters := (worker_counters w)((name, labels) := Suc (worker_counters w (name, labels)))\<rparr>"

definition observeWorkerDuration :: "string \<Rightarrow> worker \<Rightarrow> worker" where
  "observeWorkerDuration name w = worker_inc name [] w"

definition start_worker :: worker where
  "start_worker = \<lparr>forwarded = [], worker_counters = (\<lambda>_. 0), paused = 0\<rparr>"

section \<open>One pass of the loop\<close>

definition forward_request ::
    "float_lib \<Rightarrow> forward_target \<Rightarrow> worker_config \<Rightarrow> kafka_message \<Rightarrow> worker_event \<Rightarrow> http_request"
where
  "forward_request fl tg cfg msg event =
     \<lparr>req_method = ''POST'', req_url = wc_processURL cfg,
      req_headers = (''Content-Type'', ''application/json'') # propagated tg (msg_Headers msg),
      req_body = forward_body fl event\<rparr>"

text \<open>The pass from the request on, for an event that could be decoded.\<close>

definition forward_event ::
    "float_lib \<Rightarrow> forward_target \<Rightarrow> worker_config \<Rightarrow> kafka_message \<Rightarrow> worker_event \<Rightarrow> worker \<Rightarrow> worker"
where
  "forward_event fl tg cfg msg event w =
     (case target_error tg (wc_processURL cfg) of
        Some err \<Rightarrow>
          worker_inc workerForwardTotal [''build_request_error'']
            (observeWorkerDuration workerProcessingDurationSeconds w)
      | None \<Rightarrow>
          (let req = forward_request fl tg cfg msg event;
               reply = target_reply tg (forwarded w) req;
               w1 = observeWorkerDuration workerForwardDurationSeconds
                      (w\<lparr>forwarded := forwarded w @ [req]\<rparr>)
           in case reply of
                Inl err \<Rightarrow>
                  worker_inc workerForwardTotal [''error'']
                    (observeWorkerDuration workerProcessingDurationSeconds w1)
              | Inr code \<Rightarrow>
                  if code < 200 \<or> code \<ge> 300 then
                    worker_inc workerForwardTotal [''non_2xx'']
                      (observeWorkerDuration workerProcessingDurationSeconds w1)
                  else
                    observeWorkerDuration workerProcessingDurationSeconds
                      (worker_inc workerForwardTotal [''success''] w1)))"

definition worker_step ::
    "float_lib \<Rightarrow> forward_target \<Rightarrow> worker_config \<Rightarrow> error + kafka_message \<Rightarrow> worker \<Rightarrow> worker"
where
  "worker_step fl tg cfg read w =
     (case read of
        Inl err \<Rightarrow>
          (worker_inc workerKafkaMessagesTotal [wc_topic cfg, ''read_error''] w)
            \<lparr>paused := paused w + seconds 1\<rparr>
      | Inr msg \<Rightarrow>
          (let w1 = worker_inc workerKafkaMessagesTotal [wc_topic cfg, ''read''] w in
           case decode_event fl (msg_Value msg) of
             Inl err \<Rightarrow>
               worker_inc workerKafkaMessagesTotal [wc_topic cfg, ''decode_error'']
                 (observeWorkerDuration workerProcessingDurationSeconds w1)
           | Inr event \<Rightarrow> forward_event fl tg cfg msg event w1))"

fun worker_run ::
    "float_lib \<Rightarrow> forward_target \<Rightarrow> worker_config \<Rightarrow> (error + kafka_message) list \<Rightarrow> worker \<Rightarrow> worker"
where
  "worker_run fl tg cfg [] w = w"
| "worker_run fl tg cfg (r # rs) w = worker_run fl tg cfg rs (worker_step fl tg cfg r w)"

section \<open>Facts\<close>

lemmas worker_names =
  workerKafkaMessagesTotal_def workerForwardTotal_def workerForwardDurationSeconds_def
  workerProcessingDurationSeconds_def

lemma worker_names_distinct:
  "distinct [workerKafkaMessagesTotal, workerForwardTotal, workerForwardDurationSeconds,
     workerProcessingDurationSeconds]"
  by (simp add: worker_names)

lemmas worker_neq [simp] =
  worker_names_distinct [simplified, unfolded conj_assoc]

lemma worker_neq_sym [simp]:
  "workerForwardTotal \<noteq> workerKafkaMessagesTotal"
  "workerForwardDurationSeconds \<noteq> workerKafkaMessagesTotal"
  "workerProcessingDurationSeconds \<noteq> workerKafkaMessagesTotal"
  "workerForwardDurationSeconds \<noteq> workerForwardTotal"
  "workerProcessingDurationSeconds \<noteq> workerForwardTotal"
  "workerProcessingDurationSeconds \<noteq> workerForwardDurationSeconds"
  by (simp_all add: worker_names)

lemma worker_inc_simps [simp]:
  "forwarded (worker_inc n ls w) = forwarded w"
  "paused (worker_inc n ls w) = paused w"
  "worker_counters (worker_inc n ls w) =
     (worker_counters w)((n, ls) := Suc (worker_counters w (n, ls)))"
  by (simp_all add: worker_inc_def)

lemma observeWorkerDuration_simps [simp]:
  "forwarded (observeWorkerDuration n w) = forwarded w"
  "paused (observeWorkerDuration n w) = paused w"
  "worker_counters (observeWorkerDuration n w) =
     (worker_counters w)((n, []) := Suc (worker_counters w (n, [])))"
  by (simp_all add: observeWorkerDuration_def)

text \<open>The books of the worker: every message and every request has exactly one outcome.\<close>

definition forward_count :: "string \<Rightarrow> worker \<Rightarrow> nat" where
  "forward_count outcome w = worker_counters w (workerForwardTotal, [outcome])"

definition message_count :: "worker_config \<Rightarrow> string \<Rightarrow> worker \<Rightarrow> nat" where
  "message_count cfg status w = worker_counters w (workerKafkaMessagesTotal, [wc_topic cfg, status])"

definition balanced :: "worker_config \<Rightarrow> worker \<Rightarrow> bool" where
  "balanced cfg w \<longleftrightarrow>
     message_count cfg ''read'' w =
       message_count cfg ''decode_error'' w + forward_count ''build_request_error'' w +
       forward_count ''error'' w + forward_count ''non_2xx'' w + forward_count ''success'' w \<and>
     worker_counters w (workerProcessingDurationSeconds, []) = message_count cfg ''read'' w \<and>
     length (forwarded w) =
       forward_count ''error'' w + forward_count ''non_2xx'' w + forward_count ''success'' w \<and>
     worker_counters w (workerForwardDurationSeconds, []) = length (forwarded w) \<and>
     paused w = int (message_count cfg ''read_error'' w) * nanos_per_second"

lemma seconds_one: "seconds 1 = nanos_per_second"
  by (simp add: seconds_exact)

lemma balanced_start: "balanced cfg start_worker"
  by (simp add: balanced_def start_worker_def message_count_def forward_count_def)

lemmas book_defs = balanced_def message_count_def forward_count_def

lemma balanced_step:
  assumes "balanced cfg w"
  shows "balanced cfg (worker_step fl tg cfg r w)"
proof (cases r)
  case (Inl err)
  with assms show ?thesis
    by (simp add: worker_step_def book_defs seconds_one algebra_simps)
next
  case (Inr msg)
  show ?thesis
  proof (cases "decode_event fl (msg_Value msg)")
    case (Inl err)
    with Inr assms show ?thesis by (simp add: worker_step_def book_defs)
  next
    case (Inr event)
    with \<open>r = Inr msg\<close> assms show ?thesis
      by (auto simp: worker_step_def forward_event_def book_defs Let_def split: option.split sum.split)
  qed
qed

lemma balanced_run: "balanced cfg w \<Longrightarrow> balanced cfg (worker_run fl tg cfg rs w)"
  by (induction rs arbitrary: w) (auto intro: balanced_step)

text \<open>The requests a sequence of reads asks for, whatever the server answers.\<close>

definition request_for ::
    "float_lib \<Rightarrow> forward_target \<Rightarrow> worker_config \<Rightarrow> error + kafka_message \<Rightarrow> http_request list"
where
  "request_for fl tg cfg r =
     (case r of
        Inl err \<Rightarrow> []
      | Inr msg \<Rightarrow>
          (case decode_event fl (msg_Value msg) of
             Inl err \<Rightarrow> []
           | Inr event \<Rightarrow>
               if target_error tg (wc_processURL cfg) = None
               then [forward_request fl tg cfg msg event] else []))"

lemma forwarded_step: "forwarded (worker_step fl tg cfg r w) = forwarded w @ request_for fl tg cfg r"
  by (auto simp: worker_step_def forward_event_def request_for_def Let_def
      split: sum.split option.split)

lemma forwarded_run:
  "forwarded (worker_run fl tg cfg rs w) = forwarded w @ concat (map (request_for fl tg cfg) rs)"
  by (induction rs arbitrary: w) (simp_all add: forwarded_step)

lemma read_count_step:
  "message_count cfg ''read'' (worker_step fl tg cfg r w) =
     message_count cfg ''read'' w + (if isl r then 0 else 1)"
  "message_count cfg ''read_error'' (worker_step fl tg cfg r w) =
     message_count cfg ''read_error'' w + (if isl r then 1 else 0)"
  by (auto simp: worker_step_def forward_event_def message_count_def Let_def
      split: sum.split option.split)

lemma read_count_run:
  "message_count cfg ''read'' (worker_run fl tg cfg rs w) =
     message_count cfg ''read'' w + count_where (\<lambda>r. \<not> isl r) rs"
  "message_count cfg ''read_error'' (worker_run fl tg cfg rs w) =
     message_count cfg ''read_error'' w + count_where isl rs"
  by (induction rs arbitrary: w) (simp_all add: read_count_step)

section \<open>Properties\<close>

text \<open>
  C20. The worker's counters add up after any run: every message read ends in exactly one of the
  outcomes decode error, request not built, no answer, answer outside 2xx, success, and is timed
  once; every request sent is counted once with its outcome and timed once; and the worker has
  slept one second per failed read.
\<close>

theorem worker_counters_balance:
  "let w = worker_run fl tg cfg rs start_worker in
   message_count cfg ''read'' w = count_where (\<lambda>r. \<not> isl r) rs \<and>
   message_count cfg ''read_error'' w = count_where isl rs \<and>
   message_count cfg ''read'' w =
     message_count cfg ''decode_error'' w + forward_count ''build_request_error'' w +
     length (forwarded w) \<and>
   length (forwarded w) =
     forward_count ''error'' w + forward_count ''non_2xx'' w + forward_count ''success'' w \<and>
   worker_counters w (workerProcessingDurationSeconds, []) = message_count cfg ''read'' w \<and>
   worker_counters w (workerForwardDurationSeconds, []) = length (forwarded w) \<and>
   paused w = int (count_where isl rs) * 1000000000"
proof -
  have "balanced cfg (worker_run fl tg cfg rs start_worker)"
    by (rule balanced_run) (rule balanced_start)
  moreover have "message_count cfg s start_worker = 0" for s
    by (simp add: message_count_def start_worker_def)
  ultimately show ?thesis
    by (simp add: balanced_def read_count_run Let_def)
qed

text \<open>
  C14. Messages are forwarded in the order of the queue and at most once: the requests of a run are
  those of its decodable messages, in order, one each, and do not depend on what the server
  answered, so a message whose forward failed is never sent again.
\<close>

theorem worker_forwards_at_most_once:
  "forwarded (worker_run fl tg cfg rs start_worker) = concat (map (request_for fl tg cfg) rs) \<and>
   (\<forall>r. length (request_for fl tg cfg r) \<le> 1) \<and>
   forwarded (worker_run fl tg cfg rs start_worker) =
     forwarded (worker_run fl (tg\<lparr>target_reply := replies\<rparr>) cfg rs start_worker)"
proof -
  have "request_for fl (tg\<lparr>target_reply := replies\<rparr>) cfg = request_for fl tg cfg"
    by (rule ext) (auto simp: request_for_def forward_request_def split: sum.split)
  moreover have "length (request_for fl tg cfg r) \<le> 1" for r
    by (simp add: request_for_def split: sum.split)
  ultimately show ?thesis
    by (simp add: forwarded_run start_worker_def)
qed

end
