(* ===== verification/Pipeline.thy ===== *)
theory Pipeline
  imports Ingest_Api Worker
begin

text \<open>
  The two ways of a sample through the system: straight through \<open>/api/v1/metrics\<close> in direct mode, or
  from \<open>/api/v1/metrics\<close> in Kafka mode over the queue and the worker to \<open>/api/v1/metrics/process\<close>.
  The parts meet in three encodings (\<open>publisher.MetricsEvent\<close> by the server, \<open>metricsEvent\<close> and the
  forwarded map by the worker, \<open>MetricsPayload\<close> by the server again), which have to agree.
\<close>

section \<open>The encodings agree\<close>

text \<open>
  What is needed of the float printer and parser at the three values of a sample; every finite
  \<open>float64\<close> has it, because \<open>encoding/json\<close> prints the shortest text that parses back.
\<close>

definition floats_survive :: "float_lib \<Rightarrow> metrics_payload \<Rightarrow> bool" where
  "floats_survive fl m \<longleftrightarrow>
     float_roundtrip fl (CPUUsage m) \<and> float_roundtrip fl (MemUsage m) \<and>
     float_roundtrip fl (DiskUsage m)"

definition worker_view :: "metrics_payload \<Rightarrow> worker_event" where
  "worker_view m =
     \<lparr>wev_MachineID = MachineID m, wev_IP = IP m, wev_CPUUsage = CPUUsage m,
      wev_MemUsage = MemUsage m, wev_DiskUsage = DiskUsage m, wev_Timestamp = Timestamp m\<rparr>"

definition event_json :: "float_lib \<Rightarrow> metrics_payload \<Rightarrow> json" where
  "event_json fl m =
     JObj [(''MachineID'', JStr (MachineID m)), (''IP'', JStr (IP m)),
       (''CPUUsage'', JNum (FormatFloat fl (CPUUsage m))),
       (''MemUsage'', JNum (FormatFloat fl (MemUsage m))),
       (''DiskUsage'', JNum (FormatFloat fl (DiskUsage m))),
       (''Timestamp'', encode_int (Timestamp m))]"

definition forwarded_json :: "float_lib \<Rightarrow> metrics_payload \<Rightarrow> json" where
  "forwarded_json fl m =
     JObj [(''cpu_usage'', JNum (FormatFloat fl (CPUUsage m))),
       (''disk_usage'', JNum (FormatFloat fl (DiskUsage m))), (''ip'', JStr (IP m)),
       (''machine_id'', JStr (MachineID m)), (''mem_usage'', JNum (FormatFloat fl (MemUsage m))),
       (''timestamp'', encode_int (Timestamp m))]"

lemma encode_float_survives: "float_roundtrip fl x \<Longrightarrow> encode_float fl x = Inr (JNum (FormatFloat fl x))"
  by (simp add: float_roundtrip_def encode_float_def)

lemma marshal_event_of: "floats_survive fl m \<Longrightarrow> marshal_event fl (event_of m) = Inr (event_json fl m)"
  by (simp add: marshal_event_def event_of_def floats_survive_def encode_float_survives event_json_def)

lemma decode_event_json:
  "floats_survive fl m \<Longrightarrow> in_int64 (Timestamp m) \<Longrightarrow>
     decode_event fl (Inr (event_json fl m)) = Inr (worker_view m)"
  by (simp add: decode_event_def event_json_def decode_struct_def event_fields_def field_defs
      find_field_def floats_survive_def float_roundtrip_def encode_int_def zero_event_def worker_view_def)

lemma forward_body_view:
  "floats_survive fl m \<Longrightarrow> forward_body fl (worker_view m) = JsonBody (forwarded_json fl m)"
  by (simp add: forward_body_def worker_view_def floats_survive_def encode_float_survives
      forwarded_json_def)

lemma decode_forwarded_json:
  "floats_survive fl m \<Longrightarrow> in_int64 (Timestamp m) \<Longrightarrow>
     decode_payload fl (Inr (forwarded_json fl m)) = Inr m"
  by (simp add: decode_payload_def forwarded_json_def decode_struct_def payload_fields_def field_defs
      find_field_def floats_survive_def float_roundtrip_def encode_int_def zero_payload_def)

text \<open>A decoded timestamp is an \<open>int64\<close>.\<close>

lemma payload_setter_timestamp:
  "f \<in> snd ` set (payload_fields fl) \<Longrightarrow> in_int64 (Timestamp a) \<Longrightarrow> f j a = Inr a' \<Longrightarrow>
     in_int64 (Timestamp a')"
  by (auto simp: payload_fields_def field_defs split: json.splits option.splits sum.splits if_splits)

lemma read_payload_timestamp:
  assumes "read_payload fl nowu body = Inr m" and "in_int64 nowu"
  shows "in_int64 (Timestamp m)"
proof -
  have "in_int64 (Timestamp m')" if "decode_payload fl body = Inr m'" for m'
  proof -
    from that obtain j where j: "decode_struct ''main.MetricsPayload'' (payload_fields fl) j zero_payload = Inr m'"
      by (auto simp: decode_payload_def)
    have "in_int64 (Timestamp zero_payload)" by (simp add: zero_payload_def in_int64_def)
    from decode_struct_inv [of _ _ _ _ _ "\<lambda>m. in_int64 (Timestamp m)", OF j this payload_setter_timestamp]
    show ?thesis .
  qed
  with assms show ?thesis
    by (auto simp: read_payload_def split: sum.splits if_splits)
qed

text \<open>The process endpoint reads the forwarded body as the sample the first server accepted.\<close>

lemma read_forwarded:
  assumes "read_payload fl nowu body = Inr m" and "0 < nowu" and "in_int64 nowu" and "floats_survive fl m"
  shows "read_payload fl nowu' (Inr (forwarded_json fl m)) = Inr m"
  using read_payload_Inr [OF assms(1-3)] decode_forwarded_json [OF assms(4) read_payload_timestamp [OF assms(1,3)]]
  by (simp add: read_payload_def)

section \<open>One sample over the queue\<close>

text \<open>The messages a request added to the topic.\<close>

definition new_messages :: "'s server \<Rightarrow> 's server \<Rightarrow> kafka_message list" where
  "new_messages w w' = drop (length (kafka_messages (trace w))) (kafka_messages (trace w'))"

lemma publish_event_of:
  assumes "floats_survive fl m"
  shows "\<exists>msg. PublishMetrics fl sv k now (event_of m) w =
      (kafka_write sv (trace w) msg, w\<lparr>trace := trace w @ [WriteKafka msg]\<rparr>) \<and>
    msg_Value msg = Inr (event_json fl m) \<and> msg_Key msg = MachineID m \<and> msg_Topic msg = kp_Topic k"
  unfolding PublishMetrics_def marshal_event_of [OF assms] sum.case kafka_do_def
  by (intro exI conjI, rule refl) (simp_all add: event_of_def)

lemma request_for_event:
  assumes "msg_Value msg = Inr (event_json fl m)" and "floats_survive fl m" and "in_int64 (Timestamp m)"
    and "target_error tg (wc_processURL wc) = None"
  shows "map req_body (request_for fl tg wc (Inr msg)) = [JsonBody (forwarded_json fl m)]"
  using assms
  by (simp add: request_for_def decode_event_json forward_request_def forward_body_view)

text \<open>Processing does not read the mode.\<close>

lemma mode_free:
  "CPUAlertThreshold (cfg\<lparr>IngestMode := mode\<rparr>) = CPUAlertThreshold cfg"
  "AlertTriggerCount (cfg\<lparr>IngestMode := mode\<rparr>) = AlertTriggerCount cfg"
  "AlertCooldownSeconds (cfg\<lparr>IngestMode := mode\<rparr>) = AlertCooldownSeconds cfg"
  "VictoriaMetricsURL (cfg\<lparr>IngestMode := mode\<rparr>) = VictoriaMetricsURL cfg"
  by simp_all

lemma process_ingest_mode:
  "processMetricsPayload sv st nt (cfg\<lparr>IngestMode := mode\<rparr>) = processMetricsPayload sv st nt cfg"
proof -
  have eval: "evaluateCPUAlert sv st nt (cfg\<lparr>IngestMode := mode\<rparr>) = evaluateCPUAlert sv st nt cfg"
    unfolding eval_defs raise_alert_def p0_event_def p0_record_def recovery_event_def
      recovery_record_def mode_free ..
  show ?thesis
    unfolding processMetricsPayload_def process_body_def vm_request_def mode_free eval ..
qed

text \<open>Both entries do the same with the same sample, up to the series they count the request in.\<close>

definition same_but_ingest_series :: "'r \<times> 's server \<Rightarrow> 'r \<times> 's server \<Rightarrow> bool" where
  "same_but_ingest_series a b \<longleftrightarrow>
     fst a = fst b \<and> store (snd a) = store (snd b) \<and> trace (snd a) = trace (snd b) \<and>
     (\<forall>name ls. name \<noteq> serverIngestRequestsTotal \<longrightarrow>
        counters (snd a) (name, ls) = counters (snd b) (name, ls))"

lemma process_as_direct:
  assumes "read_payload fl nowu body = Inr m" and "read_payload fl nowu' body' = Inr m"
    and "\<not> equal_fold mode ''kafka''"
  shows "same_but_ingest_series (handle_process fl sv st nt cfg clk nowu' body' w)
    (handle_metrics fl sv st nt (cfg\<lparr>IngestMode := mode\<rparr>) pub clk nowu body w)"
proof -
  obtain r w1 where "processMetricsPayload sv st nt cfg clk m w = (r, w1)"
    by (cases "processMetricsPayload sv st nt cfg clk m w")
  with assms show ?thesis
    by (cases r)
      (simp_all add: same_but_ingest_series_def handle_process_def handle_metrics_def process_ingest_mode Let_def)
qed

text \<open>
  C5. The queue is transparent: a sample the server accepts in Kafka mode is put on the topic as
  one message, the worker turns that message into one request, and the process endpoint, in
  whatever state the server is by then, answers it, and changes the alert store, the calls made
  and every counter but the ingest request counter, exactly as \<open>/api/v1/metrics\<close> in direct mode
  would have done with the original request.
\<close>

theorem kafka_mode_equals_direct:
  assumes "equal_fold (IngestMode cfg) ''kafka''" and "\<not> equal_fold mode ''kafka''"
    and "read_payload fl nowu body = Inr m" and "0 < nowu" and "in_int64 nowu"
    and "floats_survive fl m" and "target_error tg (wc_processURL wc) = None"
  shows "\<exists>msg j.
    new_messages w (snd (handle_metrics fl sv st nt cfg (initPublisher fl sv cfg now) clk nowu body w)) = [msg] \<and>
    map req_body (request_for fl tg wc (Inr msg)) = [JsonBody j] \<and>
    (\<forall>nowu' clk' w2.
       same_but_ingest_series (handle_process fl sv st nt cfg clk' nowu' (Inr j) w2)
         (handle_metrics fl sv st nt (cfg\<lparr>IngestMode := mode\<rparr>) None clk' nowu body w2))"
proof -
  let ?k = "NewKafkaPublisher (KafkaBrokers cfg) (KafkaTopic cfg)"
  obtain msg where
    p: "PublishMetrics fl sv ?k now (event_of m) w =
      (kafka_write sv (trace w) msg, w\<lparr>trace := trace w @ [WriteKafka msg]\<rparr>)"
    and v: "msg_Value msg = Inr (event_json fl m)"
    using publish_event_of [OF assms(6)] by blast
  have "new_messages w (snd (handle_metrics fl sv st nt cfg (initPublisher fl sv cfg now) clk nowu body w)) = [msg]"
    by (rule metrics_cases [of fl nowu body sv st nt cfg now clk w])
      (auto simp: assms p new_messages_def)
  moreover have "map req_body (request_for fl tg wc (Inr msg)) = [JsonBody (forwarded_json fl m)]"
    using v assms(6) read_payload_timestamp [OF assms(3,5)] assms(7) by (rule request_for_event)
  moreover have "\<forall>nowu' clk' w2.
      same_but_ingest_series (handle_process fl sv st nt cfg clk' nowu' (Inr (forwarded_json fl m)) w2)
        (handle_metrics fl sv st nt (cfg\<lparr>IngestMode := mode\<rparr>) None clk' nowu body w2)"
    by (intro allI, rule process_as_direct [OF assms(3) read_forwarded [OF assms(3-6)] assms(2)])
  ultimately show ?thesis by (intro exI conjI) (assumption+)
qed

text \<open>The number printer of the example is exact at integers, and a sample made of them survives.\<close>

definition example_target :: forward_target where
  "example_target =
     \<lparr>target_error = (\<lambda>_. None), target_reply = (\<lambda>_ _. Inr 200), propagated = (\<lambda>hs. hs)\<rparr>"

definition example_body :: json where
  "example_body =
     JObj [(''machine_id'', JStr ''web-1''), (''cpu_usage'', JNum ''90''), (''disk_usage'', JNum ''5'')]"

definition example_read :: metrics_payload where
  "example_read =
     \<lparr>MachineID = ''web-1'', IP = [], CPUUsage = Fin 90, MemUsage = Fin 0, DiskUsage = Fin 5,
      Timestamp = 1700000000\<rparr>"

lemma example_float_exact: "in_int64 i \<Longrightarrow> float_roundtrip example_floats (Fin (of_int i))"
  by (simp add: float_roundtrip_def example_floats_def f64_finite_def)

lemma example_survives: "floats_survive example_floats example_read"
  using example_float_exact [of 90] example_float_exact [of 0] example_float_exact [of 5]
  by (simp add: floats_survive_def example_read_def in_int64_def)

lemma example_reads: "read_payload example_floats 1700000000 (Inr example_body) = Inr example_read"
  by code_simp

theorem kafka_mode_equals_direct_witness:
  "\<exists>msg j.
    new_messages (start_server NewMemoryAlertStateStore)
      (snd (handle_metrics example_floats (example_services 200) memory_store noop_notifier
        (loadConfig example_floats [''INGEST_MODE'' \<mapsto> ''KAFKA''])
        (initPublisher example_floats (example_services 200)
          (loadConfig example_floats [''INGEST_MODE'' \<mapsto> ''KAFKA'']) 0)
        (\<lambda>_. 0) 1700000000 (Inr example_body) (start_server NewMemoryAlertStateStore))) = [msg] \<and>
    map req_body (request_for example_floats example_target (worker_loadConfig id Map.empty) (Inr msg)) =
      [JsonBody j] \<and>
    (\<forall>nowu' clk' w2.
       same_but_ingest_series
         (handle_process example_floats (example_services 200) memory_store noop_notifier
           (loadConfig example_floats [''INGEST_MODE'' \<mapsto> ''KAFKA'']) clk' nowu' (Inr j) w2)
         (handle_metrics example_floats (example_services 200) memory_store noop_notifier
           ((loadConfig example_floats [''INGEST_MODE'' \<mapsto> ''KAFKA''])\<lparr>IngestMode := ''direct''\<rparr>)
           None clk' 1700000000 (Inr example_body) w2))"
proof -
  let ?cfg = "loadConfig example_floats [''INGEST_MODE'' \<mapsto> ''KAFKA'']"
  have mode: "equal_fold (IngestMode ?cfg) ''kafka''"
    unfolding loadConfig_def by code_simp
  have direct: "\<not> equal_fold ''direct'' ''kafka''" by code_simp
  have pos: "(0 :: int) < 1700000000" and range: "in_int64 1700000000" by (simp_all add: in_int64_def)
  have target: "target_error example_target (wc_processURL (worker_loadConfig id Map.empty)) = None"
    by (simp add: example_target_def)
  show ?thesis
    by (rule kafka_mode_equals_direct [OF mode direct example_reads pos range example_survives target])
qed

end
