(* ===== verification/Telemetry.thy ===== *)
theory Telemetry
  imports Pipeline "HOL-Library.AList" "HOL-Library.List_Lexorder" "HOL-Library.Char_ord"
begin

text \<open>
  Structured log lines (\<open>structured_log.go\<close>, \<open>logKV\<close> in \<open>cmd/worker\<close>), the set-up of tracing
  (\<open>observability.go\<close>, \<open>initTracing\<close> in \<open>cmd/worker\<close>) and the trace context that travels with a
  message from the server to the worker.

  A Go map is an association list with distinct keys; \<^verbatim>\<open>json.Marshal\<close> writes it in the order of its
  keys, which the library's lexicographic order on byte lists gives. A value is given by its
  encoding, which fails for values JSON does not have.
\<close>

section \<open>Log lines\<close>

datatype log_output = LogLine json | LogMarshalFailed error

type_synonym log_fields = "(string \<times> (error + json)) list"

definition merge_fields :: "log_fields \<Rightarrow> log_fields \<Rightarrow> log_fields" where
  "merge_fields entry fs = fold (\<lambda>(k, v). AList.update k v) fs entry"

definition marshal_map :: "log_fields \<Rightarrow> error + json" where
  "marshal_map entry =
     bind_err (sequence_err (map (\<lambda>(k, v). bind_err v (\<lambda>j. Inr (k, j))) (sort_key fst entry)))
       (\<lambda>kvs. Inr (JObj kvs))"

text \<open>\<open>logKV\<close> of the server: \<open>ts\<close> is the text of the current time.\<close>

definition logKV :: "string \<Rightarrow> string \<Rightarrow> string \<Rightarrow> log_fields \<Rightarrow> log_output" where
  "logKV ts level msg fs =
     (let entry = merge_fields
            [(''ts'', Inr (JStr ts)), (''level'', Inr (JStr level)), (''message'', Inr (JStr msg))] fs
      in case marshal_map entry of
           Inl err \<Rightarrow> LogMarshalFailed err
         | Inr b \<Rightarrow> LogLine b)"

definition worker_logKV :: "string \<Rightarrow> string \<Rightarrow> string \<Rightarrow> log_fields \<Rightarrow> log_output" where
  "worker_logKV ts level event fs =
     (let payload = merge_fields
            [(''level'', Inr (JStr level)), (''event'', Inr (JStr event)), (''ts'', Inr (JStr ts))] fs
      in case marshal_map payload of
           Inl err \<Rightarrow> LogMarshalFailed err
         | Inr b \<Rightarrow> LogLine b)"

text \<open>The line \<open>evaluateCPUAlert\<close> logs for a notified alert.\<close>

definition notify_sent_log :: "string \<Rightarrow> alert_event \<Rightarrow> log_output" where
  "notify_sent_log ts event =
     logKV ts ''info'' ''alert_notify_sent''
       [(''machine_id'', Inr (JStr (ev_MachineID event))), (''level'', Inr (JStr (ev_Level event)))]"

lemma merge_fields_lookup:
  assumes "distinct (map fst fs)"
  shows "map_of (merge_fields entry fs) k =
    (case map_of fs k of Some v \<Rightarrow> Some v | None \<Rightarrow> map_of entry k)"
  using assms
proof (induction fs arbitrary: entry)
  case (Cons f fs)
  obtain k' v where f: "f = (k', v)" by (cases f)
  then have "map_of fs k' = None" using Cons.prems by (simp add: map_of_eq_None_iff)
  then show ?case
    using Cons f by (auto simp: merge_fields_def update_conv' split: option.split)
qed (simp add: merge_fields_def)

lemma distinct_merge_fields: "distinct (map fst entry) \<Longrightarrow> distinct (map fst (merge_fields entry fs))"
  by (induction fs arbitrary: entry) (auto simp: merge_fields_def intro: distinct_update split: prod.split)

lemma marshal_map_members:
  assumes "marshal_map entry = Inr j" and "distinct (map fst entry)"
  shows "\<exists>kvs. j = JObj kvs \<and> map fst kvs = sort (map fst entry) \<and>
    (\<forall>k. map_of entry k = map_option Inr (map_of kvs k))"
proof -
  let ?enc = "\<lambda>(k, v). bind_err v (\<lambda>j. Inr (k, j))"
  from assms(1) obtain kvs where kvs: "sequence_err (map ?enc (sort_key fst entry)) = Inr kvs" "j = JObj kvs"
    by (auto simp: marshal_map_def)
  from kvs(1) have enc: "map ?enc (sort_key fst entry) = map Inr kvs" by (simp add: sequence_err_Inr)
  have "sort_key fst entry = map (\<lambda>(k, j). (k, Inr j)) kvs"
  proof (rule nth_equalityI)
    show len: "length (sort_key fst entry) = length (map (\<lambda>(k, j). (k, Inr j :: error + json)) kvs)"
      using map_eq_imp_length_eq [OF enc] by simp
    fix i assume i: "i < length (sort_key fst entry)"
    obtain k v where kv: "sort_key fst entry ! i = (k, v)" by (cases "sort_key fst entry ! i")
    have "?enc (sort_key fst entry ! i) = Inr (kvs ! i)"
      using arg_cong [OF enc, of "\<lambda>xs. xs ! i"] i len by simp
    with kv show "sort_key fst entry ! i = map (\<lambda>(k, j). (k, Inr j)) kvs ! i"
      using i len by (cases "kvs ! i") auto
  qed
  then have s: "sort_key fst entry = map (\<lambda>(k, j). (k, Inr j)) kvs" .
  have sorted_keys: "map fst (sort_key fst entry) = sort (map fst entry)"
    by (rule sorted_distinct_set_unique)
      (use assms(2) in \<open>auto simp: distinct_map intro: inj_on_subset\<close>)
  with s have keys: "map fst kvs = sort (map fst entry)" by (simp add: comp_def split_beta)
  have perm: "map_of (sort_key fst entry) = map_of entry"
    by (rule iffD2 [OF map_of_inject_set]) (simp_all add: sorted_keys assms(2))
  have "map_of (map (\<lambda>(k, j). (k, Inr j :: error + json)) kvs) k = map_option Inr (map_of kvs k)" for k
    by (induction kvs) auto
  with s perm keys kvs(2) show ?thesis by metis
qed

lemma logKV_line:
  assumes "distinct (map fst fs)" and "logKV ts level msg fs = LogLine j"
  shows "\<exists>kvs. j = JObj kvs \<and> sorted (map fst kvs) \<and> distinct (map fst kvs) \<and>
    (\<forall>k. map_option Inr (map_of kvs k) =
      (case map_of fs k of
         Some v \<Rightarrow> Some v
       | None \<Rightarrow> map_of [(''ts'', Inr (JStr ts)), (''level'', Inr (JStr level)), (''message'', Inr (JStr msg))] k))"
proof -
  let ?base = "[(''ts'', Inr (JStr ts)), (''level'', Inr (JStr level)), (''message'', Inr (JStr msg))] :: log_fields"
  let ?entry = "merge_fields ?base fs"
  have d: "distinct (map fst ?entry)" by (rule distinct_merge_fields) simp
  have "marshal_map ?entry = Inr j"
    using assms(2) by (simp add: logKV_def Let_def split: sum.splits)
  from marshal_map_members [OF this d] obtain kvs where
    "j = JObj kvs" "map fst kvs = sort (map fst ?entry)" "\<forall>k. map_of ?entry k = map_option Inr (map_of kvs k)"
    by blast
  with d merge_fields_lookup [OF assms(1), of ?base] show ?thesis by (intro exI [of _ kvs]) simp
qed

text \<open>
  What a log line of the server says: it is a JSON object with its keys in order and none
  twice, holding the fields of the call, and of \<^verbatim>\<open>ts\<close>, \<^verbatim>\<open>level\<close> and \<^verbatim>\<open>message\<close> those the call does not
  override.
\<close>

theorem log_line_content:
  assumes "distinct (map fst fs)" and "logKV ts level msg fs = LogLine j"
  shows "\<exists>kvs. j = JObj kvs \<and> sorted (map fst kvs) \<and> distinct (map fst kvs) \<and>
    (\<forall>k. map_option Inr (map_of kvs k) =
      (case map_of fs k of
         Some v \<Rightarrow> Some v
       | None \<Rightarrow> map_of [(''ts'', Inr (JStr ts)), (''level'', Inr (JStr level)), (''message'', Inr (JStr msg))] k))"
  using assms by (rule logKV_line)

theorem log_line_content_witness:
  "\<exists>kvs. logKV ''now'' ''info'' ''started'' [(''port'', Inr (JStr ''8080''))] = LogLine (JObj kvs) \<and>
    map_of kvs ''port'' = Some (JStr ''8080'') \<and> map_of kvs ''level'' = Some (JStr ''info'')"
proof -
  obtain j where j: "logKV ''now'' ''info'' ''started'' [(''port'', Inr (JStr ''8080''))] = LogLine j"
    by (simp add: logKV_def merge_fields_def marshal_map_def Let_def)
  have d: "distinct (map fst [(''port'', Inr (JStr ''8080'') :: error + json)])" by simp
  from log_line_content [OF d j] obtain kvs where k: "j = JObj kvs"
    "\<forall>k. map_option Inr (map_of kvs k) =
      (case map_of [(''port'', Inr (JStr ''8080'') :: error + json)] k of
         Some v \<Rightarrow> Some v
       | None \<Rightarrow> map_of [(''ts'', Inr (JStr ''now'')), (''level'', Inr (JStr ''info'')), (''message'', Inr (JStr ''started''))] k)"
    by (elim exE conjE)
  have "map_of kvs ''port'' = Some (JStr ''8080'')"
    using spec [OF k(2), of "''port''"] by simp
  moreover have "map_of kvs ''level'' = Some (JStr ''info'')"
    using spec [OF k(2), of "''level''"] by simp
  ultimately show ?thesis using j k(1) by (intro exI [of _ kvs]) simp
qed

text \<open>
  C39. The line logged for a notified P0 alert has lost its log level: its key \<^verbatim>\<open>level\<close> is the level
  of the alert, \<^verbatim>\<open>P0\<close>, not \<^verbatim>\<open>info\<close>.
\<close>

theorem sent_alert_log_level:
  "\<exists>kvs. notify_sent_log ts (p0_event cfg m now) = LogLine (JObj kvs) \<and>
     map_of kvs ''level'' = Some (JStr ''P0'') \<and> map_of kvs ''machine_id'' = Some (JStr (MachineID m)) \<and>
     map_of kvs ''message'' = Some (JStr ''alert_notify_sent'')"
proof -
  let ?fs = "[(''machine_id'', Inr (JStr (MachineID m))), (''level'', Inr (JStr ''P0''))] :: log_fields"
  obtain j where j: "logKV ts ''info'' ''alert_notify_sent'' ?fs = LogLine j"
    by (simp add: logKV_def merge_fields_def marshal_map_def Let_def)
  have d: "distinct (map fst ?fs)" by simp
  from logKV_line [OF d j] obtain kvs where k: "j = JObj kvs"
    "\<forall>k. map_option Inr (map_of kvs k) =
      (case map_of ?fs k of
         Some v \<Rightarrow> Some v
       | None \<Rightarrow> map_of [(''ts'', Inr (JStr ts)), (''level'', Inr (JStr ''info'')), (''message'', Inr (JStr ''alert_notify_sent''))] k)"
    by (elim exE conjE)
  have "map_of kvs ''level'' = Some (JStr ''P0'')"
    using spec [OF k(2), of "''level''"] by simp
  moreover have "map_of kvs ''machine_id'' = Some (JStr (MachineID m))"
    using spec [OF k(2), of "''machine_id''"] by simp
  moreover have "map_of kvs ''message'' = Some (JStr ''alert_notify_sent'')"
    using spec [OF k(2), of "''message''"] by simp
  moreover have "notify_sent_log ts (p0_event cfg m now) = LogLine (JObj kvs)"
    using j k(1) by (simp add: notify_sent_log_def p0_event_def)
  ultimately show ?thesis by (intro exI [of _ kvs]) simp
qed

section \<open>Tracing\<close>

text \<open>
  \<open>initTracing\<close>: the exporter and the resource of the telemetry library may fail; what is installed is
  the pair of the endpoint and the service name, and shutting it down gives the provider five
  seconds. The result lists the log lines written on the way.
\<close>

record otel_lib =
  new_exporter :: "string \<Rightarrow> error option"
  new_resource :: "string \<Rightarrow> error option"
  provider_shutdown :: "duration \<Rightarrow> error option"

datatype tracing = NoTracing | TracingTo string string

definition start_tracing ::
  "otel_lib \<Rightarrow> (log_fields \<Rightarrow> log_output) \<Rightarrow> bool \<Rightarrow> string \<Rightarrow> string \<Rightarrow> error + tracing \<times> log_output list" where
  "start_tracing ol log_enabled enabled serviceName endpoint =
     (if \<not> enabled then Inr (NoTracing, [])
      else case new_exporter ol endpoint of
             Some err \<Rightarrow> Inl err
           | None \<Rightarrow>
               (case new_resource ol serviceName of
                  Some err \<Rightarrow> Inl err
                | None \<Rightarrow>
                    Inr (TracingTo endpoint serviceName,
                      [log_enabled [(''service'', Inr (JStr serviceName)), (''endpoint'', Inr (JStr endpoint))]])))"

definition initTracing :: "otel_lib \<Rightarrow> string \<Rightarrow> app_config \<Rightarrow> error + tracing \<times> log_output list" where
  "initTracing ol ts cfg =
     start_tracing ol (logKV ts ''info'' ''otel_tracing_enabled'')
       (OTelEnabled cfg) (OTelServiceName cfg) (OTelExporterOTLPEndpoint cfg)"

definition worker_initTracing :: "otel_lib \<Rightarrow> string \<Rightarrow> worker_config \<Rightarrow> error + tracing \<times> log_output list" where
  "worker_initTracing ol ts cfg =
     start_tracing ol (worker_logKV ts ''info'' ''worker_otel_tracing_enabled'')
       (wc_otelEnabled cfg) (wc_otelServiceName cfg) (wc_otelEndpoint cfg)"

definition tracing_shutdown :: "otel_lib \<Rightarrow> tracing \<Rightarrow> error option" where
  "tracing_shutdown ol tr =
     (case tr of NoTracing \<Rightarrow> None | TracingTo endpoint service \<Rightarrow> provider_shutdown ol (seconds 5))"

record span =
  span_errors :: "error list"
  span_status :: "error option"

definition recordSpanError :: "error option \<Rightarrow> span \<Rightarrow> span" where
  "recordSpanError r sp =
     (case r of
        None \<Rightarrow> sp
      | Some err \<Rightarrow> sp\<lparr>span_errors := span_errors sp @ [err], span_status := Some err\<rparr>)"

section \<open>The trace context of a message\<close>

text \<open>
  \<open>extractTraceContext\<close> puts the headers of a message into a carrier, the later of two with one key
  winning, and hands it to the propagator, which is an argument.
\<close>

definition header_carrier :: "(string \<times> string) list \<Rightarrow> string \<Rightarrow> string option" where
  "header_carrier headers = fold (\<lambda>(key, val) c. c(key \<mapsto> val)) headers Map.empty"

definition extractTraceContext :: "((string \<Rightarrow> string option) \<Rightarrow> 'c) \<Rightarrow> (string \<times> string) list \<Rightarrow> 'c" where
  "extractTraceContext propagator headers = propagator (header_carrier headers)"

lemma fold_carrier:
  "distinct (map fst hs) \<Longrightarrow> fold (\<lambda>(key, val) c. c(key \<mapsto> val)) hs c0 = c0 ++ map_of hs"
proof (induction hs arbitrary: c0)
  case (Cons h hs)
  obtain k v where h: "h = (k, v)" by (cases h)
  with Cons.prems have "map_of hs k = None" by (simp add: map_of_eq_None_iff)
  with Cons h show ?case by (auto simp: fun_eq_iff map_add_def split: option.split)
qed simp

text \<open>
  C28. The trace goes with the sample: the worker extracts from the message the publisher writes
  exactly the carrier the server's propagator injected.
\<close>

theorem trace_context_survives:
  assumes "distinct (map fst (carrier sv))"
    and "kafka_messages (trace (snd (PublishMetrics fl sv k now e w))) = kafka_messages (trace w) @ [msg]"
  shows "extractTraceContext propagator (msg_Headers msg) = propagator (map_of (carrier sv))"
proof -
  have "msg_Headers msg = carrier sv"
    using assms(2)
    by (auto simp: PublishMetrics_def kafka_do_def traceHeadersFromContext_def split: sum.splits)
  with assms(1) show ?thesis
    by (simp add: extractTraceContext_def header_carrier_def fold_carrier)
qed

definition traced_services :: services where
  "traced_services = (example_services 200)\<lparr>carrier := [(''traceparent'', ''00-ab-cd-01''), (''baggage'', ''k=v'')]\<rparr>"

definition traced_event :: metrics_event where
  "traced_event =
     \<lparr>pe_MachineID = ''a'', pe_IP = [], pe_CPUUsage = Fin 1, pe_MemUsage = Fin 2, pe_DiskUsage = Fin 3,
      pe_Timestamp = 4\<rparr>"

theorem trace_context_survives_witness:
  "\<exists>msg. kafka_messages (trace (snd (PublishMetrics example_floats traced_services
        (NewKafkaPublisher ''kafka:9092'' ''metrics'') 7 traced_event (start_server ())))) = [msg] \<and>
     extractTraceContext (\<lambda>c. c ''traceparent'') (msg_Headers msg) = Some ''00-ab-cd-01''"
proof -
  let ?k = "NewKafkaPublisher ''kafka:9092'' ''metrics''"
  have d: "distinct (map fst (carrier traced_services))" by (simp add: traced_services_def)
  obtain payload where "marshal_event example_floats traced_event = Inr payload"
    by (simp add: marshal_event_def traced_event_def encode_float_def f64_finite_def)
  then obtain msg where m: "kafka_messages (trace (snd (PublishMetrics example_floats traced_services ?k 7
      traced_event (start_server ())))) = kafka_messages (trace (start_server ())) @ [msg]"
    by (simp add: PublishMetrics_def kafka_do_def start_server_def)
  have "extractTraceContext (\<lambda>c. c ''traceparent'') (msg_Headers msg) = map_of (carrier traced_services) ''traceparent''"
    by (rule trace_context_survives [OF d m])
  with m show ?thesis
    by (intro exI [of _ msg]) (simp add: start_server_def traced_services_def)
qed

end
