(* ===== verification/Registry.thy ===== *)
theory Registry
  imports Server_World "HOL-Library.Multiset"
begin

text \<open>
  The machine registry and the list of recent alerts (the handlers of
  \<open>/api/v1/machines/register\<close> and \<open>/api/v1/alerts/recent\<close> in \<open>main.go\<close>).

  The tables are behind \<^verbatim>\<open>gorm\<close>; \<open>machine_db\<close> has the calls the handlers make, on an abstract state,
  and \<open>machines_behave\<close> what the documentation promises of them in terms of the rows. Text columns
  are compared by the collation of the database, a parameter.
\<close>

section \<open>Machines\<close>

record machine =
  m_ID :: nat
  m_MachineID :: string
  m_IP :: string
  m_Hostname :: string
  m_Status :: string

record register_request =
  rq_MachineID :: string
  rq_IP :: string
  rq_Hostname :: string
  rq_Status :: string

definition zero_register :: register_request where
  "zero_register = \<lparr>rq_MachineID = [], rq_IP = [], rq_Hostname = [], rq_Status = []\<rparr>"

definition register_fields :: "(string \<times> register_request setter) list" where
  "register_fields =
     [string_field ''MachineRegisterPayload'' ''machine_id'' (\<lambda>s r. r\<lparr>rq_MachineID := s\<rparr>),
      string_field ''MachineRegisterPayload'' ''ip'' (\<lambda>s r. r\<lparr>rq_IP := s\<rparr>),
      string_field ''MachineRegisterPayload'' ''hostname'' (\<lambda>s r. r\<lparr>rq_Hostname := s\<rparr>),
      string_field ''MachineRegisterPayload'' ''status'' (\<lambda>s r. r\<lparr>rq_Status := s\<rparr>)]"

text \<open>\<^verbatim>\<open>First\<close> finds a row, finds none (\<^verbatim>\<open>gorm.ErrRecordNotFound\<close>), or fails.\<close>

datatype 'r lookup = Found 'r | RecordNotFound | LookupFailed error

record 'd machine_db =
  first_by_machine_id :: "string \<Rightarrow> 'd \<Rightarrow> machine lookup \<times> 'd"
  create_machine :: "machine \<Rightarrow> 'd \<Rightarrow> (error + machine) \<times> 'd"
  update_machine :: "machine \<Rightarrow> string \<Rightarrow> string \<Rightarrow> string \<Rightarrow> 'd \<Rightarrow> error option \<times> 'd"
  first_by_id :: "nat \<Rightarrow> 'd \<Rightarrow> (error + machine) \<times> 'd"

definition machine_json :: "machine \<Rightarrow> json" where
  "machine_json m =
     JObj [(''id'', JNum (itoa (int (m_ID m)))), (''machine_id'', JStr (m_MachineID m)),
       (''ip'', JStr (m_IP m)), (''hostname'', JStr (m_Hostname m)), (''status'', JStr (m_Status m))]"

definition registered_body :: "bool \<Rightarrow> machine \<Rightarrow> json" where
  "registered_body upd m =
     JObj [(''machine'', machine_json m), (''registered'', JBool True), (''updated'', JBool upd)]"

text \<open>The request once its blanks have been dealt with, or the text of the 400 response.\<close>

definition read_register :: "error + json \<Rightarrow> error + register_request" where
  "read_register body =
     (case bind_err body (\<lambda>j. decode_struct ''main.MachineRegisterPayload'' register_fields j zero_register) of
        Inl err \<Rightarrow> Inl err
      | Inr req \<Rightarrow>
          if trim_space (rq_MachineID req) = [] then Inl (''machine_id '' @ ([CHR 0xE4, CHR 0xB8, CHR 0x8D, CHR 0xE8, CHR 0x83, CHR 0xBD, CHR 0xE4, CHR 0xB8, CHR 0xBA, CHR 0xE7, CHR 0xA9, CHR 0xBA]))
          else Inr (if trim_space (rq_Status req) = [] then req\<lparr>rq_Status := ''active''\<rparr> else req))"

definition handle_register :: "'d machine_db \<Rightarrow> error + json \<Rightarrow> 'd \<Rightarrow> http_result \<times> 'd" where
  "handle_register db body d =
     (case read_register body of
        Inl err \<Rightarrow> ((400, error_body err), d)
      | Inr req \<Rightarrow>
          (case first_by_machine_id db (rq_MachineID req) d of
             (LookupFailed err, d1) \<Rightarrow> ((500, error_body err), d1)
           | (RecordNotFound, d1) \<Rightarrow>
               (case create_machine db
                       \<lparr>m_ID = 0, m_MachineID = rq_MachineID req, m_IP = rq_IP req,
                        m_Hostname = rq_Hostname req, m_Status = rq_Status req\<rparr> d1 of
                  (Inl createErr, d2) \<Rightarrow> ((500, error_body createErr), d2)
                | (Inr machine, d2) \<Rightarrow> ((200, registered_body False machine), d2))
           | (Found machine, d1) \<Rightarrow>
               (case update_machine db machine (rq_IP req) (rq_Hostname req) (rq_Status req) d1 of
                  (Some updateErr, d2) \<Rightarrow> ((500, error_body updateErr), d2)
                | (None, d2) \<Rightarrow>
                    (case first_by_id db (m_ID machine) d2 of
                       (Inl readErr, d3) \<Rightarrow> ((500, error_body readErr), d3)
                     | (Inr machine', d3) \<Rightarrow> ((200, registered_body True machine'), d3)))))"

section \<open>What the database promises\<close>

definition set_row :: "nat \<Rightarrow> string \<Rightarrow> string \<Rightarrow> string \<Rightarrow> machine list \<Rightarrow> machine list" where
  "set_row i ip host st rows =
     map (\<lambda>m. if m_ID m = i then m\<lparr>m_IP := ip, m_Hostname := host, m_Status := st\<rparr> else m) rows"

text \<open>
  Reads leave the rows alone. A create that succeeds appends the row with a new identifier, which the
  unique index allows only when no row has an equal machine; an update that succeeds sets the
  columns of the row; a write that fails changes nothing.
\<close>

definition find_effect ::
    "(string \<Rightarrow> string \<Rightarrow> bool) \<Rightarrow> machine list \<Rightarrow> string \<Rightarrow> machine lookup \<Rightarrow> machine list \<Rightarrow> bool"
where
  "find_effect same old k r new \<longleftrightarrow>
     new = old \<and>
     (case r of
        Found m \<Rightarrow> m \<in> set old \<and> same (m_MachineID m) k
      | RecordNotFound \<Rightarrow> \<forall>m \<in> set old. \<not> same (m_MachineID m) k
      | LookupFailed err \<Rightarrow> True)"

definition create_effect ::
    "(string \<Rightarrow> string \<Rightarrow> bool) \<Rightarrow> machine list \<Rightarrow> machine \<Rightarrow> error + machine \<Rightarrow> machine list \<Rightarrow> bool"
where
  "create_effect same old m r new \<longleftrightarrow>
     (case r of
        Inl err \<Rightarrow> new = old
      | Inr m' \<Rightarrow>
          m_ID m' \<notin> m_ID ` set old \<and> m' = m\<lparr>m_ID := m_ID m'\<rparr> \<and> new = old @ [m'] \<and>
          (\<forall>x \<in> set old. \<not> same (m_MachineID x) (m_MachineID m)))"

definition by_id_effect :: "machine list \<Rightarrow> nat \<Rightarrow> error + machine \<Rightarrow> machine list \<Rightarrow> bool" where
  "by_id_effect old i r new \<longleftrightarrow>
     new = old \<and> (case r of Inl err \<Rightarrow> True | Inr m \<Rightarrow> m \<in> set old \<and> m_ID m = i)"

definition machines_behave ::
    "(string \<Rightarrow> string \<Rightarrow> bool) \<Rightarrow> 'd machine_db \<Rightarrow> ('d \<Rightarrow> machine list) \<Rightarrow> bool"
where
  "machines_behave same db rows \<longleftrightarrow>
     (\<forall>k d. find_effect same (rows d) k (fst (first_by_machine_id db k d))
              (rows (snd (first_by_machine_id db k d)))) \<and>
     (\<forall>m d. create_effect same (rows d) m (fst (create_machine db m d)) (rows (snd (create_machine db m d)))) \<and>
     (\<forall>m ip host st d. rows (snd (update_machine db m ip host st d)) =
        (if fst (update_machine db m ip host st d) = None then set_row (m_ID m) ip host st (rows d)
         else rows d)) \<and>
     (\<forall>i d. by_id_effect (rows d) i (fst (first_by_id db i d)) (rows (snd (first_by_id db i d))))"

text \<open>The table's invariant: identifiers are distinct, and so are the machines.\<close>

definition registry_ok :: "(string \<Rightarrow> string \<Rightarrow> bool) \<Rightarrow> machine list \<Rightarrow> bool" where
  "registry_ok same rows \<longleftrightarrow>
     distinct (map m_ID rows) \<and> sorted_wrt (\<lambda>a b. \<not> same a b) (map m_MachineID rows)"

section \<open>Facts\<close>

lemma set_row_simps [simp]:
  "map m_ID (set_row i ip host st rows) = map m_ID rows"
  "map m_MachineID (set_row i ip host st rows) = map m_MachineID rows"
  "filter (\<lambda>x. m_ID x \<noteq> i) (set_row i ip host st rows) = filter (\<lambda>x. m_ID x \<noteq> i) rows"
  by (induction rows) (simp_all add: set_row_def)

lemma set_row_ok [simp]: "registry_ok same (set_row i ip host st rows) = registry_ok same rows"
  by (simp add: registry_ok_def)

lemma registry_ok_append:
  assumes "registry_ok same rows" and "m_ID m \<notin> m_ID ` set rows"
    and "\<forall>x \<in> set rows. \<not> same (m_MachineID x) (m_MachineID m)"
  shows "registry_ok same (rows @ [m])"
  using assms by (auto simp: registry_ok_def sorted_wrt_append)

lemma active_not_blank: "\<not> blank ''active''"
  by code_simp

locale machine_table =
  fixes same :: "string \<Rightarrow> string \<Rightarrow> bool" and db :: "'d machine_db" and rows :: "'d \<Rightarrow> machine list"
  assumes behaves: "machines_behave same db rows"
begin

lemma find_law: "first_by_machine_id db k d = (r, d') \<Longrightarrow> find_effect same (rows d) k r (rows d')"
  using behaves unfolding machines_behave_def by (metis fst_conv snd_conv)

lemma create_law: "create_machine db m d = (r, d') \<Longrightarrow> create_effect same (rows d) m r (rows d')"
  using behaves unfolding machines_behave_def by (metis fst_conv snd_conv)

lemma update_rows:
  "update_machine db m ip host st d = (r, d') \<Longrightarrow>
     rows d' = (if r = None then set_row (m_ID m) ip host st (rows d) else rows d)"
  using behaves unfolding machines_behave_def by (metis fst_conv snd_conv)

lemma by_id_law: "first_by_id db i d = (r, d') \<Longrightarrow> by_id_effect (rows d) i r (rows d')"
  using behaves unfolding machines_behave_def by (metis fst_conv snd_conv)

lemma first_rows: "first_by_machine_id db k d = (r, d') \<Longrightarrow> rows d' = rows d"
  using find_law by (simp add: find_effect_def)

lemma first_found:
  "first_by_machine_id db k d = (Found m, d') \<Longrightarrow> m \<in> set (rows d) \<and> same (m_MachineID m) k"
  by (drule find_law) (simp add: find_effect_def)

lemma create_failed: "create_machine db m d = (Inl err, d') \<Longrightarrow> rows d' = rows d"
  by (drule create_law) (simp add: create_effect_def)

lemma create_done:
  assumes "create_machine db m d = (Inr m', d')"
  obtains i where "i \<notin> m_ID ` set (rows d)" "m' = m\<lparr>m_ID := i\<rparr>" "rows d' = rows d @ [m']"
    "\<forall>x \<in> set (rows d). \<not> same (m_MachineID x) (m_MachineID m)"
  using create_law [OF assms] unfolding create_effect_def sum.case by blast

lemma by_id: "first_by_id db i d = (r, d') \<Longrightarrow> rows d' = rows d"
  by (drule by_id_law) (simp add: by_id_effect_def)

lemma by_id_found: "first_by_id db i d = (Inr m, d') \<Longrightarrow> m \<in> set (rows d) \<and> m_ID m = i"
  by (drule by_id_law) (simp add: by_id_effect_def)

lemma handle_keeps_ok:
  assumes "registry_ok same (rows d)"
  shows "registry_ok same (rows (snd (handle_register db body d)))"
proof (cases "read_register body")
  case (Inl err)
  with assms show ?thesis by (simp add: handle_register_def)
next
  case (Inr req)
  obtain l d1 where f: "first_by_machine_id db (rq_MachineID req) d = (l, d1)"
    by (cases "first_by_machine_id db (rq_MachineID req) d")
  show ?thesis
  proof (cases l)
    case (Found m)
    obtain u d2 where u: "update_machine db m (rq_IP req) (rq_Hostname req) (rq_Status req) d1 = (u, d2)"
      by (cases "update_machine db m (rq_IP req) (rq_Hostname req) (rq_Status req) d1")
    obtain g d3 where g: "first_by_id db (m_ID m) d2 = (g, d3)" by (cases "first_by_id db (m_ID m) d2")
    from Inr f Found u g update_rows [OF u] by_id [OF g] first_rows [OF f] assms show ?thesis
      by (simp add: handle_register_def split: option.split sum.split)
  next
    case RecordNotFound
    let ?m = "\<lparr>m_ID = 0, m_MachineID = rq_MachineID req, m_IP = rq_IP req,
      m_Hostname = rq_Hostname req, m_Status = rq_Status req\<rparr>"
    obtain c d2 where c: "create_machine db ?m d1 = (c, d2)" by (cases "create_machine db ?m d1")
    show ?thesis
    proof (cases c)
      case (Inl err)
      with \<open>read_register body = Inr req\<close> f RecordNotFound c create_failed [of ?m d1 err d2]
        first_rows [OF f] assms
      show ?thesis by (simp add: handle_register_def)
    next
      case (Inr m')
      with c create_done [of ?m d1 m' d2] obtain i where i: "i \<notin> m_ID ` set (rows d1)"
        "m' = ?m\<lparr>m_ID := i\<rparr>" "rows d2 = rows d1 @ [m']"
        "\<forall>x \<in> set (rows d1). \<not> same (m_MachineID x) (m_MachineID ?m)"
        by metis
      have "registry_ok same (rows d1 @ [m'])"
        by (rule registry_ok_append) (use assms first_rows [OF f] i in auto)
      with \<open>read_register body = Inr req\<close> f RecordNotFound c Inr i(3) show ?thesis
        by (simp add: handle_register_def)
    qed
  next
    case (LookupFailed err)
    with Inr f first_rows [OF f] assms show ?thesis by (simp add: handle_register_def)
  qed
qed

lemma read_register_status: "read_register body = Inr req \<Longrightarrow> \<not> blank (rq_Status req) \<and> \<not> blank (rq_MachineID req)"
  using active_not_blank by (auto simp: read_register_def split: sum.splits if_splits)

lemma handle_registers:
  assumes "handle_register db body d = ((200, reply), d')" and "registry_ok same (rows d)" and "\<And>k. same k k"
  obtains req m upd where "read_register body = Inr req" "m \<in> set (rows d')" "reply = registered_body upd m"
    "same (m_MachineID m) (rq_MachineID req)" "m_IP m = rq_IP req" "m_Hostname m = rq_Hostname req"
    "m_Status m = rq_Status req" "upd \<longleftrightarrow> m_ID m \<in> m_ID ` set (rows d)"
    "filter (\<lambda>x. m_ID x \<noteq> m_ID m) (rows d') = filter (\<lambda>x. m_ID x \<noteq> m_ID m) (rows d)"
proof -
  from assms(1) obtain req where req: "read_register body = Inr req"
    by (auto simp: handle_register_def split: sum.splits)
  obtain l d1 where f: "first_by_machine_id db (rq_MachineID req) d = (l, d1)"
    by (cases "first_by_machine_id db (rq_MachineID req) d")
  show thesis
  proof (cases l)
    case (Found m0)
    with assms(1) req f obtain d2 m where
      u: "update_machine db m0 (rq_IP req) (rq_Hostname req) (rq_Status req) d1 = (None, d2)"
      and g: "first_by_id db (m_ID m0) d2 = (Inr m, d')" and reply: "reply = registered_body True m"
      by (auto simp: handle_register_def split: prod.splits option.splits sum.splits)
    have m0: "m0 \<in> set (rows d)" "same (m_MachineID m0) (rq_MachineID req)"
      using first_found f Found by simp_all
    have rows': "rows d' = set_row (m_ID m0) (rq_IP req) (rq_Hostname req) (rq_Status req) (rows d)"
      using update_rows [OF u] by_id [OF g] first_rows [OF f] by simp
    have m: "m \<in> set (rows d')" "m_ID m = m_ID m0"
      using by_id_found [OF g] by_id [OF g] by simp_all
    from m(1) obtain m1 where m1: "m1 \<in> set (rows d)"
      "m = (if m_ID m1 = m_ID m0 then m1\<lparr>m_IP := rq_IP req, m_Hostname := rq_Hostname req,
         m_Status := rq_Status req\<rparr> else m1)"
      by (auto simp: rows' set_row_def)
    then have "m_ID m1 = m_ID m0" using m(2) by (simp split: if_splits)
    moreover from this have "m1 = m0"
      using assms(2) m1(1) m0(1) by (auto simp: registry_ok_def distinct_map inj_on_def)
    ultimately have m_eq: "m = m0\<lparr>m_IP := rq_IP req, m_Hostname := rq_Hostname req, m_Status := rq_Status req\<rparr>"
      using m1(2) by simp
    show thesis
      by (rule that [OF req m(1) reply]) (use m0 m_eq rows' in auto)
  next
    case RecordNotFound
    let ?m = "\<lparr>m_ID = 0, m_MachineID = rq_MachineID req, m_IP = rq_IP req,
      m_Hostname = rq_Hostname req, m_Status = rq_Status req\<rparr>"
    from RecordNotFound assms(1) req f obtain m where c: "create_machine db ?m d1 = (Inr m, d')"
      and reply: "reply = registered_body False m"
      by (auto simp: handle_register_def split: prod.splits sum.splits)
    obtain i where i: "i \<notin> m_ID ` set (rows d1)" "m = ?m\<lparr>m_ID := i\<rparr>" "rows d' = rows d1 @ [m]"
      by (rule create_done [OF c])
    have same_rows: "rows d1 = rows d" by (rule first_rows [OF f])
    have mid: "m_ID m = i" using i(2) by simp
    have "filter (\<lambda>x. m_ID x \<noteq> i) (rows d @ [m]) = filter (\<lambda>x. m_ID x \<noteq> i) (rows d)"
      using mid by simp
    with mid i same_rows show thesis
      by (intro that [OF req _ reply]) (auto simp: assms(3))
  next
    case (LookupFailed err)
    with assms(1) req f show thesis by (simp add: handle_register_def)
  qed
qed

end

text \<open>A table that answers at once, comparing machines exactly.\<close>

definition ref_db :: "machine list machine_db" where
  "ref_db =
     \<lparr>first_by_machine_id = (\<lambda>k rows.
        (case find (\<lambda>m. m_MachineID m = k) rows of Some m \<Rightarrow> Found m | None \<Rightarrow> RecordNotFound, rows)),
      create_machine = (\<lambda>m rows.
        if list_ex (\<lambda>x. m_MachineID x = m_MachineID m) rows then (Inl ''duplicate entry'', rows)
        else let m' = m\<lparr>m_ID := Suc (sum_list (map m_ID rows))\<rparr> in (Inr m', rows @ [m'])),
      update_machine = (\<lambda>m ip host st rows. (None, set_row (m_ID m) ip host st rows)),
      first_by_id = (\<lambda>i rows.
        (case find (\<lambda>m. m_ID m = i) rows of Some m \<Rightarrow> Inr m | None \<Rightarrow> Inl ''record not found'', rows))\<rparr>"

lemma ref_db_behaves: "machines_behave (=) ref_db id"
proof -
  have fresh: "Suc (sum_list (map m_ID rows)) \<notin> m_ID ` set rows" for rows
    using member_le_sum_list [of _ "map m_ID rows"] by fastforce
  show ?thesis
    unfolding machines_behave_def ref_db_def machine_db.simps
    by (intro conjI allI)
      (use fresh in \<open>auto simp: find_effect_def create_effect_def by_id_effect_def find_Some_iff
        find_None_iff list_ex_iff Let_def split: option.split\<close>)
qed

interpretation ref_table: machine_table "(=)" ref_db id
  by unfold_locales (rule ref_db_behaves)

section \<open>Properties of the registry\<close>

text \<open>
  Registration keeps the table one row per machine: on any database with the documented
  behaviour, whatever the request and whichever call fails, no handler call gives two rows the same
  identifier or two equal machines.
\<close>

theorem registry_stays_unique:
  assumes "machines_behave same db rows" and "registry_ok same (rows d)"
  shows "registry_ok same (rows (snd (handle_register db body d)))"
  by (rule machine_table.handle_keeps_ok [OF machine_table.intro [OF assms(1)] assms(2)])

definition example_registration :: "error + json" where
  "example_registration =
     Inr (JObj [(''machine_id'', JStr ''web-1''), (''ip'', JStr ''10.0.0.7''), (''status'', JStr '' '')])"

definition example_rows :: "machine list" where
  "example_rows =
     [\<lparr>m_ID = 3, m_MachineID = ''web-2'', m_IP = [], m_Hostname = [], m_Status = ''active''\<rparr>]"

lemma example_rows_ok: "registry_ok (=) (id example_rows)"
  by (simp add: registry_ok_def example_rows_def)

theorem registry_stays_unique_witness:
  "registry_ok (=) (id (snd (handle_register ref_db example_registration example_rows)))"
  by (rule registry_stays_unique [OF ref_db_behaves example_rows_ok])

text \<open>
  C19. A registration answered with 200 is in the table: one row is the machine of the request, has its
  address, host name and status (\<^verbatim>\<open>active\<close> for a blank one) and is the row in the answer; it is the old
  row, with its identifier, exactly when the answer says updated; and all other rows are unchanged.
\<close>

theorem registration_is_stored:
  assumes "machines_behave same db rows" and "registry_ok same (rows d)" and "\<And>k. same k k"
    and "handle_register db body d = ((200, reply), d')"
  shows "\<exists>req m upd. read_register body = Inr req \<and> \<not> blank (rq_MachineID req) \<and> \<not> blank (rq_Status req) \<and>
    m \<in> set (rows d') \<and> same (m_MachineID m) (rq_MachineID req) \<and> m_IP m = rq_IP req \<and>
    m_Hostname m = rq_Hostname req \<and> m_Status m = rq_Status req \<and> reply = registered_body upd m \<and>
    (upd \<longleftrightarrow> m_ID m \<in> m_ID ` set (rows d)) \<and>
    filter (\<lambda>x. m_ID x \<noteq> m_ID m) (rows d') = filter (\<lambda>x. m_ID x \<noteq> m_ID m) (rows d)"
proof -
  note table = machine_table.intro [OF assms(1)]
  show ?thesis
    by (rule machine_table.handle_registers [OF table assms(4,2,3)])
      (use machine_table.read_register_status [OF table] in blast)
qed

lemma example_read: "read_register example_registration =
  Inr \<lparr>rq_MachineID = ''web-1'', rq_IP = ''10.0.0.7'', rq_Hostname = [], rq_Status = ''active''\<rparr>"
proof -
  have "\<not> blank ''web-1''" "blank '' ''" by code_simp+
  then show ?thesis
    by (simp add: read_register_def example_registration_def decode_struct_def register_fields_def
        string_field_def find_field_def zero_register_def)
qed

theorem registration_is_stored_witness:
  "\<exists>d' reply m upd. handle_register ref_db example_registration example_rows = ((200, reply), d') \<and>
     m \<in> set (id d') \<and> m_IP m = ''10.0.0.7'' \<and> m_Status m = ''active'' \<and> reply = registered_body upd m"
proof -
  obtain reply d' where h: "handle_register ref_db example_registration example_rows = ((200, reply), d')"
    by (simp add: handle_register_def example_read ref_db_def example_rows_def Let_def)
  from registration_is_stored [OF ref_db_behaves example_rows_ok _ h] obtain req m upd where
    "read_register example_registration = Inr req" "m \<in> set (id d')" "m_IP m = rq_IP req"
    "m_Status m = rq_Status req" "reply = registered_body upd m"
    by auto
  with h show ?thesis by (auto simp: example_read)
qed

section \<open>Recent alerts\<close>

text \<open>
  The query the handler builds: conditions on columns, the order of the rows (\<^verbatim>\<open>query.Order\<close>, when
  it is called), a limit.
\<close>

datatype order_clause = Unordered | Ascending string | Descending string

record alert_query =
  aq_Where :: "(string \<times> string) list"
  aq_Order :: order_clause
  aq_Limit :: int

definition recent_limit :: "string \<Rightarrow> int" where
  "recent_limit raw =
     (let v = trim_space raw in
      if v \<noteq> [] then
        (case atoi v of
           Inr parsed \<Rightarrow> if parsed > 0 \<and> parsed \<le> 100 then parsed else 20
         | Inl parseErr \<Rightarrow> 20)
      else 20)"

definition recent_query :: "(string \<Rightarrow> string) \<Rightarrow> alert_query" where
  "recent_query param =
     (let machineID = trim_space (param ''machine_id'');
          level = trim_space (param ''level'');
          notifyStatus = trim_space (param ''notify_status'')
      in \<lparr>aq_Where =
            (if machineID \<noteq> [] then [(''machine_id'', machineID)] else []) @
            (if level \<noteq> [] then [(''level'', level)] else []) @
            (if notifyStatus \<noteq> [] then [(''notify_status'', notifyStatus)] else []),
          aq_Order = Descending ''triggered_at'',
          aq_Limit = recent_limit (param ''limit'')\<rparr>)"

datatype recent_reply =
    RecentFailed error
  | Recent int "(string \<times> string) list" int "alert_event_record list"

text \<open>The answer: an error with 500, or the count, the three filters, the limit and the events.\<close>

definition handle_recent ::
    "(alert_query \<Rightarrow> error + alert_event_record list) \<Rightarrow> (string \<Rightarrow> string) \<Rightarrow> int \<times> recent_reply"
where
  "handle_recent find_alerts param =
     (let query = recent_query param in
      case find_alerts query of
        Inl err \<Rightarrow> (500, RecentFailed err)
      | Inr events \<Rightarrow>
          (200, Recent (int (length events))
             [(''machine_id'', trim_space (param ''machine_id'')),
              (''level'', trim_space (param ''level'')),
              (''notify_status'', trim_space (param ''notify_status''))]
             (aq_Limit query) events))"

definition column :: "string \<Rightarrow> alert_event_record \<Rightarrow> string" where
  "column c r =
     (if c = ''machine_id'' then rec_MachineID r else if c = ''level'' then rec_Level r
      else rec_NotifyStatus r)"

definition matches :: "(string \<Rightarrow> string \<Rightarrow> bool) \<Rightarrow> alert_query \<Rightarrow> alert_event_record \<Rightarrow> bool" where
  "matches same q r \<longleftrightarrow> (\<forall>(c, v) \<in> set (aq_Where q). same (column c r) v)"

text \<open>
  Two rows in the order a clause asks for, as far as it concerns the time of the alert: an order by
  another column, or none, promises nothing of it.
\<close>

fun in_order :: "order_clause \<Rightarrow> alert_event_record \<Rightarrow> alert_event_record \<Rightarrow> bool" where
  "in_order Unordered a b = True"
| "in_order (Ascending c) a b = (c = ''triggered_at'' \<longrightarrow> rec_TriggeredAt a \<le> rec_TriggeredAt b)"
| "in_order (Descending c) a b = (c = ''triggered_at'' \<longrightarrow> rec_TriggeredAt b \<le> rec_TriggeredAt a)"

text \<open>
  What a successful query returns: the rows that satisfy its conditions, each once, in the order
  its own clause asks for, and of these the first ones, up to its limit.
\<close>

definition alerts_behave ::
    "(string \<Rightarrow> string \<Rightarrow> bool) \<Rightarrow> alert_event_record list \<Rightarrow> (alert_query \<Rightarrow> error + alert_event_record list) \<Rightarrow> bool"
where
  "alerts_behave same table find_alerts \<longleftrightarrow>
     (\<forall>q evs. find_alerts q = Inr evs \<longrightarrow>
        (\<exists>found. evs = take (nat (aq_Limit q)) found \<and> mset found = mset (filter (matches same q) table) \<and>
           sorted_wrt (in_order (aq_Order q)) found))"

lemma newest_first:
  "sorted_wrt (in_order (aq_Order (recent_query param))) rs = sorted_wrt (\<lambda>a b. rec_TriggeredAt b \<le> rec_TriggeredAt a) rs"
  by (rule arg_cong [of _ _ "\<lambda>R. sorted_wrt R rs"]) (intro ext, simp add: recent_query_def Let_def)

lemma recent_limit_range: "1 \<le> recent_limit raw \<and> recent_limit raw \<le> 100"
  by (auto simp: recent_limit_def Let_def split: sum.split)

lemma recent_limit_itoa: "trim_space raw = itoa i \<Longrightarrow> 1 \<le> i \<Longrightarrow> i \<le> 100 \<Longrightarrow> recent_limit raw = i"
  by (simp add: recent_limit_def in_int64_def)

lemma matches_recent:
  "matches same (recent_query param) r \<longleftrightarrow>
     (blank (param ''machine_id'') \<or> same (rec_MachineID r) (trim_space (param ''machine_id''))) \<and>
     (blank (param ''level'') \<or> same (rec_Level r) (trim_space (param ''level''))) \<and>
     (blank (param ''notify_status'') \<or> same (rec_NotifyStatus r) (trim_space (param ''notify_status'')))"
  by (cases "blank (param ''machine_id'')"; cases "blank (param ''level'')";
      cases "blank (param ''notify_status'')"; simp add: matches_def recent_query_def column_def Let_def)

text \<open>A row.\<close>

definition example_row :: alert_event_record where
  "example_row =
     \<lparr>rec_ID = 1, rec_MachineID = ''web-1'', rec_IP = [], rec_Level = ''P0'', rec_Metric = ''cpu_usage'',
      rec_ThresholdValue = Fin 80, rec_CurrentValue = Fin 90, rec_TriggerCount = 3, rec_CooldownSec = 60,
      rec_NotifyStatus = ''sent'', rec_NotifyError = [], rec_TriggeredAt = 5, rec_CreatedAt = 5\<rparr>"

end
