(* ===== verification/Health.thy ===== *)
theory Health
  imports Http Config
begin

text \<open>
  The dependency check (\<open>health.go\<close>). What the dependencies answer, the latencies measured and the
  URL library are arguments; a panic of a handler, which gin turns into a 500, is the value None.
\<close>

record dep_status =
  dst_Name :: string
  dst_Up :: bool
  dst_LatencyMS :: int
  dst_Error :: string

text \<open>\<open>url.Parse\<close> and \<open>URL.String\<close>, on the parts the program sets and whatever else a URL has.\<close>

record url =
  u_Path :: string
  u_RawQuery :: string
  u_Fragment :: string
  u_Rest :: string

record url_lib =
  url_Parse :: "string \<Rightarrow> error + url"
  url_String :: "url \<Rightarrow> string"

definition buildVMHealthURL :: "url_lib \<Rightarrow> string \<Rightarrow> error + string" where
  "buildVMHealthURL ul vmIngestURL =
     (case url_Parse ul vmIngestURL of
        Inl err \<Rightarrow> Inl err
      | Inr u \<Rightarrow>
          Inr (url_String ul
            (((u\<lparr>u_Path := ''/health''\<rparr>)\<lparr>u_RawQuery := []\<rparr>)\<lparr>u_Fragment := []\<rparr>)))"

text \<open>
  The answers: of \<^verbatim>\<open>db.DB()\<close>, of the two pings, of building a request and of sending it.
\<close>

record health_deps =
  sql_handle :: "error option"
  sql_ping :: "error option"
  redis_ping :: "error option"
  request_error :: "string \<Rightarrow> error option"
  vm_reply :: "string \<Rightarrow> error + http_response"
  latency :: "string \<Rightarrow> int"

definition checkMySQL :: "health_deps \<Rightarrow> dep_status" where
  "checkMySQL hl =
     (let out = \<lparr>dst_Name = ''mysql'', dst_Up = True, dst_LatencyMS = latency hl ''mysql'', dst_Error = []\<rparr> in
      case sql_handle hl of
        Some err \<Rightarrow> out\<lparr>dst_Up := False, dst_Error := err\<rparr>
      | None \<Rightarrow>
          (case sql_ping hl of
             Some err \<Rightarrow> out\<lparr>dst_Up := False, dst_Error := err\<rparr>
           | None \<Rightarrow> out))"

definition checkRedis :: "health_deps \<Rightarrow> app_config \<Rightarrow> dep_status" where
  "checkRedis hl cfg =
     (let out = \<lparr>dst_Name = ''redis'', dst_Up = True, dst_LatencyMS = latency hl ''redis'', dst_Error = []\<rparr> in
      if equal_fold (AlertStoreType cfg) ''memory'' then out\<lparr>dst_Error := ''ALERT_STORE=memory''\<rparr>
      else (case redis_ping hl of
              Some err \<Rightarrow> out\<lparr>dst_Up := False, dst_Error := err\<rparr>
            | None \<Rightarrow> out))"

definition checkVictoriaMetrics :: "url_lib \<Rightarrow> health_deps \<Rightarrow> app_config \<Rightarrow> dep_status option" where
  "checkVictoriaMetrics ul hl cfg =
     (let out = \<lparr>dst_Name = ''victoriametrics'', dst_Up = True,
                 dst_LatencyMS = latency hl ''victoriametrics'', dst_Error = []\<rparr> in
      case buildVMHealthURL ul (VictoriaMetricsURL cfg) of
        Inl err \<Rightarrow> Some (out\<lparr>dst_Up := False, dst_Error := err\<rparr>)
      | Inr healthURL \<Rightarrow>
          (if request_error hl healthURL \<noteq> None then None
           else case vm_reply hl healthURL of
                  Inl err \<Rightarrow> Some (out\<lparr>dst_Up := False, dst_Error := err\<rparr>)
                | Inr resp \<Rightarrow>
                    Some (if StatusCode resp < 200 \<or> StatusCode resp \<ge> 300
                          then out\<lparr>dst_Up := False, dst_Error := ''status='' @ StatusText resp\<rparr>
                          else out)))"

text \<open>The error is left out of the document when it is empty.\<close>

definition dep_json :: "dep_status \<Rightarrow> json" where
  "dep_json d =
     JObj ([(''name'', JStr (dst_Name d)), (''up'', JBool (dst_Up d)),
            (''latency_ms'', encode_int (dst_LatencyMS d))] @
           (if dst_Error d = [] then [] else [(''error'', JStr (dst_Error d))]))"

definition handle_deps :: "url_lib \<Rightarrow> health_deps \<Rightarrow> app_config \<Rightarrow> http_result option" where
  "handle_deps ul hl cfg =
     (let mysql = checkMySQL hl; redis = checkRedis hl cfg in
      case checkVictoriaMetrics ul hl cfg of
        None \<Rightarrow> None
      | Some vm \<Rightarrow>
          (let allUp = (dst_Up mysql \<and> dst_Up redis \<and> dst_Up vm);
               statusCode = (if \<not> allUp then 503 else 200)
           in Some (statusCode, JObj
                [(''deps'', JArr (map dep_json [mysql, redis, vm])),
                 (''status'', JStr (if allUp then ''up'' else ''degraded''))])))"

text \<open>
  C32. The health endpoint tells the state of the dependencies: it answers 200 and \<^verbatim>\<open>up\<close> exactly
  when the database handle and its ping are good, Redis answers (or is not configured as the
  store), and the health page of VictoriaMetrics answers with a 2xx status; otherwise, unless the
  handler panics, 503 and \<^verbatim>\<open>degraded\<close>; always with one entry per dependency.
\<close>

theorem deps_status:
  "case handle_deps ul hl cfg of
     None \<Rightarrow> (\<exists>u. buildVMHealthURL ul (VictoriaMetricsURL cfg) = Inr u \<and> request_error hl u \<noteq> None)
   | Some (code, body) \<Rightarrow>
       (let healthy = (sql_handle hl = None \<and> sql_ping hl = None \<and>
              (equal_fold (AlertStoreType cfg) ''memory'' \<or> redis_ping hl = None) \<and>
              (case buildVMHealthURL ul (VictoriaMetricsURL cfg) of
                 Inl err \<Rightarrow> False
               | Inr u \<Rightarrow> (case vm_reply hl u of Inl err \<Rightarrow> False | Inr resp \<Rightarrow> is_2xx (StatusCode resp))))
        in code = (if healthy then 200 else 503) \<and>
           member_of ''status'' body = Some (JStr (if healthy then ''up'' else ''degraded'')) \<and>
           (\<exists>deps. member_of ''deps'' body = Some (JArr deps) \<and>
              map (member_of ''name'') deps =
                [Some (JStr ''mysql''), Some (JStr ''redis''), Some (JStr ''victoriametrics'')]))"
proof -
  have mysql: "dst_Up (checkMySQL hl) \<longleftrightarrow> sql_handle hl = None \<and> sql_ping hl = None"
    "dst_Name (checkMySQL hl) = ''mysql''"
    by (simp_all add: checkMySQL_def Let_def split: option.split)
  have redis: "dst_Up (checkRedis hl cfg) \<longleftrightarrow> equal_fold (AlertStoreType cfg) ''memory'' \<or> redis_ping hl = None"
    "dst_Name (checkRedis hl cfg) = ''redis''"
    by (simp_all add: checkRedis_def Let_def split: option.split)
  have named: "member_of ''name'' (dep_json d) = Some (JStr (dst_Name d))" for d
    by (simp add: dep_json_def member_of_def)
  show ?thesis
  proof (cases "checkVictoriaMetrics ul hl cfg")
    case None
    then show ?thesis
      by (auto simp: handle_deps_def checkVictoriaMetrics_def Let_def split: sum.splits if_splits)
  next
    case (Some vm)
    then have vm: "dst_Up vm \<longleftrightarrow> (case buildVMHealthURL ul (VictoriaMetricsURL cfg) of
          Inl err \<Rightarrow> False
        | Inr u \<Rightarrow> (case vm_reply hl u of Inl err \<Rightarrow> False | Inr resp \<Rightarrow> is_2xx (StatusCode resp)))"
      "dst_Name vm = ''victoriametrics''"
      by (auto simp: checkVictoriaMetrics_def is_2xx_def Let_def split: sum.splits if_splits)
    show ?thesis
      by (simp add: handle_deps_def Some mysql redis vm named Let_def member_of_def [of "''status''"]
          member_of_def [of "''deps''"])
  qed
qed

end
