(* ===== verification/Db.thy ===== *)
theory Db
  imports Config
begin

text \<open>
  Opening the database (\<open>db.go\<close>). What \<^verbatim>\<open>gorm.Open\<close> returns at each attempt is an argument; the
  result carries the time slept.
\<close>

definition connect_attempts :: "app_config \<Rightarrow> int" where
  "connect_attempts cfg = (if MySQLConnectRetries cfg < 1 then 1 else MySQLConnectRetries cfg)"

definition connect_interval :: "app_config \<Rightarrow> duration" where
  "connect_interval cfg =
     (let interval = seconds (MySQLConnectInterval cfg) in
      if interval \<le> 0 then seconds 2 else interval)"

text \<open>The loop, on the number of attempts left; \<^verbatim>\<open>attempt\<close> counts from 1.\<close>

fun open_loop ::
    "(int \<Rightarrow> error + 'db) \<Rightarrow> int \<Rightarrow> duration \<Rightarrow> nat \<Rightarrow> int \<Rightarrow> error \<Rightarrow> duration \<Rightarrow> (error + 'db) \<times> duration"
where
  "open_loop opened retries interval 0 attempt lastErr slept =
     (Inl (''mysql connect failed after '' @ itoa retries @ '' attempts: '' @ lastErr), slept)"
| "open_loop opened retries interval (Suc left) attempt lastErr slept =
     (case opened attempt of
        Inr db \<Rightarrow> (Inr db, slept)
      | Inl err \<Rightarrow>
          open_loop opened retries interval left (attempt + 1) err
            (if attempt < retries then slept + interval else slept))"

definition openMySQLWithRetry :: "(int \<Rightarrow> error + 'db) \<Rightarrow> app_config \<Rightarrow> (error + 'db) \<times> duration" where
  "openMySQLWithRetry opened cfg =
     (let retries = connect_attempts cfg; interval = connect_interval cfg
      in open_loop opened retries interval (nat retries) 1 [] 0)"

lemma connect_attempts_pos: "1 \<le> connect_attempts cfg"
  by (simp add: connect_attempts_def)

lemma connect_interval_pos: "0 < connect_interval cfg"
  by (simp add: connect_interval_def Let_def seconds_exact)

text \<open>The loop from the attempt \<^verbatim>\<open>attempt\<close> on, when the attempts up to \<^verbatim>\<open>n\<close> fail.\<close>

lemma open_loop_fails:
  assumes "\<forall>i. attempt \<le> i \<and> i < attempt + int n \<longrightarrow> isl (opened i)" and "n \<le> left"
    and "attempt + int left = retries + 1"
  shows "open_loop opened retries interval left attempt e s =
    open_loop opened retries interval (left - n) (attempt + int n)
      (if n = 0 then e else projl (opened (attempt + int n - 1)))
      (s + int (if n = left \<and> n \<noteq> 0 then n - 1 else n) * interval)"
  using assms
proof (induction n arbitrary: left attempt e s)
  case (Suc n)
  then obtain left' where left: "left = Suc left'" by (cases left) auto
  have "isl (opened attempt)" using Suc.prems(1) by simp
  then obtain err where err: "opened attempt = Inl err" by (cases "opened attempt") auto
  have later: "attempt < retries \<longleftrightarrow> left' \<noteq> 0" using Suc.prems(3) left by auto
  have "open_loop opened retries interval left attempt e s =
      open_loop opened retries interval left' (attempt + 1) err
        (if left' \<noteq> 0 then s + interval else s)"
    by (simp add: left err later)
  also have "\<dots> = open_loop opened retries interval (left' - n) (attempt + 1 + int n)
      (if n = 0 then err else projl (opened (attempt + 1 + int n - 1)))
      ((if left' \<noteq> 0 then s + interval else s) + int (if n = left' \<and> n \<noteq> 0 then n - 1 else n) * interval)"
    by (rule Suc.IH) (use Suc.prems left in auto)
  also have "(if left' \<noteq> 0 then s + interval else s) + int (if n = left' \<and> n \<noteq> 0 then n - 1 else n) * interval =
      s + int (if Suc n = left \<and> Suc n \<noteq> 0 then Suc n - 1 else Suc n) * interval"
    using Suc.prems(2) left by (auto simp: algebra_simps of_nat_diff)
  finally show ?case
    using left err by (auto simp: algebra_simps)
qed simp

lemma open_succeeds:
  assumes "1 \<le> i" and "i \<le> connect_attempts cfg" and "opened i = Inr db"
    and "\<forall>j. 1 \<le> j \<and> j < i \<longrightarrow> isl (opened j)"
  shows "openMySQLWithRetry opened cfg = (Inr db, (i - 1) * connect_interval cfg)"
proof -
  let ?r = "connect_attempts cfg" and ?d = "connect_interval cfg"
  have rest: "nat ?r - nat (i - 1) = Suc (nat (?r - i))" using assms(1,2) by arith
  have "open_loop opened ?r ?d (nat ?r) 1 [] 0 =
      open_loop opened ?r ?d (nat ?r - nat (i - 1)) (1 + int (nat (i - 1)))
        (if nat (i - 1) = 0 then [] else projl (opened (1 + int (nat (i - 1)) - 1)))
        (0 + int (if nat (i - 1) = nat ?r \<and> nat (i - 1) \<noteq> 0 then nat (i - 1) - 1 else nat (i - 1)) * ?d)"
    by (rule open_loop_fails) (use assms in auto)
  moreover have "nat (i - 1) \<noteq> nat ?r" using assms(1,2) by arith
  ultimately show ?thesis
    using assms(1,3) by (simp add: openMySQLWithRetry_def Let_def rest)
qed

text \<open>
  Opening the database retries as configured: it returns the connection of the first attempt
  that succeeds, having waited one interval for each failure before it, when there is one among the
  configured attempts.
\<close>

theorem open_returns_first_success:
  assumes "1 \<le> i" and "i \<le> connect_attempts cfg" and "opened i = Inr db"
    and "\<forall>j. 1 \<le> j \<and> j < i \<longrightarrow> isl (opened j)"
  shows "openMySQLWithRetry opened cfg = (Inr db, (i - 1) * connect_interval cfg)"
  by (rule open_succeeds [OF assms])

theorem open_returns_first_success_witness:
  "openMySQLWithRetry (\<lambda>i. if i < 3 then Inl ''refused'' else Inr i)
     (loadConfig \<lparr>ParseFloat = (\<lambda>_. None), FormatFloat = (\<lambda>_. [])\<rparr> Map.empty) = (Inr 3, 4000000000)"
proof -
  let ?cfg = "loadConfig \<lparr>ParseFloat = (\<lambda>_. None), FormatFloat = (\<lambda>_. [])\<rparr> Map.empty"
  have "connect_attempts ?cfg = 30" "connect_interval ?cfg = 2 * nanos_per_second"
    by (simp_all add: loadConfig_def connect_attempts_def connect_interval_def getEnvAsInt_def seconds_exact)
  with open_returns_first_success [of 3 ?cfg "\<lambda>i. if i < 3 then Inl ''refused'' else Inr i" 3]
  show ?thesis by simp
qed

text \<open>
  When every attempt fails, opening gives up after exactly the configured number of attempts
  (at least one), with the error of the last, having waited one interval between any two.
\<close>

theorem open_gives_up:
  assumes "\<forall>j. 1 \<le> j \<and> j \<le> connect_attempts cfg \<longrightarrow> isl (opened j)"
  shows "openMySQLWithRetry opened cfg =
    (Inl (''mysql connect failed after '' @ itoa (connect_attempts cfg) @ '' attempts: '' @
       projl (opened (connect_attempts cfg))),
     (connect_attempts cfg - 1) * connect_interval cfg)"
proof -
  let ?r = "connect_attempts cfg" and ?d = "connect_interval cfg"
  have pos: "1 \<le> ?r" by (rule connect_attempts_pos)
  have "open_loop opened ?r ?d (nat ?r) 1 [] 0 =
      open_loop opened ?r ?d (nat ?r - nat ?r) (1 + int (nat ?r))
        (if nat ?r = 0 then [] else projl (opened (1 + int (nat ?r) - 1)))
        (0 + int (if nat ?r = nat ?r \<and> nat ?r \<noteq> 0 then nat ?r - 1 else nat ?r) * ?d)"
    by (rule open_loop_fails) (use assms pos in auto)
  then show ?thesis
    using pos by (simp add: openMySQLWithRetry_def Let_def of_nat_diff)
qed

theorem open_gives_up_witness:
  "openMySQLWithRetry (\<lambda>i. Inl ''refused'' :: error + unit)
     (loadConfig \<lparr>ParseFloat = (\<lambda>_. None), FormatFloat = (\<lambda>_. [])\<rparr> [''MYSQL_CONNECT_RETRIES'' \<mapsto> ''0'']) =
   (Inl ''mysql connect failed after 1 attempts: refused'', 0)"
proof -
  let ?cfg = "loadConfig \<lparr>ParseFloat = (\<lambda>_. None), FormatFloat = (\<lambda>_. [])\<rparr> [''MYSQL_CONNECT_RETRIES'' \<mapsto> ''0'']"
  have "atoi ''0'' = Inr 0" "itoa 1 = ''1''" by code_simp+
  then have "connect_attempts ?cfg = 1" "itoa 1 = ''1''"
    by (simp_all add: loadConfig_def connect_attempts_def getEnvAsInt_def getEnv_def Let_def)
  with open_gives_up [of ?cfg "\<lambda>i. Inl ''refused'' :: error + unit"] show ?thesis by simp
qed

end
