(* ===== verification/Server_Main.thy ===== *)
theory Server_Main
  imports Telemetry Registry Health Db
begin

text \<open>
  The server as one program (\<open>main\<close> in \<open>main.go\<close>): its start, the table of routes, and runs that
  serve any sequence of requests. The handlers are those of the other theories; the state is the
  alert side (store, calls, counters) beside the machine table.

  The router is \<^verbatim>\<open>gin\<close>. A request whose method and path are in no route changes nothing; what it is
  answered (404, 405 or a redirect) is the router's. A handler that panics is answered by its
  recovery.
\<close>

section \<open>Start\<close>

record ('d, 'r) app =
  app_tracing :: tracing
  app_notifier :: notifier_choice
  app_alerts :: "'r alert_state server"
  app_machines :: 'd

text \<open>What the start meets outside: each attempt to connect, the migration, the ping of Redis.\<close>

record ('d, 'r) boot_world =
  bw_otel :: otel_lib
  bw_ts :: string
  bw_lower :: "string \<Rightarrow> string"
  bw_mysql :: "int \<Rightarrow> error + 'd"
  bw_migrate :: "'d \<Rightarrow> 'd"
  bw_redis_ping :: "error option"
  bw_redis :: 'r

datatype ('d, 'r) boot_result = Fatal string | Listening "('d, 'r) app" "log_output list"

definition ingest_mode_log :: "string \<Rightarrow> app_config \<Rightarrow> log_output" where
  "ingest_mode_log ts cfg =
     (if equal_fold (IngestMode cfg) ''kafka''
      then logKV ts ''info'' ''ingest_mode_enabled''
        [(''mode'', Inr (JStr ''kafka'')), (''topic'', Inr (JStr (KafkaTopic cfg))),
         (''brokers'', Inr (JStr (KafkaBrokers cfg)))]
      else logKV ts ''info'' ''ingest_mode_enabled'' [(''mode'', Inr (JStr ''direct''))])"

definition start_main :: "('d, 'r) boot_world \<Rightarrow> app_config \<Rightarrow> ('d, 'r) boot_result" where
  "start_main bw cfg =
     (case initTracing (bw_otel bw) (bw_ts bw) cfg of
        Inl err \<Rightarrow> Fatal (([CHR 0xE5, CHR 0x88, CHR 0x9D, CHR 0xE5, CHR 0xA7, CHR 0x8B, CHR 0xE5, CHR 0x8C, CHR 0x96]) @ '' OTel tracing '' @ ([CHR 0xE5, CHR 0xA4, CHR 0xB1, CHR 0xE8, CHR 0xB4, CHR 0xA5]) @ '':'' @ err)
      | Inr (tracing, lines) \<Rightarrow>
          (case openMySQLWithRetry (bw_mysql bw) cfg of
             (Inl err, slept) \<Rightarrow> Fatal (([CHR 0xE6, CHR 0x95, CHR 0xB0, CHR 0xE6, CHR 0x8D, CHR 0xAE, CHR 0xE5, CHR 0xBA, CHR 0x93, CHR 0xE8, CHR 0xBF, CHR 0x9E, CHR 0xE6, CHR 0x8E, CHR 0xA5, CHR 0xE5, CHR 0xA4, CHR 0xB1, CHR 0xE8, CHR 0xB4, CHR 0xA5]) @ '':'' @ err)
           | (Inr db, slept) \<Rightarrow>
               (let db1 = bw_migrate bw db;
                    alertStore = initAlertStore cfg (bw_redis_ping bw) (bw_redis bw);
                    notifier = initNotifier (bw_lower bw) cfg
                in Listening
                     \<lparr>app_tracing = tracing, app_notifier = notifier,
                      app_alerts = start_server alertStore, app_machines = db1\<rparr>
                     (lines @ [ingest_mode_log (bw_ts bw) cfg]))))"

section \<open>The body of recent alerts\<close>

text \<open>\<open>AlertEventRecord\<close> as JSON; \<open>tt\<close> is the text of an instant in JSON.\<close>

definition alert_event_json :: "float_lib \<Rightarrow> (instant \<Rightarrow> string) \<Rightarrow> alert_event_record \<Rightarrow> error + json" where
  "alert_event_json fl tt r =
     bind_err (encode_float fl (rec_ThresholdValue r)) (\<lambda>th.
     bind_err (encode_float fl (rec_CurrentValue r)) (\<lambda>cur.
       Inr (JObj [(''id'', encode_int (int (rec_ID r))), (''machine_id'', JStr (rec_MachineID r)),
         (''ip'', JStr (rec_IP r)), (''level'', JStr (rec_Level r)), (''metric'', JStr (rec_Metric r)),
         (''threshold_value'', th), (''current_value'', cur),
         (''trigger_count'', encode_int (rec_TriggerCount r)), (''cooldown_sec'', encode_int (rec_CooldownSec r)),
         (''notify_status'', JStr (rec_NotifyStatus r)), (''notify_error'', JStr (rec_NotifyError r)),
         (''triggered_at'', JStr (tt (rec_TriggeredAt r))), (''created_at'', JStr (tt (rec_CreatedAt r)))])))"

definition filters_json :: "(string \<times> string) list \<Rightarrow> int \<Rightarrow> json" where
  "filters_json fs bound = JObj (sort_key fst (map (\<lambda>(k, v). (k, JStr v)) fs @ [(''limit'', encode_int bound)]))"

definition recent_json :: "float_lib \<Rightarrow> (instant \<Rightarrow> string) \<Rightarrow> recent_reply \<Rightarrow> error + json" where
  "recent_json fl tt reply =
     (case reply of
        RecentFailed err \<Rightarrow> Inr (error_body err)
      | Recent cnt fs bound evs \<Rightarrow>
          bind_err (sequence_err (map (alert_event_json fl tt) evs)) (\<lambda>js.
            Inr (JObj [(''count'', encode_int cnt), (''events'', JArr js), (''filters'', filters_json fs bound)])))"

section \<open>Routes\<close>

text \<open>
  Everything a request may meet outside. \<open>ow_find\<close> is a query on the alert table, given the calls
  made so far.
\<close>

record ('d, 'r) outside =
  ow_floats :: float_lib
  ow_services :: services
  ow_redis :: "'r redis_client"
  ow_db :: "'d machine_db"
  ow_find :: "effect list \<Rightarrow> alert_query \<Rightarrow> error + alert_event_record list"
  ow_urls :: url_lib
  ow_time :: "instant \<Rightarrow> string"

record api_request =
  ar_method :: string
  ar_path :: string
  ar_query :: string
  ar_body :: "error + json"
  ar_clock :: "nat \<Rightarrow> instant"
  ar_unix :: int
  ar_now :: instant
  ar_health :: health_deps

text \<open>A body that could not be encoded is the encoder's error.\<close>

datatype api_reply = Replied int "error + json" | Scraped | Panicked | NotRouted

definition pong_body :: json where
  "pong_body = JObj [(''message'', JStr ''pong''), (''status'', JStr ''running'')]"

definition replied :: "http_result \<Rightarrow> api_reply" where
  "replied r = Replied (fst r) (Inr (snd r))"

text \<open>The table \<open>main\<close> and \<open>registerHealthRoutes\<close> fill.\<close>

datatype endpoint = Scrape | Ping | Deps | Register | Recents | ProcessMetrics | PostMetrics

text \<open>The routes in the order the program registers them, that of the health check from its own file.\<close>

type_synonym route_table = "((string \<times> string) \<times> endpoint) list"

definition first_routes :: route_table where
  "first_routes = [((''GET'', ''/metrics''), Scrape), ((''GET'', ''/ping''), Ping)]"

definition health_route :: route_table where
  "health_route = [((''GET'', ''/healthz/deps''), Deps)]"

definition register_route :: route_table where
  "register_route = [((''POST'', ''/api/v1/machines/register''), Register)]"

definition recents_route :: route_table where
  "recents_route = [((''GET'', ''/api/v1/alerts/recent''), Recents)]"

definition process_route :: route_table where
  "process_route = [((''POST'', ''/api/v1/metrics/process''), ProcessMetrics)]"

definition metrics_route :: route_table where
  "metrics_route = [((''POST'', ''/api/v1/metrics''), PostMetrics)]"

abbreviation routes :: route_table where
  "routes \<equiv> first_routes @ health_route @ register_route @ recents_route @ process_route @ metrics_route"

lemmas routes_def = first_routes_def health_route_def register_route_def recents_route_def process_route_def
  metrics_route_def

text \<open>The dispatch of \<^verbatim>\<open>gin\<close>, for the fixed paths the program uses.\<close>

definition endpoint_of :: "api_request \<Rightarrow> endpoint option" where
  "endpoint_of q = map_of routes (ar_method q, ar_path q)"

definition call_endpoint ::
    "('d, 'r) outside \<Rightarrow> app_config \<Rightarrow> endpoint \<Rightarrow> api_request \<Rightarrow> ('d, 'r) app \<Rightarrow> api_reply \<times> ('d, 'r) app"
where
  "call_endpoint ow cfg e q app =
     (let fl = ow_floats ow; sv = ow_services ow; st = server_store (ow_redis ow);
          nt = notifier_of sv (app_notifier app)
      in case e of
           Scrape \<Rightarrow> (Scraped, app)
         | Ping \<Rightarrow> (Replied 200 (Inr pong_body), app)
         | Deps \<Rightarrow>
             (case handle_deps (ow_urls ow) (ar_health q) cfg of
                None \<Rightarrow> (Panicked, app)
              | Some r \<Rightarrow> (replied r, app))
         | Register \<Rightarrow>
             (case handle_register (ow_db ow) (ar_body q) (app_machines app) of
                (r, d) \<Rightarrow> (replied r, app\<lparr>app_machines := d\<rparr>))
         | Recents \<Rightarrow>
             (case handle_recent (ow_find ow (trace (app_alerts app))) (query_param (ar_query q)) of
                (code, reply) \<Rightarrow> (Replied code (recent_json fl (ow_time ow) reply), app))
         | ProcessMetrics \<Rightarrow>
             (case handle_process fl sv st nt cfg (ar_clock q) (ar_unix q) (ar_body q) (app_alerts app) of
                (r, w) \<Rightarrow> (replied r, app\<lparr>app_alerts := w\<rparr>))
         | PostMetrics \<Rightarrow>
             (case handle_metrics fl sv st nt cfg (initPublisher fl sv cfg (ar_now q)) (ar_clock q)
                     (ar_unix q) (ar_body q) (app_alerts app) of
                (r, w) \<Rightarrow> (replied r, app\<lparr>app_alerts := w\<rparr>)))"

definition route ::
    "('d, 'r) outside \<Rightarrow> app_config \<Rightarrow> api_request \<Rightarrow> ('d, 'r) app \<Rightarrow> api_reply \<times> ('d, 'r) app"
where
  "route ow cfg q app =
     (case endpoint_of q of
        None \<Rightarrow> (NotRouted, app)
      | Some e \<Rightarrow> call_endpoint ow cfg e q app)"

fun serve_all ::
    "('d, 'r) outside \<Rightarrow> app_config \<Rightarrow> api_request list \<Rightarrow> ('d, 'r) app \<Rightarrow> api_reply list \<times> ('d, 'r) app"
where
  "serve_all ow cfg [] app = ([], app)"
| "serve_all ow cfg (q # qs) app =
     (let (r, app1) = route ow cfg q app; (rs, app2) = serve_all ow cfg qs app1 in (r # rs, app2))"

section \<open>The start, outcome by outcome\<close>

text \<open>The first attempt to connect that succeeds, among those the configuration allows.\<close>

definition first_connection :: "(int \<Rightarrow> error + 'd) \<Rightarrow> app_config \<Rightarrow> 'd option" where
  "first_connection opened cfg =
     (case find (\<lambda>i. \<not> isl (opened i)) [1..connect_attempts cfg] of
        Some i \<Rightarrow> Some (projr (opened i))
      | None \<Rightarrow> None)"

lemma open_first_connection:
  "(case fst (openMySQLWithRetry opened cfg) of Inl err \<Rightarrow> None | Inr db \<Rightarrow> Some db) = first_connection opened cfg"
proof (cases "find (\<lambda>i. \<not> isl (opened i)) [1..connect_attempts cfg]")
  case None
  then have "\<forall>j. 1 \<le> j \<and> j \<le> connect_attempts cfg \<longrightarrow> isl (opened j)" by (auto simp: find_None_iff)
  from open_gives_up [OF this] None show ?thesis by (simp add: first_connection_def)
next
  case (Some i)
  let ?n = "connect_attempts cfg"
  from Some obtain k where k: "k < nat ?n" "i = 1 + int k" "\<not> isl (opened i)"
    "\<forall>j < k. isl (opened (1 + int j))"
    by (auto simp: find_Some_iff nth_upto)
  then have i: "1 \<le> i" "i \<le> ?n" by simp_all
  obtain db where db: "opened i = Inr db" using k(3) by (cases "opened i") auto
  have before: "\<forall>j. 1 \<le> j \<and> j < i \<longrightarrow> isl (opened j)"
  proof (intro allI impI)
    fix j assume j: "1 \<le> j \<and> j < i"
    then have "nat (j - 1) < k" using k(2) by arith
    with k(4) have "isl (opened (1 + int (nat (j - 1))))" by blast
    with j show "isl (opened j)" by simp
  qed
  from open_succeeds [OF i db before] Some db show ?thesis
    by (simp add: first_connection_def)
qed

text \<open>
  C24. The server comes up exactly when tracing can be set up (or is off) and one of the configured
  attempts reaches the database; Redis is no condition, for without it the alert store is in
  memory. It comes up with no call made and every counter at zero, on the tables of the first
  connection that succeeded.
\<close>

theorem start_outcome:
  "case start_main bw cfg of
     Fatal msg \<Rightarrow> isl (initTracing (bw_otel bw) (bw_ts bw) cfg) \<or> first_connection (bw_mysql bw) cfg = None
   | Listening app lines \<Rightarrow>
       \<not> isl (initTracing (bw_otel bw) (bw_ts bw) cfg) \<and>
       first_connection (bw_mysql bw) cfg \<noteq> None \<and>
       app_machines app = bw_migrate bw (the (first_connection (bw_mysql bw) cfg)) \<and>
       trace (app_alerts app) = [] \<and> counters (app_alerts app) = (\<lambda>_. 0) \<and>
       store (app_alerts app) =
         (if equal_fold (AlertStoreType cfg) ''memory'' then InMemory NewMemoryAlertStateStore
          else if bw_redis_ping bw = None then InRedis (bw_redis bw) else InMemory NewMemoryAlertStateStore)"
proof -
  obtain r slept where o: "openMySQLWithRetry (bw_mysql bw) cfg = (r, slept)"
    by (cases "openMySQLWithRetry (bw_mysql bw) cfg")
  then have f: "first_connection (bw_mysql bw) cfg = (case r of Inl err \<Rightarrow> None | Inr db \<Rightarrow> Some db)"
    using open_first_connection [of "bw_mysql bw" cfg] by simp
  from o show ?thesis
    unfolding f by (cases "initTracing (bw_otel bw) (bw_ts bw) cfg"; cases r; cases "bw_redis_ping bw")
      (auto simp: start_main_def start_server_def initAlertStore_def NewRedisAlertStateStore_def Let_def
        split: prod.split)
qed

section \<open>Requests keep the books\<close>

text \<open>A request to an ingest entry, as \<open>Ingest_Api\<close> serves it.\<close>

definition as_ingest :: "entry \<Rightarrow> api_request \<Rightarrow> ingest_request" where
  "as_ingest e q = \<lparr>rq_entry = e, rq_clock = ar_clock q, rq_unix = ar_unix q, rq_now = ar_now q, rq_body = ar_body q\<rparr>"

lemma app_eqs [simp]:
  "app_machines (app\<lparr>app_alerts := w\<rparr>) = app_machines app"
  "app_alerts (app\<lparr>app_machines := d\<rparr>) = app_alerts app"
  by simp_all

lemma route_alerts:
  "app_alerts (snd (route ow cfg q app)) =
     (let serve = (\<lambda>e. snd (serve_one (ow_floats ow) (ow_services ow) (server_store (ow_redis ow))
            (notifier_of (ow_services ow) (app_notifier app)) cfg (as_ingest e q) (app_alerts app)))
      in case endpoint_of q of
           Some ProcessMetrics \<Rightarrow> serve Process
         | Some PostMetrics \<Rightarrow> serve Metrics
         | _ \<Rightarrow> app_alerts app)"
  by (cases "endpoint_of q")
    (auto simp: route_def call_endpoint_def serve_one_def as_ingest_def Let_def
      split: endpoint.split prod.split option.split)

lemma route_machines:
  "app_machines (snd (route ow cfg q app)) =
     (if endpoint_of q = Some Register then snd (handle_register (ow_db ow) (ar_body q) (app_machines app))
      else app_machines app)"
  by (cases "endpoint_of q")
    (auto simp: route_def call_endpoint_def Let_def split: endpoint.split prod.split option.split)

definition app_ok :: "(string \<Rightarrow> string \<Rightarrow> bool) \<Rightarrow> ('d \<Rightarrow> machine list) \<Rightarrow> ('d, 'r) app \<Rightarrow> bool" where
  "app_ok same rows app \<longleftrightarrow> registry_ok same (rows (app_machines app)) \<and> accounted (app_alerts app)"

lemma app_ok_route:
  assumes "machines_behave same (ow_db ow) rows" and "app_ok same rows app"
  shows "app_ok same rows (snd (route ow cfg q app))"
proof -
  have "registry_ok same (rows (app_machines (snd (route ow cfg q app))))"
    using assms machine_table.handle_keeps_ok [OF machine_table.intro [OF assms(1)]]
    by (simp add: route_machines app_ok_def)
  moreover have "accounted (app_alerts (snd (route ow cfg q app)))"
    using assms(2) accounted_serve_one
    by (auto simp: route_alerts app_ok_def Let_def split: option.split endpoint.split)
  ultimately show ?thesis by (simp add: app_ok_def)
qed

lemma app_ok_serve_all:
  assumes "machines_behave same (ow_db ow) rows"
  shows "app_ok same rows app \<Longrightarrow> app_ok same rows (snd (serve_all ow cfg qs app))"
proof (induction qs arbitrary: app)
  case (Cons q qs)
  from Cons.IH [OF app_ok_route [OF assms Cons.prems, of cfg q]] show ?case
    by (simp add: prod.case_eq_if Let_def)
qed simp

text \<open>
  C7. The server keeps its books over any requests, in any order, from its start: the machine table
  has one row per machine and identifier, the P0 notifications counted under a status are as many
  as the P0 rows with that status, the saves counted for a level are its rows, and every request is
  answered.
\<close>

theorem server_keeps_books:
  assumes "machines_behave same (ow_db ow) rows"
    and "start_main bw cfg = Listening app lines" and "registry_ok same (rows (app_machines app))"
    and "serve_all ow cfg qs app = (rs, app')"
  shows "registry_ok same (rows (app_machines app')) \<and>
    counters (app_alerts app') (serverAlertNotificationsTotal, [''P0'', nst]) =
      count_where (\<lambda>r. rec_Level r = ''P0'' \<and> rec_NotifyStatus r = nst) (saved_events (trace (app_alerts app'))) \<and>
    counters (app_alerts app') (serverAlertEventsSavedTotal, [lvl, ''success'']) +
    counters (app_alerts app') (serverAlertEventsSavedTotal, [lvl, ''failed'']) =
      count_where (\<lambda>r. rec_Level r = lvl) (saved_events (trace (app_alerts app'))) \<and>
    length rs = length qs"
proof -
  have "accounted (app_alerts app)"
    using assms(2) by (auto simp: start_main_def Let_def accounted_fresh split: sum.splits prod.splits)
  then have "app_ok same rows app" using assms(3) by (simp add: app_ok_def)
  from app_ok_serve_all [OF assms(1) this, of cfg qs] assms(4) have "app_ok same rows app'" by simp
  moreover have "length (fst (serve_all ow cfg qs app)) = length qs" for app
    by (induction qs arbitrary: app) (auto simp: prod.case_eq_if Let_def)
  from this [of app] assms(4) have "length rs = length qs" by simp
  ultimately show ?thesis
    by (simp add: app_ok_def accounted_def rows_of_level_def p0_rows_def counted_saves_def
        counted_notifications_def)
qed

text \<open>
  A request that reads changes nothing.
\<close>

theorem reads_change_nothing: "ar_method q = ''GET'' \<Longrightarrow> snd (route ow cfg q app) = app"
  by (cases "endpoint_of q")
    (auto simp: route_def call_endpoint_def endpoint_of_def routes_def Let_def split: option.split prod.split
      if_splits)

section \<open>What the list of alerts shows\<close>

text \<open>The rows the database accepted, and a row as it was given to the database.\<close>

definition accepted_rows :: "services \<Rightarrow> effect list \<Rightarrow> alert_event_record list" where
  "accepted_rows sv tr =
     concat (map (\<lambda>i. case tr ! i of
         CreateEvent r \<Rightarrow> if db_create sv (take i tr) r = None then [r] else []
       | _ \<Rightarrow> []) [0..<length tr])"

definition as_given :: "alert_event_record \<Rightarrow> alert_event_record" where
  "as_given r = r\<lparr>rec_ID := 0, rec_CreatedAt := 0\<rparr>"

text \<open>
  The row as the table keeps it: \<^verbatim>\<open>gorm\<close> stores a time with the precision of its column
  (\<^verbatim>\<open>datetime(3)\<close> for MySQL, by default); \<open>tick\<close> gives a time as it is stored.
\<close>

definition stored :: "(instant \<Rightarrow> instant) \<Rightarrow> alert_event_record \<Rightarrow> alert_event_record" where
  "stored tick r = as_given (r\<lparr>rec_TriggeredAt := tick (rec_TriggeredAt r)\<rparr>)"

text \<open>
  The table the queries see is that of the accepted rows, as they are stored, each with the
  identifier and the time of creation the database gave it.
\<close>

definition alerts_kept ::
    "(string \<Rightarrow> string \<Rightarrow> bool) \<Rightarrow> (instant \<Rightarrow> instant) \<Rightarrow> services \<Rightarrow>
       (effect list \<Rightarrow> alert_query \<Rightarrow> error + alert_event_record list) \<Rightarrow> bool"
where
  "alerts_kept same tick sv find_alerts \<longleftrightarrow>
     (\<forall>tr. \<exists>table. map as_given table = map (stored tick) (accepted_rows sv tr) \<and>
        alerts_behave same table (find_alerts tr))"

lemma matches_as_given [simp]: "matches same q (as_given r) = matches same q r"
proof -
  have "column c (as_given r) = column c r" for c by (simp add: column_def as_given_def)
  then show ?thesis by (simp add: matches_def)
qed

lemma accepted_rows_saved: "set (accepted_rows sv tr) \<subseteq> set (saved_events tr)"
proof
  fix r assume "r \<in> set (accepted_rows sv tr)"
  then obtain i where "i < length tr" "tr ! i = CreateEvent r"
    by (auto simp: accepted_rows_def split: effect.splits if_splits)
  then have "CreateEvent r \<in> set tr" by (metis nth_mem)
  then show "r \<in> set (saved_events tr)" by (force simp: saved_events_def)
qed

lemma matches_stored [simp]: "matches same q (stored tick r) = matches same q r"
proof -
  have "column c (stored tick r) = column c r" for c by (simp add: column_def stored_def as_given_def)
  then show ?thesis by (simp add: matches_def)
qed

lemma filter_stored:
  assumes "map as_given table = map (stored tick) rows"
  shows "map as_given (filter (matches same q) table) = map (stored tick) (filter (matches same q) rows)"
proof -
  have "filter (matches same q) (map as_given table) = filter (matches same q) (map (stored tick) rows)"
    using assms by simp
  then show ?thesis by (simp add: filter_map comp_def)
qed

lemma found_bounded:
  "alerts_kept same tick sv find_alerts \<Longrightarrow> find_alerts tr q = Inr evs \<Longrightarrow> length evs \<le> nat (aq_Limit q)"
  unfolding alerts_kept_def alerts_behave_def by fastforce

lemma recent_lists_accepted:
  assumes "alerts_kept same tick sv find_alerts"
    and "handle_recent (find_alerts tr) param = (200, Recent cnt fs bound evs)"
  shows "1 \<le> bound \<and> bound \<le> 100 \<and> cnt = int (length evs) \<and>
    (\<exists>found. evs = take (nat bound) found \<and>
       mset (map as_given found) =
         mset (map (stored tick) (filter (matches same (recent_query param)) (accepted_rows sv tr))) \<and>
       sorted_wrt (\<lambda>a b. rec_TriggeredAt b \<le> rec_TriggeredAt a) found)"
proof -
  let ?q = "recent_query param"
  from assms(1) obtain table where table: "map as_given table = map (stored tick) (accepted_rows sv tr)"
    "alerts_behave same table (find_alerts tr)"
    unfolding alerts_kept_def by blast
  from assms(2) have f: "find_alerts tr ?q = Inr evs" and h: "cnt = int (length evs)" "bound = aq_Limit ?q"
    by (auto simp: handle_recent_def Let_def split: sum.splits)
  from table(2) f obtain found where found: "evs = take (nat bound) found"
    "mset found = mset (filter (matches same ?q) table)"
    "sorted_wrt (in_order (aq_Order ?q)) found"
    unfolding alerts_behave_def h(2) by blast
  have "mset (map as_given found) = mset (map as_given (filter (matches same ?q) table))"
    by (simp add: found(2))
  also have "\<dots> = mset (map (stored tick) (filter (matches same ?q) (accepted_rows sv tr)))"
    by (simp only: filter_stored [OF table(1)])
  finally have "mset (map as_given found) = \<dots>" .
  moreover have "1 \<le> bound \<and> bound \<le> 100"
    using recent_limit_range [of "param ''limit''"] by (simp add: h(2) recent_query_def Let_def)
  ultimately show ?thesis using found(1,3) h(1) newest_first by blast
qed

text \<open>What a caller asks for: the filters that are not blank, each compared by the database.\<close>

definition asked_for :: "(string \<Rightarrow> string \<Rightarrow> bool) \<Rightarrow> (string \<Rightarrow> string) \<Rightarrow> alert_event_record \<Rightarrow> bool" where
  "asked_for same param r \<longleftrightarrow>
     (blank (param ''machine_id'') \<or> same (rec_MachineID r) (trim_space (param ''machine_id''))) \<and>
     (blank (param ''level'') \<or> same (rec_Level r) (trim_space (param ''level''))) \<and>
     (blank (param ''notify_status'') \<or> same (rec_NotifyStatus r) (trim_space (param ''notify_status'')))"

definition asked_limit :: "(string \<Rightarrow> string) \<Rightarrow> int" where
  "asked_limit param =
     (case atoi (trim_space (param ''limit'')) of
        Inl err \<Rightarrow> 20
      | Inr i \<Rightarrow> if i \<in> {1..100} then i else 20)"

lemma asked_matches: "matches same (recent_query param) = asked_for same param"
  by (rule ext) (simp add: matches_recent asked_for_def)

lemma asked_limit: "aq_Limit (recent_query param) = asked_limit param"
  by (auto simp: recent_query_def recent_limit_def asked_limit_def atoi_def parse_uint_def Let_def split: sum.split)

text \<open>
  C17. The API shows the alerts the evaluation has saved: the answer to a successful request for
  recent alerts encodes the newest of the rows the server gave the database and the database
  accepted, among those that satisfy the filters that are not blank: all of them, newest first, cut
  off at the limit (20 unless the request gives one from 1 to 100). Each row is there once and as it
  was saved, but for its identifier, its time of creation, and the precision of its time.
\<close>

theorem api_lists_saved_alerts:
  assumes "alerts_kept same tick (ow_services ow) (ow_find ow)"
    and "ar_method q = ''GET''" and "ar_path q = ''/api/v1/alerts/recent''"
    and "route ow cfg q app = (Replied 200 body, app')"
  shows "\<exists>fs found.
    (let param = query_param (ar_query q);
         saved = filter (asked_for same param) (accepted_rows (ow_services ow) (trace (app_alerts app)));
         evs = take (nat (asked_limit param)) found
     in body = recent_json (ow_floats ow) (ow_time ow) (Recent (int (length evs)) fs (asked_limit param) evs) \<and>
        app' = app \<and> set saved \<subseteq> set (saved_events (trace (app_alerts app))) \<and>
        mset (map as_given found) = mset (map (stored tick) saved) \<and>
        sorted_wrt (\<lambda>a b. rec_TriggeredAt b \<le> rec_TriggeredAt a) found)"
proof -
  let ?param = "query_param (ar_query q)" and ?tr = "trace (app_alerts app)"
  have e: "endpoint_of q = Some Recents" using assms(2,3) by (simp add: endpoint_of_def routes_def)
  obtain code reply where h: "handle_recent (ow_find ow ?tr) ?param = (code, reply)"
    by (cases "handle_recent (ow_find ow ?tr) ?param")
  with assms(4) e have r: "code = 200" "body = recent_json (ow_floats ow) (ow_time ow) reply" "app' = app"
    by (simp_all add: route_def call_endpoint_def Let_def)
  with h obtain cnt fs evs where reply: "reply = Recent cnt fs (asked_limit ?param) evs"
    by (auto simp: handle_recent_def asked_limit [symmetric] Let_def split: sum.splits)
  have "handle_recent (ow_find ow ?tr) ?param = (200, Recent cnt fs (asked_limit ?param) evs)"
    using h r reply by simp
  from recent_lists_accepted [OF assms(1) this] obtain found where
    "evs = take (nat (asked_limit ?param)) found" "cnt = int (length evs)"
    "mset (map as_given found) =
       mset (map (stored tick) (filter (asked_for same ?param) (accepted_rows (ow_services ow) ?tr)))"
    "sorted_wrt (\<lambda>a b. rec_TriggeredAt b \<le> rec_TriggeredAt a) found"
    unfolding asked_matches by blast
  with r reply accepted_rows_saved [of "ow_services ow" ?tr] show ?thesis
    by (intro exI [of _ fs] exI [of _ found]) (auto simp: Let_def)
qed

section \<open>An example outside\<close>

text \<open>
  A database that keeps its times in milliseconds, as \<^verbatim>\<open>datetime(3)\<close> does, and finds its rows by
  the clause of the query.
\<close>

definition milliseconds :: "instant \<Rightarrow> instant" where
  "milliseconds t = (t + 500000) div 1000000 * 1000000"

definition kept_rows :: "services \<Rightarrow> effect list \<Rightarrow> alert_event_record list" where
  "kept_rows sv tr = map (\<lambda>r. r\<lparr>rec_TriggeredAt := milliseconds (rec_TriggeredAt r)\<rparr>) (accepted_rows sv tr)"

fun ordered :: "order_clause \<Rightarrow> alert_event_record list \<Rightarrow> alert_event_record list" where
  "ordered Unordered rs = rs"
| "ordered (Ascending c) rs = sort_key rec_TriggeredAt rs"
| "ordered (Descending c) rs = rev (sort_key rec_TriggeredAt rs)"

definition find_saved :: "services \<Rightarrow> effect list \<Rightarrow> alert_query \<Rightarrow> error + alert_event_record list" where
  "find_saved sv tr q =
     Inr (take (nat (aq_Limit q)) (ordered (aq_Order q) (filter (matches (=) q) (kept_rows sv tr))))"

lemma ordered_in_order: "mset (ordered cl rs) = mset rs \<and> sorted_wrt (in_order cl) (ordered cl rs)"
proof -
  have "sorted_wrt (\<lambda>a b. rec_TriggeredAt a \<le> rec_TriggeredAt b) (sort_key rec_TriggeredAt rs)"
    by (metis sorted_map sorted_sort_key)
  moreover have "sorted_wrt (in_order Unordered) rs" by (induction rs) simp_all
  ultimately show ?thesis
    by (cases cl) (auto simp: sorted_wrt_rev elim: sorted_wrt_mono_rel [rotated])
qed

lemma find_saved_behaves: "alerts_behave (=) (kept_rows sv tr) (find_saved sv tr)"
  unfolding alerts_behave_def find_saved_def using ordered_in_order by blast

lemma find_saved_kept: "alerts_kept (=) milliseconds sv (find_saved sv)"
proof -
  have "map as_given (kept_rows sv tr) = map (stored milliseconds) (accepted_rows sv tr)" for tr
    by (simp add: kept_rows_def stored_def)
  then show ?thesis unfolding alerts_kept_def using find_saved_behaves by blast
qed

definition example_outside :: "(machine list, ref_redis) outside" where
  "example_outside =
     \<lparr>ow_floats = example_floats, ow_services = example_services 200, ow_redis = ref_client, ow_db = ref_db,
      ow_find = find_saved (example_services 200),
      ow_urls = \<lparr>url_Parse = (\<lambda>_. Inl ''no''), url_String = (\<lambda>_. [])\<rparr>, ow_time = itoa\<rparr>"

definition example_health :: health_deps where
  "example_health =
     \<lparr>sql_handle = None, sql_ping = None, redis_ping = None, request_error = (\<lambda>_. None),
      vm_reply = (\<lambda>_. Inl ''no''), latency = (\<lambda>_. 1)\<rparr>"

definition example_request :: "string \<Rightarrow> string \<Rightarrow> string \<Rightarrow> error + json \<Rightarrow> api_request" where
  "example_request m p q body =
     \<lparr>ar_method = m, ar_path = p, ar_query = q, ar_body = body, ar_clock = (\<lambda>_. 0), ar_unix = 1, ar_now = 0,
      ar_health = example_health\<rparr>"

definition example_boot :: "(machine list, ref_redis) boot_world" where
  "example_boot =
     \<lparr>bw_otel = \<lparr>new_exporter = (\<lambda>_. None), new_resource = (\<lambda>_. None), provider_shutdown = (\<lambda>_. None)\<rparr>,
      bw_ts = ''now'', bw_lower = id, bw_mysql = (\<lambda>i. if i < 2 then Inl ''refused'' else Inr []),
      bw_migrate = id, bw_redis_ping = Some ''refused'', bw_redis = (\<lambda>_. None)\<rparr>"

definition example_cfg :: app_config where
  "example_cfg = loadConfig example_floats Map.empty"

lemma example_boots:
  "\<exists>app lines. start_main example_boot example_cfg = Listening app lines \<and> app_machines app = []"
proof -
  have tr: "initTracing (bw_otel example_boot) ''now'' example_cfg = Inr (NoTracing, [])"
    by (simp add: initTracing_def start_tracing_def example_cfg_def loadConfig_def getEnvAsBool_def getEnv_def)
  have "connect_attempts example_cfg = 30"
    by (simp add: example_cfg_def loadConfig_def connect_attempts_def getEnvAsInt_def getEnv_def)
  then have "openMySQLWithRetry (bw_mysql example_boot) example_cfg =
      (Inr [], (2 - 1) * connect_interval example_cfg)"
    by (intro open_succeeds) (auto simp: example_boot_def)
  with tr show ?thesis
    by (auto simp: start_main_def example_boot_def Let_def)
qed

theorem server_keeps_books_witness:
  "\<exists>app lines rs app'. start_main example_boot example_cfg = Listening app lines \<and>
     serve_all example_outside example_cfg
       [example_request ''POST'' ''/api/v1/machines/register'' [] example_registration,
        example_request ''GET'' ''/ping'' [] (Inl ''EOF'')] app = (rs, app') \<and>
     registry_ok (=) (app_machines app') \<and> length rs = 2"
proof -
  let ?qs = "[example_request ''POST'' ''/api/v1/machines/register'' [] example_registration,
        example_request ''GET'' ''/ping'' [] (Inl ''EOF'')]"
  obtain app lines where b: "start_main example_boot example_cfg = Listening app lines" "app_machines app = []"
    using example_boots by blast
  obtain rs app' where s: "serve_all example_outside example_cfg ?qs app = (rs, app')"
    by (cases "serve_all example_outside example_cfg ?qs app")
  have m: "machines_behave (=) (ow_db example_outside) id"
    using ref_db_behaves by (simp add: example_outside_def)
  have "registry_ok (=) (id (app_machines app))" by (simp add: b(2) registry_ok_def)
  from server_keeps_books [OF m b(1) this s] b s show ?thesis by auto
qed

text \<open>Two alerts, saved 900 microseconds after a millisecond: the list has the later one first.\<close>

definition early_row :: alert_event_record where
  "early_row = example_row\<lparr>rec_TriggeredAt := 900000\<rparr>"

definition late_row :: alert_event_record where
  "late_row = example_row\<lparr>rec_TriggeredAt := 7000900000\<rparr>"

theorem api_lists_saved_alerts_witness:
  "\<exists>body app' fs evs.
     route example_outside example_cfg (example_request ''GET'' ''/api/v1/alerts/recent'' [] (Inl ''EOF''))
       \<lparr>app_tracing = NoTracing, app_notifier = NoopNotifier,
        app_alerts = (start_server (InRedis (\<lambda>_. None)))\<lparr>trace := [CreateEvent early_row, CreateEvent late_row]\<rparr>,
        app_machines = []\<rparr> = (Replied 200 body, app') \<and>
     body = recent_json example_floats itoa (Recent 2 fs 20 evs) \<and>
     map as_given evs = [stored milliseconds late_row, stored milliseconds early_row]"
proof -
  let ?q = "example_request ''GET'' ''/api/v1/alerts/recent'' [] (Inl ''EOF'')"
  let ?tr = "[CreateEvent early_row, CreateEvent late_row]"
  let ?app = "\<lparr>app_tracing = NoTracing, app_notifier = NoopNotifier,
        app_alerts = (start_server (InRedis (\<lambda>_. None)))\<lparr>trace := ?tr\<rparr>, app_machines = []\<rparr>
      :: (machine list, ref_redis) app"
  have kept: "alerts_kept (=) milliseconds (ow_services example_outside) (ow_find example_outside)"
    using find_saved_kept by (simp add: example_outside_def)
  have q: "ar_method ?q = ''GET''" "ar_path ?q = ''/api/v1/alerts/recent''" "ar_query ?q = []"
    by (simp_all add: example_request_def)
  have e: "endpoint_of ?q = Some Recents" by (simp add: endpoint_of_def routes_def q)
  obtain reply where h: "handle_recent (ow_find example_outside ?tr) (query_param []) = (200, reply)"
    by (simp add: handle_recent_def example_outside_def find_saved_def Let_def)
  then obtain body where r: "route example_outside example_cfg ?q ?app = (Replied 200 body, ?app)"
    by (simp add: route_def call_endpoint_def e q Let_def)
  have rows: "accepted_rows (ow_services example_outside) ?tr = [early_row, late_row]"
    by (simp add: accepted_rows_def example_outside_def example_services_def)
  have param: "query_param [] k = []" for k by (simp add: query_param_def parse_query_def)
  have asked: "asked_for (=) (query_param []) r" for r by (simp add: asked_for_def param)
  have lim: "asked_limit (query_param []) = 20"
    by (simp add: asked_limit_def param atoi_def parse_uint_def)
  from api_lists_saved_alerts [OF kept q(1,2) r] obtain fs found where found:
    "body = recent_json (ow_floats example_outside) (ow_time example_outside)
       (Recent (int (length (take 20 found))) fs 20 (take 20 found))"
    "mset (map as_given found) = {#stored milliseconds early_row, stored milliseconds late_row#}"
    "sorted_wrt (\<lambda>a b. rec_TriggeredAt b \<le> rec_TriggeredAt a) found"
    by (auto simp: Let_def q(3) rows asked lim)
  have "size (mset (map as_given found)) = 2" by (simp only: found(2)) simp
  then have "length found = 2" by simp
  then obtain a b where ab: "found = [a, b]" by (auto simp: length_Suc_conv numeral_2_eq_2)
  have times: "rec_TriggeredAt (stored milliseconds early_row) = 1000000"
    "rec_TriggeredAt (stored milliseconds late_row) = 7001000000"
    by (simp_all add: stored_def as_given_def early_row_def late_row_def milliseconds_def)
  have "rec_TriggeredAt (as_given b) \<le> rec_TriggeredAt (as_given a)"
    using found(3) by (simp add: ab as_given_def)
  moreover from found(2) ab have "(as_given a = stored milliseconds early_row \<and> as_given b = stored milliseconds late_row) \<or>
      (as_given a = stored milliseconds late_row \<and> as_given b = stored milliseconds early_row)"
    by (auto simp: add_eq_conv_ex)
  ultimately have "map as_given found = [stored milliseconds late_row, stored milliseconds early_row]"
    using ab times by auto
  with r found(1) ab show ?thesis
    by (intro exI [of _ body] exI [of _ ?app] exI [of _ fs] exI [of _ found])
      (simp add: example_outside_def)
qed

end
