(* ===== verification/Agent.thy ===== *)
theory Agent
  imports Http Cmd_Env
begin

text \<open>
  The agent (\<open>agent/main.go\<close>): how it names its machine, how it registers, and the loop that samples
  and reports.

  The network interfaces, the samples and the clock are arguments; what the server answers is a
  function of the requests sent so far. The state is those requests and the time slept. A pass of
  the loop can end in a panic, which is an error value.
\<close>

section \<open>Environment\<close>

definition agent_getEnv :: "environ \<Rightarrow> string \<Rightarrow> string \<Rightarrow> string" where
  "agent_getEnv env key defaultValue =
     (case env key of
        Some v \<Rightarrow> if trim_space v \<noteq> [] then v else defaultValue
      | None \<Rightarrow> defaultValue)"

definition serverBaseURL :: "environ \<Rightarrow> string" where
  "serverBaseURL env = agent_getEnv env ''SERVER_BASE_URL'' ''http://localhost:8080''"

definition defaultReportEvery :: duration where
  "defaultReportEvery = seconds 10"

section \<open>Interfaces\<close>

type_synonym bytes = "8 word list"

text \<open>
  \<^verbatim>\<open>net.IP\<close> is a slice of 4 or 16 bytes, or nil (the empty list here). \<open>To4\<close> recognises the 16-byte
  form of an IPv4 address.
\<close>

definition v4_in_v6 :: bytes where
  "v4_in_v6 = replicate 10 0 @ [255, 255]"

definition To4 :: "bytes \<Rightarrow> bytes option" where
  "To4 ip =
     (if length ip = 4 then Some ip
      else if length ip = 16 \<and> take 12 ip = v4_in_v6 then Some (drop 12 ip)
      else None)"

definition IsLoopback :: "bytes \<Rightarrow> bool" where
  "IsLoopback ip =
     (case To4 ip of
        Some ip4 \<Rightarrow> hd ip4 = 127
      | None \<Rightarrow> ip = replicate 15 0 @ [1])"

definition ip4_String :: "bytes \<Rightarrow> string" where
  "ip4_String ip4 = join_with ''.'' (map (\<lambda>b. itoa (uint b)) ip4)"

datatype net_addr = IPNet bytes | IPAddr bytes | OtherAddr

text \<open>An interface; a failed \<^verbatim>\<open>Addrs\<close> leaves no addresses.\<close>

record iface =
  FlagUp :: bool
  FlagLoopback :: bool
  Addrs :: "net_addr list"
  HardwareAddr :: bytes

definition lower_hex :: "nat \<Rightarrow> char" where
  "lower_hex d = (if d < 10 then char_of (48 + d) else char_of (87 + d))"

definition hex_byte :: "8 word \<Rightarrow> string" where
  "hex_byte b = [lower_hex (unat b div 16), lower_hex (unat b mod 16)]"

text \<open>\<open>HardwareAddr.String\<close>\<close>

definition hardware_string :: "bytes \<Rightarrow> string" where
  "hardware_string a = join_with '':'' (map hex_byte a)"

fun addr_ip :: "net_addr \<Rightarrow> bytes" where
  "addr_ip (IPNet ip) = ip"
| "addr_ip (IPAddr ip) = ip"
| "addr_ip OtherAddr = []"

fun first_ipv4 :: "net_addr list \<Rightarrow> string option" where
  "first_ipv4 [] = None"
| "first_ipv4 (addr # addrs) =
     (let ip = addr_ip addr in
      if ip = [] \<or> IsLoopback ip then first_ipv4 addrs
      else case To4 ip of Some ip4 \<Rightarrow> Some (ip4_String ip4) | None \<Rightarrow> first_ipv4 addrs)"

definition skipped :: "iface \<Rightarrow> bool" where
  "skipped iface \<longleftrightarrow> \<not> FlagUp iface \<or> FlagLoopback iface"

fun scan_ipv4 :: "iface list \<Rightarrow> string" where
  "scan_ipv4 [] = ''127.0.0.1''"
| "scan_ipv4 (iface # ifaces) =
     (if skipped iface then scan_ipv4 ifaces
      else case first_ipv4 (Addrs iface) of Some s \<Rightarrow> s | None \<Rightarrow> scan_ipv4 ifaces)"

definition detectLocalIPv4 :: "error + iface list \<Rightarrow> string" where
  "detectLocalIPv4 ifaces = (case ifaces of Inl err \<Rightarrow> ''127.0.0.1'' | Inr is \<Rightarrow> scan_ipv4 is)"

fun scan_mac :: "iface list \<Rightarrow> string" where
  "scan_mac [] = []"
| "scan_mac (iface # ifaces) =
     (if skipped iface then scan_mac ifaces
      else if trim_space (hardware_string (HardwareAddr iface)) \<noteq> []
      then hardware_string (HardwareAddr iface) else scan_mac ifaces)"

definition detectPrimaryMAC :: "error + iface list \<Rightarrow> string" where
  "detectPrimaryMAC ifaces = (case ifaces of Inl err \<Rightarrow> [] | Inr is \<Rightarrow> scan_mac is)"

section \<open>Identity\<close>

record agent_identity =
  id_MachineID :: string
  id_IP :: string
  id_Hostname :: string

definition buildMachineID :: "(string \<Rightarrow> string) \<Rightarrow> string \<Rightarrow> string \<Rightarrow> string" where
  "buildMachineID uni hostname mac =
     (let h = to_lower uni (replace_all CHR '' '' ''-'' (trim_space hostname));
          m = to_lower uni (replace_all CHR '':'' [] (trim_space mac))
      in if m = [] then h else h @ ''-'' @ m)"

definition detectIdentity ::
    "(string \<Rightarrow> string) \<Rightarrow> error + string \<Rightarrow> error + iface list \<Rightarrow> error + iface list \<Rightarrow> agent_identity"
where
  "detectIdentity uni osHostname ifaces ifaces' =
     (let hostname = (case osHostname of
            Inl err \<Rightarrow> ''unknown-host''
          | Inr h \<Rightarrow> if trim_space h = [] then ''unknown-host'' else h);
          ip = detectLocalIPv4 ifaces;
          mac = detectPrimaryMAC ifaces'
      in \<lparr>id_MachineID = buildMachineID uni hostname mac, id_IP = ip, id_Hostname = hostname\<rparr>)"

section \<open>Registration\<close>

record agent =
  posted :: "http_request list"
  slept :: duration

text \<open>The server's answers: an error, or a status.\<close>

type_synonym answers = "http_request list \<Rightarrow> http_request \<Rightarrow> error + int"

definition post :: "answers \<Rightarrow> http_request \<Rightarrow> agent \<Rightarrow> (error + int) \<times> agent" where
  "post srv req w = (srv (posted w) req, w\<lparr>posted := posted w @ [req]\<rparr>)"

definition pause :: "duration \<Rightarrow> agent \<Rightarrow> agent" where
  "pause d w = w\<lparr>slept := slept w + d\<rparr>"

definition json_post :: "string \<Rightarrow> json \<Rightarrow> http_request" where
  "json_post url body =
     \<lparr>req_method = ''POST'', req_url = url,
      req_headers = [(''Content-Type'', ''application/json'')], req_body = JsonBody body\<rparr>"

record register_payload =
  rp_MachineID :: string
  rp_IP :: string
  rp_Hostname :: string
  rp_Status :: string

definition register_json :: "register_payload \<Rightarrow> json" where
  "register_json p =
     JObj [(''machine_id'', JStr (rp_MachineID p)), (''ip'', JStr (rp_IP p)),
       (''hostname'', JStr (rp_Hostname p)), (''status'', JStr (rp_Status p))]"

text \<open>The flag and the error of \<open>registerOnce\<close>; marshalling four strings cannot fail.\<close>

definition registerOnce ::
    "answers \<Rightarrow> string \<Rightarrow> register_payload \<Rightarrow> agent \<Rightarrow> (bool \<times> error option) \<times> agent"
where
  "registerOnce srv registerURL payload w =
     (case post srv (json_post registerURL (register_json payload)) w of
        (Inl err, w1) \<Rightarrow> ((False, Some err), w1)
      | (Inr status, w1) \<Rightarrow>
          if status < 200 \<or> status \<ge> 300
          then ((False, Some (''register returned status='' @ itoa status)), w1)
          else ((True, None), w1))"

text \<open>The loop, on the number of attempts left, this one included.\<close>

fun register_loop :: "answers \<Rightarrow> string \<Rightarrow> register_payload \<Rightarrow> nat \<Rightarrow> duration \<Rightarrow> agent \<Rightarrow> bool \<times> agent"
where
  "register_loop srv url payload 0 backoff w = (False, w)"
| "register_loop srv url payload (Suc left) backoff w =
     (case registerOnce srv url payload w of
        ((ok, err), w1) \<Rightarrow>
          if err = None \<and> ok then (True, w1)
          else if 0 < left then
            register_loop srv url payload left
              (if backoff < seconds 8 then wrap64 (backoff * 2) else backoff) (pause backoff w1)
          else register_loop srv url payload left backoff w1)"

definition register_payload_of :: "agent_identity \<Rightarrow> register_payload" where
  "register_payload_of identity =
     \<lparr>rp_MachineID = id_MachineID identity, rp_IP = id_IP identity,
      rp_Hostname = id_Hostname identity, rp_Status = ''active''\<rparr>"

definition registerMachineWithRetry ::
    "answers \<Rightarrow> string \<Rightarrow> agent_identity \<Rightarrow> nat \<Rightarrow> agent \<Rightarrow> bool \<times> agent"
where
  "registerMachineWithRetry srv baseURL identity maxAttempts w =
     register_loop srv (baseURL @ ''/api/v1/machines/register'') (register_payload_of identity)
       maxAttempts (seconds 1) w"

section \<open>The reporting loop\<close>

record agent_metrics =
  am_MachineID :: string
  am_IP :: string
  am_CPUUsage :: float64
  am_MemUsage :: float64
  am_DiskUsage :: float64
  am_Timestamp :: int

definition metrics_json :: "float_lib \<Rightarrow> agent_metrics \<Rightarrow> error + json" where
  "metrics_json fl m =
     bind_err (encode_float fl (am_CPUUsage m)) (\<lambda>cpu.
     bind_err (encode_float fl (am_MemUsage m)) (\<lambda>mem.
     bind_err (encode_float fl (am_DiskUsage m)) (\<lambda>disk.
       Inr (JObj
         [(''machine_id'', JStr (am_MachineID m)), (''ip'', JStr (am_IP m)), (''cpu_usage'', cpu),
          (''mem_usage'', mem), (''disk_usage'', disk), (''timestamp'', encode_int (am_Timestamp m))]))))"

text \<open>
  What one pass reads: the CPU percentages, the memory percentage (\<^verbatim>\<open>nil\<close> when it cannot be read),
  the disk percentage, the Unix time, and the instants before and after a registration retry.
\<close>

record sample =
  cpu_percent :: "float64 list"
  mem_used :: "float64 option"
  disk_used :: "error + float64"
  unix_time :: int
  checked_at :: instant
  retried_at :: instant

definition collectDiskUsage :: "error + float64 \<Rightarrow> float64" where
  "collectDiskUsage usage = (case usage of Inl err \<Rightarrow> Fin 0 | Inr used \<Rightarrow> used)"

record agent_loop =
  io :: agent
  registered :: bool
  nextRegisterRetryAt :: instant

text \<open>The retry at the end of a pass.\<close>

definition retry_register ::
    "answers \<Rightarrow> string \<Rightarrow> agent_identity \<Rightarrow> sample \<Rightarrow> agent_loop \<Rightarrow> agent_loop"
where
  "retry_register srv baseURL identity s l =
     (if \<not> registered l \<and> nextRegisterRetryAt l < checked_at s then
        (case registerMachineWithRetry srv baseURL identity 1 (io l) of
           (ok, w1) \<Rightarrow>
             l\<lparr>io := w1, registered := ok, nextRegisterRetryAt := retried_at s + seconds 30\<rparr>)
      else l)"

definition agent_pass ::
    "float_lib \<Rightarrow> answers \<Rightarrow> string \<Rightarrow> agent_identity \<Rightarrow> sample \<Rightarrow> agent_loop \<Rightarrow> error + agent_loop"
where
  "agent_pass fl srv baseURL identity s l =
     (case cpu_percent s of
        [] \<Rightarrow> Inr (l\<lparr>io := pause defaultReportEvery (io l)\<rparr>)
      | cpu # _ \<Rightarrow>
          (case mem_used s of
             None \<Rightarrow> Inl ''nil pointer dereference''
           | Some mem \<Rightarrow>
               (let metrics = \<lparr>am_MachineID = id_MachineID identity, am_IP = id_IP identity,
                      am_CPUUsage = cpu, am_MemUsage = mem,
                      am_DiskUsage = collectDiskUsage (disk_used s), am_Timestamp = unix_time s\<rparr>
                in case metrics_json fl metrics of
                     Inl err \<Rightarrow> Inr (l\<lparr>io := pause defaultReportEvery (io l)\<rparr>)
                   | Inr data \<Rightarrow>
                       (case post srv (json_post (baseURL @ ''/api/v1/metrics'') data) (io l) of
                          (reply, w1) \<Rightarrow>
                            (let l2 = retry_register srv baseURL identity s (l\<lparr>io := w1\<rparr>) in
                             Inr (l2\<lparr>io := pause defaultReportEvery (io l2)\<rparr>))))))"

text \<open>The start of the program, and passes until the samples end or one panics.\<close>

definition agent_start :: "answers \<Rightarrow> string \<Rightarrow> agent_identity \<Rightarrow> instant \<Rightarrow> agent_loop" where
  "agent_start srv baseURL identity now =
     (case registerMachineWithRetry srv baseURL identity 5 \<lparr>posted = [], slept = 0\<rparr> of
        (ok, w) \<Rightarrow> \<lparr>io = w, registered = ok, nextRegisterRetryAt = now + seconds 30\<rparr>)"

fun agent_run ::
    "float_lib \<Rightarrow> answers \<Rightarrow> string \<Rightarrow> agent_identity \<Rightarrow> sample list \<Rightarrow> agent_loop \<Rightarrow> error + agent_loop"
where
  "agent_run fl srv baseURL identity [] l = Inr l"
| "agent_run fl srv baseURL identity (s # ss) l =
     bind_err (agent_pass fl srv baseURL identity s l) (agent_run fl srv baseURL identity ss)"

section \<open>Names and addresses: facts\<close>

lemma byte_bound: "unat (b :: 8 word) < 256"
  by (rule order_less_le_trans [OF unsigned_less]) simp

lemma hex_byte_length [simp]: "length (hex_byte b) = 2" "hex_byte b \<noteq> []"
  by (simp_all add: hex_byte_def)

lemma lower_hex_char:
  assumes "d < 16"
  shows "printable (lower_hex d) \<and> ascii (lower_hex d) \<and> lower_hex d \<noteq> CHR '':'' \<and>
    lower_byte (lower_hex d) = lower_hex d"
proof -
  have code: "(of_char (lower_hex d) :: nat) = (if d < 10 then 48 + d else 87 + d)"
    using assms by (simp add: lower_hex_def)
  moreover have "lower_hex d \<noteq> CHR '':''"
  proof
    assume "lower_hex d = CHR '':''"
    then have "(of_char (lower_hex d) :: nat) = 58" by simp
    with code assms show False by (simp split: if_splits)
  qed
  ultimately show ?thesis
    using assms by (auto simp: printable_def ascii_def lower_byte_def)
qed

lemma hex_byte_chars:
  assumes "c \<in> set (hex_byte b)"
  shows "printable c \<and> ascii c \<and> c \<noteq> CHR '':'' \<and> lower_byte c = c"
proof -
  have "unat b div 16 < 16" "unat b mod 16 < 16"
    using byte_bound [of b] by (simp_all add: less_mult_imp_div_less)
  note digits = this [THEN lower_hex_char]
  from assms have "c = lower_hex (unat b div 16) \<or> c = lower_hex (unat b mod 16)"
    by (simp add: hex_byte_def)
  with digits show ?thesis by (elim disjE) simp_all
qed

lemma lower_hex_inj: "d < 16 \<Longrightarrow> e < 16 \<Longrightarrow> lower_hex d = lower_hex e \<Longrightarrow> d = e"
  by (auto simp: lower_hex_def split: if_splits dest: arg_cong [of _ _ "of_char :: char \<Rightarrow> nat"])

lemma hex_byte_inj: "hex_byte a = hex_byte b \<Longrightarrow> a = b"
proof -
  assume eq: "hex_byte a = hex_byte b"
  have lt: "unat x div 16 < 16" "unat x mod 16 < 16" for x :: "8 word"
    using byte_bound [of x] by (simp_all add: less_mult_imp_div_less)
  have "unat a div 16 = unat b div 16" "unat a mod 16 = unat b mod 16"
    using eq lt lower_hex_inj by (auto simp: hex_byte_def)
  then have "unat a = unat b" by (metis div_mult_mod_eq)
  then show "a = b" by (simp add: word_unat_eq_iff)
qed

lemma hex_bytes_inj: "concat (map hex_byte as) = concat (map hex_byte bs) \<Longrightarrow> as = bs"
proof (induction as arbitrary: bs)
  case Nil
  then show ?case by (cases bs) auto
next
  case (Cons a as)
  then obtain b bs' where bs: "bs = b # bs'" by (cases bs) auto
  with Cons.prems have "hex_byte a @ concat (map hex_byte as) = hex_byte b @ concat (map hex_byte bs')"
    by simp
  then have "hex_byte a = hex_byte b" "concat (map hex_byte as) = concat (map hex_byte bs')"
    by (subst (asm) append_eq_append_conv; simp)+
  with Cons.IH bs show ?case by (auto dest: hex_byte_inj)
qed

lemma hardware_string_chars:
  "c \<in> set (hardware_string a) \<Longrightarrow> printable c \<and> ascii c \<and> lower_byte c = c"
  unfolding hardware_string_def
proof (induction a)
  case (Cons b bs)
  have colon: "printable CHR '':'' \<and> ascii CHR '':'' \<and> lower_byte CHR '':'' = CHR '':''"
    by (simp add: printable_def ascii_def lower_byte_def)
  from Cons show ?case
    by (cases bs) (use colon in \<open>auto dest!: hex_byte_chars\<close>)
qed simp

lemma replace_all_append: "replace_all old new (s @ t) = replace_all old new s @ replace_all old new t"
  by (simp add: replace_all_def)

lemma replace_all_clean: "old \<notin> set s \<Longrightarrow> replace_all old new s = s"
  by (induction s) (auto simp: replace_all_def)

lemma hardware_digits: "replace_all CHR '':'' [] (hardware_string a) = concat (map hex_byte a)"
proof -
  have clean: "replace_all CHR '':'' [] (hex_byte b) = hex_byte b" for b
    using hex_byte_chars by (intro replace_all_clean) blast
  have colon: "replace_all CHR '':'' [] '':'' = []" by (simp add: replace_all_def)
  show ?thesis
    unfolding hardware_string_def
  proof (induction a)
    case (Cons b bs)
    then show ?case
      by (cases bs) (simp_all add: replace_all_append clean colon, simp add: replace_all_def)
  qed (simp add: replace_all_def)
qed

lemma to_lower_fixed: "\<forall>c \<in> set s. ascii c \<and> lower_byte c = c \<Longrightarrow> to_lower uni s = s"
  by (simp add: to_lower_def list_all_iff map_idI)

text \<open>The part of an identifier that comes from the hardware address: its digits.\<close>

lemma mac_part:
  "to_lower uni (replace_all CHR '':'' [] (trim_space (hardware_string a))) = concat (map hex_byte a)"
proof -
  have "trim_space (hardware_string a) = hardware_string a"
    by (rule trim_space_printable) (use hardware_string_chars in blast)
  moreover have "to_lower uni (concat (map hex_byte a)) = concat (map hex_byte a)"
    by (rule to_lower_fixed) (auto dest: hex_byte_chars)
  ultimately show ?thesis by (simp add: hardware_digits)
qed

text \<open>
  C34. The machine identifier tells machines of one host name apart: two machines get the same
  identifier exactly when their hardware addresses have the same bytes.
\<close>

theorem machine_id_separates:
  "buildMachineID uni hostname (hardware_string a) = buildMachineID uni hostname (hardware_string b) \<longleftrightarrow>
     a = b"
proof -
  have empty: "concat (map hex_byte x) = [] \<longleftrightarrow> x = []" for x :: bytes
    by (cases x) simp_all
  show ?thesis
    by (auto simp: buildMachineID_def mac_part Let_def empty dest: hex_bytes_inj)
qed

definition usable_ipv4 :: "iface list \<Rightarrow> bytes set" where
  "usable_ipv4 ifaces =
     {ip4. \<exists>iface \<in> set ifaces. FlagUp iface \<and> \<not> FlagLoopback iface \<and>
        (\<exists>addr \<in> set (Addrs iface). To4 (addr_ip addr) = Some ip4 \<and> hd ip4 \<noteq> 127)}"

lemma To4_nonempty: "To4 ip = Some ip4 \<Longrightarrow> ip \<noteq> []"
  by (auto simp: To4_def split: if_splits)

lemma first_ipv4_cases:
  "case first_ipv4 addrs of
     Some s \<Rightarrow> \<exists>addr \<in> set addrs. \<exists>ip4. To4 (addr_ip addr) = Some ip4 \<and> hd ip4 \<noteq> 127 \<and> s = ip4_String ip4
   | None \<Rightarrow> \<forall>addr \<in> set addrs. \<forall>ip4. To4 (addr_ip addr) = Some ip4 \<longrightarrow> hd ip4 = 127"
proof (induction addrs)
  case (Cons addr addrs)
  then show ?case
    by (cases "To4 (addr_ip addr)")
      (auto simp: IsLoopback_def Let_def To4_nonempty split: option.splits)
qed simp

lemma scan_ipv4_cases:
  "(\<exists>ip4 \<in> usable_ipv4 ifaces. scan_ipv4 ifaces = ip4_String ip4) \<or>
   (usable_ipv4 ifaces = {} \<and> scan_ipv4 ifaces = ''127.0.0.1'')"
proof (induction ifaces)
  case (Cons iface ifaces)
  have split: "usable_ipv4 (iface # ifaces) =
      (if skipped iface then {} else {ip4. \<exists>addr \<in> set (Addrs iface). To4 (addr_ip addr) = Some ip4 \<and> hd ip4 \<noteq> 127}) \<union>
      usable_ipv4 ifaces"
    by (auto simp: usable_ipv4_def skipped_def)
  show ?case
    using Cons.IH first_ipv4_cases [of "Addrs iface"] unfolding split
    by (cases "first_ipv4 (Addrs iface)") auto
qed (simp add: usable_ipv4_def)

text \<open>
  The reported address is \<open>127.0.0.1\<close>, or the dotted form of an IPv4 address, not a loopback
  one, of an interface that is up and not a loopback interface; and \<open>127.0.0.1\<close> is reported only
  when the interfaces cannot be listed or none of them has such an address.
\<close>

theorem detected_ipv4:
  "case ifaces of
     Inl err \<Rightarrow> detectLocalIPv4 ifaces = ''127.0.0.1''
   | Inr is \<Rightarrow>
       if usable_ipv4 is = {} then detectLocalIPv4 ifaces = ''127.0.0.1''
       else detectLocalIPv4 ifaces \<in> ip4_String ` usable_ipv4 is"
  using scan_ipv4_cases by (cases ifaces) (auto simp: detectLocalIPv4_def)

section \<open>Registration: facts\<close>

definition attempt_ok :: "answers \<Rightarrow> http_request \<Rightarrow> http_request list \<Rightarrow> bool" where
  "attempt_ok srv req sent = (case srv sent req of Inl _ \<Rightarrow> False | Inr status \<Rightarrow> is_2xx status)"

lemma registerOnce_eq:
  "registerOnce srv url payload w =
     (let req = json_post url (register_json payload); ok = attempt_ok srv req (posted w) in
      ((ok, if ok then None else snd (fst (registerOnce srv url payload w))),
       w\<lparr>posted := posted w @ [req]\<rparr>)) \<and>
   (snd (fst (registerOnce srv url payload w)) = None \<longleftrightarrow>
      attempt_ok srv (json_post url (register_json payload)) (posted w))"
  by (auto simp: registerOnce_def post_def attempt_ok_def is_2xx_def Let_def split: sum.split)

text \<open>The waits between attempts: doubled from one second until they reach eight.\<close>

definition backoff_wait :: "nat \<Rightarrow> duration" where
  "backoff_wait i = min (2 ^ i) 8 * nanos_per_second"

fun waits :: "nat \<Rightarrow> nat \<Rightarrow> duration" where
  "waits i 0 = 0"
| "waits i (Suc n) = backoff_wait i + waits (Suc i) n"

text \<open>The number of failed attempts before the first success, of at most \<open>n\<close>.\<close>

fun failures :: "answers \<Rightarrow> http_request \<Rightarrow> nat \<Rightarrow> http_request list \<Rightarrow> nat" where
  "failures srv req 0 sent = 0"
| "failures srv req (Suc n) sent =
     (if attempt_ok srv req sent then 0 else Suc (failures srv req n (sent @ [req])))"

lemma failures_le: "failures srv req n sent \<le> n"
  by (induction n arbitrary: sent) auto

lemma failures_fail:
  "i < failures srv req n sent \<Longrightarrow> \<not> attempt_ok srv req (sent @ replicate i req)"
proof (induction n arbitrary: sent i)
  case (Suc n)
  then show ?case
    using Suc.IH [of "i - 1" "sent @ [req]"] by (cases i) (auto split: if_splits)
qed simp

lemma failures_success:
  "failures srv req n sent < n \<Longrightarrow> attempt_ok srv req (sent @ replicate (failures srv req n sent) req)"
proof (induction n arbitrary: sent)
  case (Suc n)
  then show ?case using Suc.IH [of "sent @ [req]"] by (auto split: if_splits)
qed simp

lemma next_backoff:
  "(if backoff_wait i < seconds 8 then wrap64 (backoff_wait i * 2) else backoff_wait i) =
     backoff_wait (Suc i)"
proof -
  have big: "(8 :: int) \<le> 2 ^ i" if "3 \<le> i"
    using power_increasing [OF that, of "2 :: int"] by simp
  have "i = 0 \<or> i = 1 \<or> i = 2 \<or> 3 \<le> i" by arith
  then show ?thesis
    using big by (auto simp: backoff_wait_def seconds_exact min_def in_int64_def)
qed

lemma register_loop_eq:
  "register_loop srv url payload n (backoff_wait i) w =
     (let req = json_post url (register_json payload); f = failures srv req n (posted w);
          tries = (if f < n then Suc f else n)
      in (f < n,
          w\<lparr>posted := posted w @ replicate tries req, slept := slept w + waits i (tries - 1)\<rparr>))"
proof (induction n arbitrary: i w)
  case (Suc n)
  let ?req = "json_post url (register_json payload)"
  obtain ok err w1 where o: "registerOnce srv url payload w = ((ok, err), w1)"
    by (cases "registerOnce srv url payload w") auto
  with registerOnce_eq [of srv url payload w]
  have ok: "ok = attempt_ok srv ?req (posted w)" and err: "err = None \<longleftrightarrow> ok"
    and w1: "w1 = w\<lparr>posted := posted w @ [?req]\<rparr>"
    by (auto simp: Let_def)
  show ?case
  proof (cases ok)
    case True
    with o ok err w1 show ?thesis by simp
  next
    case False
    note fail = this
    show ?thesis
    proof (cases n)
      case 0
      with fail o ok err w1 show ?thesis by simp
    next
      case (Suc n')
      have "register_loop srv url payload (Suc n) (backoff_wait i) w =
          register_loop srv url payload n (backoff_wait (Suc i)) (pause (backoff_wait i) w1)"
        using fail err Suc by (simp add: o next_backoff)
      with Suc.IH [of "Suc i" "pause (backoff_wait i) w1"] fail ok Suc w1 show ?thesis
        by (auto simp: pause_def Let_def)
    qed
  qed
qed simp

text \<open>
  C22. Registration tries until the first 2xx answer and at most the given number of times, always
  with the same request; it reports success exactly when one of the tries was answered so; and
  between the tries it has waited 1, 2, 4, 8, 8, ... seconds, with no wait after the last.
\<close>

theorem registration_retries:
  "let req = json_post (base @ ''/api/v1/machines/register'') (register_json (register_payload_of identity));
       f = failures srv req n (posted w);
       tries = (if f < n then Suc f else n)
   in registerMachineWithRetry srv base identity n w =
        (f < n, w\<lparr>posted := posted w @ replicate tries req, slept := slept w + waits 0 (tries - 1)\<rparr>) \<and>
      f \<le> n \<and> list_all (\<lambda>i. \<not> attempt_ok srv req (posted w @ replicate i req)) [0..<f] \<and>
      (f = n \<or> attempt_ok srv req (posted w @ replicate f req))"
proof -
  let ?req = "json_post (base @ ''/api/v1/machines/register'') (register_json (register_payload_of identity))"
  let ?f = "failures srv ?req n (posted w)"
  have "seconds 1 = backoff_wait 0" by (simp add: backoff_wait_def seconds_exact)
  then have "registerMachineWithRetry srv base identity n w =
      (?f < n, w\<lparr>posted := posted w @ replicate (if ?f < n then Suc ?f else n) ?req,
        slept := slept w + waits 0 ((if ?f < n then Suc ?f else n) - 1)\<rparr>)"
    by (simp add: registerMachineWithRetry_def register_loop_eq Let_def)
  moreover have "list_all (\<lambda>i. \<not> attempt_ok srv ?req (posted w @ replicate i ?req)) [0..<?f]"
    using failures_fail [of _ srv ?req n "posted w"] by (simp add: list_all_iff)
  moreover have "?f \<le> n" by (rule failures_le)
  moreover have "?f = n \<or> attempt_ok srv ?req (posted w @ replicate ?f ?req)"
    using failures_success [of srv ?req n "posted w"] \<open>?f \<le> n\<close> by (metis nat_less_le)
  ultimately show ?thesis unfolding Let_def by blast
qed

lemma registration_cases:
  obtains tries where "tries \<le> n"
    "registerMachineWithRetry srv base identity n w =
       (fst (registerMachineWithRetry srv base identity n w),
        w\<lparr>posted := posted w @ replicate tries (json_post (base @ ''/api/v1/machines/register'')
            (register_json (register_payload_of identity))), slept := slept w + waits 0 (tries - 1)\<rparr>)"
proof -
  let ?req = "json_post (base @ ''/api/v1/machines/register'') (register_json (register_payload_of identity))"
  let ?f = "failures srv ?req n (posted w)"
  have "seconds 1 = backoff_wait 0" by (simp add: backoff_wait_def seconds_exact)
  then have "registerMachineWithRetry srv base identity n w =
      (?f < n, w\<lparr>posted := posted w @ replicate (if ?f < n then Suc ?f else n) ?req,
        slept := slept w + waits 0 ((if ?f < n then Suc ?f else n) - 1)\<rparr>)"
    by (simp add: registerMachineWithRetry_def register_loop_eq Let_def)
  then show thesis by (intro that [of "if ?f < n then Suc ?f else n"]) auto
qed

text \<open>
  The start of the agent is bounded: whatever the server does, at most five registration
  requests and fifteen seconds of waiting come before the first sample.
\<close>

theorem start_is_bounded:
  "length (posted (io (agent_start srv base identity now))) \<le> 5 \<and>
   slept (io (agent_start srv base identity now)) \<le> 15 * 1000000000"
proof (rule registration_cases [of 5 srv base identity "\<lparr>posted = [], slept = 0\<rparr>"])
  fix tries
  let ?r = "registerMachineWithRetry srv base identity 5 \<lparr>posted = [], slept = 0\<rparr>"
  assume t: "tries \<le> (5 :: nat)" and r: "?r = (fst ?r, \<lparr>posted = [], slept = 0\<rparr>
      \<lparr>posted := posted \<lparr>posted = [], slept = 0\<rparr> @ replicate tries
         (json_post (base @ ''/api/v1/machines/register'') (register_json (register_payload_of identity))),
       slept := slept \<lparr>posted = [], slept = 0\<rparr> + waits 0 (tries - 1)\<rparr>)"
  have "waits 0 (tries - 1) \<le> 15 * nanos_per_second"
  proof -
    from t have "tries - 1 = 0 \<or> tries - 1 = 1 \<or> tries - 1 = 2 \<or> tries - 1 = 3 \<or> tries - 1 = 4" by arith
    then show ?thesis by (elim disjE) (simp_all add: eval_nat_numeral backoff_wait_def)
  qed
  with t show ?thesis
    unfolding agent_start_def by (subst (1 2) r) simp
qed

section \<open>The loop: facts\<close>

lemma waits_zero [simp]: "tries \<le> 1 \<Longrightarrow> waits 0 (tries - 1) = 0"
  by (cases tries) auto

text \<open>
  The request a sample asks for: there is one when the CPU and the memory have figures and all the
  figures can be encoded; and the request that registers the machine.
\<close>

definition reading :: "float_lib \<Rightarrow> agent_identity \<Rightarrow> sample \<Rightarrow> json option" where
  "reading fl identity s =
     (case (cpu_percent s, mem_used s) of
        (cpu # _, Some mem) \<Rightarrow>
          (case metrics_json fl \<lparr>am_MachineID = id_MachineID identity, am_IP = id_IP identity, am_CPUUsage = cpu,
                am_MemUsage = mem, am_DiskUsage = collectDiskUsage (disk_used s), am_Timestamp = unix_time s\<rparr> of
             Inl err \<Rightarrow> None
           | Inr data \<Rightarrow> Some data)
      | _ \<Rightarrow> None)"

definition metrics_post :: "string \<Rightarrow> json \<Rightarrow> http_request" where
  "metrics_post base data = json_post (base @ ''/api/v1/metrics'') data"

definition register_post :: "string \<Rightarrow> agent_identity \<Rightarrow> http_request" where
  "register_post base identity =
     json_post (base @ ''/api/v1/machines/register'') (register_json (register_payload_of identity))"

definition register_due :: "sample \<Rightarrow> agent_loop \<Rightarrow> bool" where
  "register_due s l \<longleftrightarrow> \<not> registered l \<and> nextRegisterRetryAt l < checked_at s"

lemma report_every: "defaultReportEvery = 10 * nanos_per_second"
  by (simp add: defaultReportEvery_def seconds_exact)

lemma post_urls [simp]:
  "req_url (metrics_post base data) = base @ ''/api/v1/metrics''"
  "req_url (register_post base identity) = base @ ''/api/v1/machines/register''"
  by (simp_all add: metrics_post_def register_post_def json_post_def)

lemma posts_differ [simp]: "metrics_post base data \<noteq> register_post base identity"
proof
  assume "metrics_post base data = register_post base identity"
  then have "req_url (metrics_post base data) = req_url (register_post base identity)" by (rule arg_cong)
  then show False by simp
qed

lemma register_once:
  "registerMachineWithRetry srv base identity (Suc 0) w =
     (attempt_ok srv (register_post base identity) (posted w), w\<lparr>posted := posted w @ [register_post base identity]\<rparr>)"
  by (simp add: registerMachineWithRetry_def registerOnce_def post_def attempt_ok_def register_post_def is_2xx_def
      not_less not_le split: sum.split)

lemmas loop_defs = pause_def report_every retry_register_def register_due_def register_once seconds_exact

lemma agent_pass_panics:
  "cpu_percent s \<noteq> [] \<Longrightarrow> mem_used s = None \<Longrightarrow> \<exists>err. agent_pass fl srv base identity s l = Inl err"
  by (cases "cpu_percent s") (simp_all add: agent_pass_def)

lemma agent_pass_exact:
  assumes "cpu_percent s = [] \<or> mem_used s \<noteq> None"
  obtains l' where "agent_pass fl srv base identity s l = Inr l'"
    "slept (io l') = slept (io l) + 10 * nanos_per_second"
    "posted (io l') = posted (io l) @
       (case reading fl identity s of None \<Rightarrow> []
        | Some data \<Rightarrow> metrics_post base data # (if register_due s l then [register_post base identity] else []))"
    "registered l' = (registered l \<or> (\<exists>data. reading fl identity s = Some data \<and> register_due s l \<and>
       attempt_ok srv (register_post base identity) (posted (io l) @ [metrics_post base data])))"
    "nextRegisterRetryAt l' =
       (if reading fl identity s \<noteq> None \<and> register_due s l then retried_at s + 30 * nanos_per_second
        else nextRegisterRetryAt l)"
proof (cases "reading fl identity s")
    case None
    have "agent_pass fl srv base identity s l = Inr (l\<lparr>io := pause defaultReportEvery (io l)\<rparr>)"
      using assms None by (auto simp: agent_pass_def reading_def Let_def split: list.splits option.splits sum.splits)
    from that [OF this] None show thesis by (simp add: loop_defs)
  next
    case (Some data)
    let ?l1 = "l\<lparr>io := (io l)\<lparr>posted := posted (io l) @ [metrics_post base data]\<rparr>\<rparr>"
    let ?l2 = "retry_register srv base identity s ?l1"
    have "agent_pass fl srv base identity s l = Inr (?l2\<lparr>io := pause defaultReportEvery (io ?l2)\<rparr>)"
      using Some
      by (auto simp: agent_pass_def reading_def post_def metrics_post_def Let_def
          split: list.splits option.splits sum.splits)
    then show thesis
    proof (rule that)
      show "slept (io (?l2\<lparr>io := pause defaultReportEvery (io ?l2)\<rparr>)) = slept (io l) + 10 * nanos_per_second"
        by (simp add: loop_defs)
      show "posted (io (?l2\<lparr>io := pause defaultReportEvery (io ?l2)\<rparr>)) = posted (io l) @
         (case reading fl identity s of None \<Rightarrow> []
          | Some data \<Rightarrow> metrics_post base data # (if register_due s l then [register_post base identity] else []))"
        by (simp add: loop_defs Some)
      show "registered (?l2\<lparr>io := pause defaultReportEvery (io ?l2)\<rparr>) =
          (registered l \<or> (\<exists>data. reading fl identity s = Some data \<and> register_due s l \<and>
             attempt_ok srv (register_post base identity) (posted (io l) @ [metrics_post base data])))"
        by (simp add: loop_defs Some)
      show "nextRegisterRetryAt (?l2\<lparr>io := pause defaultReportEvery (io ?l2)\<rparr>) =
          (if reading fl identity s \<noteq> None \<and> register_due s l then retried_at s + 30 * nanos_per_second
           else nextRegisterRetryAt l)"
        by (simp add: loop_defs Some)
    qed
qed

text \<open>
  C30. A run of the agent reports what it samples: it panics exactly when some sample has a CPU
  figure but no memory figures; otherwise it has posted, in order and once each, the encodings of
  the samples that have a CPU figure and can be encoded, and nothing else but requests to register
  the machine, none when it was registered at the start; and it has slept ten seconds per sample.
\<close>

theorem agent_run_effects:
  "case agent_run fl srv base identity ss l of
     Inl err \<Rightarrow> \<exists>s \<in> set ss. cpu_percent s \<noteq> [] \<and> mem_used s = None
   | Inr l' \<Rightarrow>
       (\<forall>s \<in> set ss. cpu_percent s = [] \<or> mem_used s \<noteq> None) \<and>
       (\<exists>new. posted (io l') = posted (io l) @ new \<and>
          filter (\<lambda>q. q \<noteq> register_post base identity) new =
            map (metrics_post base) (List.map_filter (reading fl identity) ss) \<and>
          (registered l \<longrightarrow> register_post base identity \<notin> set new \<and> registered l')) \<and>
       slept (io l') = slept (io l) + 10 * 1000000000 * int (length ss)"
proof (induction ss arbitrary: l)
  case Nil
  show ?case by (simp add: map_filter_simps)
next
  case (Cons s ss)
  show ?case
  proof (cases "cpu_percent s \<noteq> [] \<and> mem_used s = None")
    case True
    then obtain err where "agent_pass fl srv base identity s l = Inl err" using agent_pass_panics by blast
    with True show ?thesis by simp
  next
    case False
    obtain l1 where 1: "agent_pass fl srv base identity s l = Inr l1"
      "slept (io l1) = slept (io l) + 10 * nanos_per_second"
      "posted (io l1) = posted (io l) @
         (case reading fl identity s of None \<Rightarrow> []
          | Some data \<Rightarrow> metrics_post base data # (if register_due s l then [register_post base identity] else []))"
      "registered l \<longrightarrow> registered l1"
      using agent_pass_exact [of s fl srv base identity l] False by blast
    have due: "registered l \<longrightarrow> \<not> register_due s l" by (simp add: register_due_def)
    show ?thesis
    proof (cases "agent_run fl srv base identity ss l1")
      case (Inl err)
      with Cons.IH [of l1] 1(1) show ?thesis by simp
    next
      case (Inr l')
      with Cons.IH [of l1] obtain new where new: "posted (io l') = posted (io l1) @ new"
        "filter (\<lambda>q. q \<noteq> register_post base identity) new =
           map (metrics_post base) (List.map_filter (reading fl identity) ss)"
        "registered l1 \<longrightarrow> register_post base identity \<notin> set new \<and> registered l'"
        and rest: "\<forall>s \<in> set ss. cpu_percent s = [] \<or> mem_used s \<noteq> None"
        "slept (io l') = slept (io l1) + 10 * 1000000000 * int (length ss)"
        by auto
      let ?sent = "case reading fl identity s of None \<Rightarrow> []
          | Some data \<Rightarrow> metrics_post base data # (if register_due s l then [register_post base identity] else [])"
      have "posted (io l') = posted (io l) @ (?sent @ new)" using new(1) 1(3) by simp
      moreover have "filter (\<lambda>q. q \<noteq> register_post base identity) (?sent @ new) =
          map (metrics_post base) (List.map_filter (reading fl identity) (s # ss))"
        using new(2) by (simp add: map_filter_simps split: option.split)
      moreover have "registered l \<longrightarrow> register_post base identity \<notin> set (?sent @ new) \<and> registered l'"
        using new(3) 1(4) due posts_differ [THEN not_sym] by (auto split: option.split)
      ultimately show ?thesis
        using False rest 1(1,2) Inr by (auto simp: algebra_simps)
    qed
  qed
qed

text \<open>The registration requests of a run.\<close>

definition registrations :: "string \<Rightarrow> agent_loop \<Rightarrow> nat" where
  "registrations base l =
     count_where (\<lambda>q. req_url q = base @ ''/api/v1/machines/register'') (posted (io l))"

text \<open>The clock never goes back, in a pass and from one to the next.\<close>

fun clocked :: "instant \<Rightarrow> sample list \<Rightarrow> bool" where
  "clocked t [] = True"
| "clocked t (s # ss) = (t \<le> checked_at s \<and> checked_at s \<le> retried_at s \<and> clocked (retried_at s) ss)"

fun last_clock :: "instant \<Rightarrow> sample list \<Rightarrow> instant" where
  "last_clock t [] = t"
| "last_clock t (s # ss) = last_clock (retried_at s) ss"

lemma clocked_last: "clocked t ss \<Longrightarrow> t \<le> last_clock t ss"
  by (induction t ss rule: clocked.induct) auto

lemma registrations_rate:
  assumes "clocked t ss" and "agent_run fl srv base identity ss l = Inr l'"
  shows "int (registrations base l' - registrations base l) * (30 * nanos_per_second) \<le>
      max 0 (last_clock t ss + 30 * nanos_per_second - nextRegisterRetryAt l) \<and>
    registrations base l \<le> registrations base l'"
  using assms
proof (induction ss arbitrary: t l)
  case (Cons s ss)
  from Cons.prems(2) obtain l1 where p: "agent_pass fl srv base identity s l = Inr l1"
    "agent_run fl srv base identity ss l1 = Inr l'"
    by auto
  have "cpu_percent s = [] \<or> mem_used s \<noteq> None" using p(1) agent_pass_panics [of s fl srv base identity l] by (metis Inr_Inl_False)
  then obtain l2 where "agent_pass fl srv base identity s l = Inr l2" "posted (io l2) = posted (io l) @
       (case reading fl identity s of None \<Rightarrow> []
        | Some data \<Rightarrow> metrics_post base data # (if register_due s l then [register_post base identity] else []))"
    "nextRegisterRetryAt l2 =
       (if reading fl identity s \<noteq> None \<and> register_due s l then retried_at s + 30 * nanos_per_second
        else nextRegisterRetryAt l)"
    by (rule agent_pass_exact)
  moreover from this(1) p(1) have "l2 = l1" by simp
  ultimately have step: "registrations base l1 = registrations base l \<and> nextRegisterRetryAt l1 = nextRegisterRetryAt l \<or>
      registrations base l1 = Suc (registrations base l) \<and>
      nextRegisterRetryAt l1 = retried_at s + 30 * nanos_per_second \<and> nextRegisterRetryAt l < checked_at s"
    by (auto simp: registrations_def register_due_def split: option.splits)
  from Cons.prems(1) have c: "checked_at s \<le> retried_at s" "clocked (retried_at s) ss" by simp_all
  note ih = Cons.IH [OF c(2) p(2)]
  have "retried_at s \<le> last_clock (retried_at s) ss" by (rule clocked_last [OF c(2)])
  with step ih c(1) show ?case by (auto simp: Suc_diff_le algebra_simps)
qed (simp add: max_def)

lemma start_registrations:
  "registrations base (agent_start srv base identity now) \<le> 5"
  "nextRegisterRetryAt (agent_start srv base identity now) = now + 30 * nanos_per_second"
proof -
  have "registrations base l \<le> length (posted (io l))" for l by (simp add: registrations_def)
  then show "registrations base (agent_start srv base identity now) \<le> 5"
    using start_is_bounded order_trans by blast
qed (simp add: agent_start_def seconds_exact split: prod.split)

text \<open>
  C31. Registration does not flood the server, whatever it answers: after the start of the agent,
  which tries at most five times, a run on a clock that does not go back sends at most one
  registration request for every whole thirty seconds that have passed since the start.
\<close>

theorem registrations_spaced:
  assumes "clocked now ss" and "agent_run fl srv base identity ss (agent_start srv base identity now) = Inr l'"
  shows "int (registrations base l') \<le> 5 + (last_clock now ss - now) div (30 * 1000000000)"
proof -
  let ?l = "agent_start srv base identity now"
  have "0 \<le> last_clock now ss - now" using clocked_last [OF assms(1)] by simp
  then have "max 0 (last_clock now ss + 30 * nanos_per_second - nextRegisterRetryAt ?l) = last_clock now ss - now"
    by (simp add: start_registrations(2))
  with registrations_rate [OF assms]
  have rate: "int (registrations base l' - registrations base ?l) * (30 * nanos_per_second) \<le> last_clock now ss - now"
    and le: "registrations base ?l \<le> registrations base l'"
    by (simp_all only:)
  have "int (registrations base l' - registrations base ?l) \<le> (last_clock now ss - now) div (30 * nanos_per_second)"
    using zdiv_mono1 [OF rate, of "30 * nanos_per_second"] by simp
  with le start_registrations(1) [of base srv identity now] show ?thesis by simp
qed

definition example_sample_at :: "int \<Rightarrow> sample" where
  "example_sample_at t =
     \<lparr>cpu_percent = [Fin 5], mem_used = Some (Fin 6), disk_used = Inl ''denied'', unix_time = t,
      checked_at = t * nanos_per_second, retried_at = t * nanos_per_second\<rparr>"

definition example_identity :: agent_identity where
  "example_identity = \<lparr>id_MachineID = ''web-1-00'', id_IP = ''10.0.0.7'', id_Hostname = ''web-1''\<rparr>"

definition example_fl :: float_lib where
  "example_fl = \<lparr>ParseFloat = (\<lambda>_. None), FormatFloat = (\<lambda>_. ''0'')\<rparr>"

text \<open>A server that refuses everything, and two passes, one before and one after the thirty seconds.\<close>

theorem registrations_spaced_witness:
  "\<exists>l'. agent_run example_fl (\<lambda>_ _. Inl ''refused'') ''http://s'' example_identity
      [example_sample_at 13, example_sample_at 43] (agent_start (\<lambda>_ _. Inl ''refused'') ''http://s'' example_identity 0) =
      Inr l' \<and> registrations ''http://s'' l' \<le> 6"
proof -
  let ?l = "agent_start (\<lambda>_ _. Inl ''refused'') ''http://s'' example_identity 0"
  have clock: "clocked 0 [example_sample_at 13, example_sample_at 43]"
    by (simp add: example_sample_at_def)
  have "\<exists>l'. agent_run example_fl (\<lambda>_ _. Inl ''refused'') ''http://s'' example_identity
      [example_sample_at 13, example_sample_at 43] ?l = Inr l'"
    by (simp add: agent_pass_def example_sample_at_def metrics_json_def encode_float_def f64_finite_def
        collectDiskUsage_def Let_def split: prod.split)
  then obtain l' where r: "agent_run example_fl (\<lambda>_ _. Inl ''refused'') ''http://s'' example_identity
      [example_sample_at 13, example_sample_at 43] ?l = Inr l'" by blast
  from registrations_spaced [OF clock r] have "registrations ''http://s'' l' \<le> 6"
    by (simp add: example_sample_at_def)
  with r show ?thesis by blast
qed

theorem agent_run_effects_witness:
  "\<exists>l'. agent_run example_fl (\<lambda>_ _. Inr 200) ''http://s'' example_identity
      [example_sample_at 3, (example_sample_at 13)\<lparr>cpu_percent := []\<rparr>, example_sample_at 23]
      \<lparr>io = \<lparr>posted = [], slept = 0\<rparr>, registered = True, nextRegisterRetryAt = 0\<rparr> = Inr l' \<and>
    length (posted (io l')) = 2 \<and> slept (io l') = 30000000000"
proof -
  let ?ss = "[example_sample_at 3, (example_sample_at 13)\<lparr>cpu_percent := []\<rparr>, example_sample_at 23]"
  let ?l = "\<lparr>io = \<lparr>posted = [], slept = 0\<rparr>, registered = True, nextRegisterRetryAt = 0\<rparr>"
  have "\<exists>data. reading example_fl example_identity (example_sample_at t) = Some data" for t
    by (simp add: reading_def example_sample_at_def metrics_json_def encode_float_def f64_finite_def
        collectDiskUsage_def)
  then obtain d1 d2 where d: "reading example_fl example_identity (example_sample_at 3) = Some d1"
    "reading example_fl example_identity (example_sample_at 23) = Some d2" by meson
  have none: "reading example_fl example_identity ((example_sample_at 13)\<lparr>cpu_percent := []\<rparr>) = None"
    by (simp add: reading_def)
  have "\<exists>l'. agent_run example_fl (\<lambda>_ _. Inr 200) ''http://s'' example_identity ?ss ?l = Inr l'"
    by (simp add: agent_pass_def example_sample_at_def metrics_json_def encode_float_def f64_finite_def
        collectDiskUsage_def Let_def split: prod.split)
  then obtain l' where r: "agent_run example_fl (\<lambda>_ _. Inr 200) ''http://s'' example_identity ?ss ?l = Inr l'"
    by blast
  from agent_run_effects [where fl = example_fl and srv = "\<lambda>_ _. Inr 200" and base = "''http://s''"
      and identity = example_identity and ss = ?ss and l = ?l, unfolded r sum.case]
  obtain new where n: "posted (io l') = new" "slept (io l') = 30000000000"
    "filter (\<lambda>q. q \<noteq> register_post ''http://s'' example_identity) new =
       [metrics_post ''http://s'' d1, metrics_post ''http://s'' d2]"
    "register_post ''http://s'' example_identity \<notin> set new"
    by (auto simp: map_filter_simps d none)
  have "filter (\<lambda>q. q \<noteq> register_post ''http://s'' example_identity) new = new"
    using n(4) by (auto simp: filter_id_conv)
  with n r show ?thesis by auto
qed

end
