(* ===== verification/Assistant.thy ===== *)
theory Assistant
  imports Http Cmd_Env
begin

text \<open>
  The assistant (\<open>cmd/assistant\<close>): a read-only service that, for a machine, collects its recent
  alerts from the server, builds links to its metrics and logs, and can ask a language model for a
  diagnosis.

  What the server and the model answer is a function of the calls made so far; the JSON text of a
  document and reading one, reading a time, and the check of a URL are arguments (\<open>text_lib\<close>).
  A nil slice is \<open>None\<close>. The state of a request is the list of HTTP calls it has made, each with the
  time after which the client gives up.
\<close>

section \<open>Configuration\<close>

definition assistant_getEnv :: "environ \<Rightarrow> string \<Rightarrow> string \<Rightarrow> string" where
  "assistant_getEnv env key defaultValue =
     (let value = trim_space (os_getenv env key) in if value \<noteq> [] then value else defaultValue)"

definition assistant_getEnvAsInt :: "environ \<Rightarrow> string \<Rightarrow> int \<Rightarrow> int" where
  "assistant_getEnvAsInt env key defaultValue =
     (let value = trim_space (os_getenv env key) in
      if value = [] then defaultValue
      else case atoi value of Inl err \<Rightarrow> defaultValue | Inr parsed \<Rightarrow> parsed)"

definition assistant_getEnvAsBool :: "(string \<Rightarrow> string) \<Rightarrow> environ \<Rightarrow> string \<Rightarrow> bool \<Rightarrow> bool" where
  "assistant_getEnvAsBool uni env key defaultValue =
     (let value = to_lower uni (trim_space (os_getenv env key)) in
      if value = [] then defaultValue
      else bool_words [''1'', ''true'', ''yes'', ''y'', ''on''] [''0'', ''false'', ''no'', ''n'', ''off'']
             value defaultValue)"

definition trimRightSlash :: "string \<Rightarrow> string" where
  "trimRightSlash value = trim_right CHR ''/'' value"

record assistant_config =
  ListenAddr :: string
  ServerBaseURL :: string
  VictoriaBaseURL :: string
  LokiBaseURL :: string
  DefaultWindowMin :: int
  LLMEnabled :: bool
  LLMBaseURL :: string
  LLMAPIKey :: string
  LLMModel :: string
  LLMTimeoutSec :: int

definition assistant_loadConfig :: "(string \<Rightarrow> string) \<Rightarrow> environ \<Rightarrow> assistant_config" where
  "assistant_loadConfig uni env =
     \<lparr>ListenAddr = assistant_getEnv env ''ASSISTANT_LISTEN_ADDR'' '':8090'',
      ServerBaseURL = trimRightSlash
        (assistant_getEnv env ''ASSISTANT_SERVER_BASE_URL'' ''http://localhost:8080''),
      VictoriaBaseURL = trimRightSlash
        (assistant_getEnv env ''ASSISTANT_VICTORIA_BASE_URL'' ''http://localhost:8428''),
      LokiBaseURL = trimRightSlash
        (assistant_getEnv env ''ASSISTANT_LOKI_BASE_URL'' ''http://localhost:3100''),
      DefaultWindowMin = assistant_getEnvAsInt env ''ASSISTANT_DEFAULT_WINDOW_MINUTES'' 15,
      LLMEnabled = assistant_getEnvAsBool uni env ''LLM_ENABLED'' False,
      LLMBaseURL = trimRightSlash (assistant_getEnv env ''LLM_BASE_URL'' []),
      LLMAPIKey = assistant_getEnv env ''LLM_API_KEY'' [],
      LLMModel = assistant_getEnv env ''LLM_MODEL'' ''deepseek-chat'',
      LLMTimeoutSec = assistant_getEnvAsInt env ''LLM_TIMEOUT_SECONDS'' 15\<rparr>"

section \<open>Data\<close>

record triage_request =
  tr_MachineID :: string
  tr_AlertID :: int
  tr_WindowMinutes :: int

record alert_info =
  al_ID :: int
  al_MachineID :: string
  al_IP :: string
  al_Level :: string
  al_Metric :: string
  al_ThresholdValue :: float64
  al_CurrentValue :: float64
  al_TriggerCount :: int
  al_CooldownSec :: int
  al_NotifyStatus :: string
  al_NotifyError :: string
  al_TriggeredAt :: string
  al_CreatedAt :: string

record diagnosis =
  dg_Summary :: string
  dg_Severity :: string
  dg_PossibleCauses :: "string list option"
  dg_Evidence :: "string list option"
  dg_NextSteps :: "string list option"
  dg_Confidence :: float64

record triage_response =
  ts_MachineID :: string
  ts_WindowMinutes :: int
  ts_AlertContext :: "alert_info list option"
  ts_MetricQueries :: "string list"
  ts_LogQueries :: "string list"
  ts_LikelyCauses :: "string list"
  ts_RecommendedNext :: "string list"
  ts_Diagnosis :: "diagnosis option"
  ts_Notes :: "string list option"

text \<open>
  The libraries of texts: \<open>marshal\<close> and \<open>unmarshal\<close> are the JSON text of a document and its reading,
  \<open>time_text\<close> the reading of a time, which is kept as the text that prints it again, and \<open>bad_url\<close>
  the error \<^verbatim>\<open>http.NewRequestWithContext\<close> gives for a URL that does not parse.
\<close>

record text_lib =
  marshal :: "json \<Rightarrow> string"
  unmarshal :: "string \<Rightarrow> error + json"
  time_text :: "string \<Rightarrow> error + string"
  zero_time :: string
  bad_url :: "string \<Rightarrow> error option"

section \<open>Decoding\<close>

text \<open>An unsigned field: \<open>strconv.ParseUint\<close> in 64 bits.\<close>

definition uint_field :: "string \<Rightarrow> string \<Rightarrow> (int \<Rightarrow> 'a \<Rightarrow> 'a) \<Rightarrow> string \<times> 'a setter" where
  "uint_field struct fld upd =
     (fld, \<lambda>j a. case j of
        JNull \<Rightarrow> Inr a
      | JNum lit \<Rightarrow>
          (case parse_uint lit of
             Some i \<Rightarrow> if i < 2 ^ 64 then Inr (upd (int i) a)
                      else Inl (type_error (''number '' @ lit) (field_place struct fld) ''uint'')
           | None \<Rightarrow> Inl (type_error (''number '' @ lit) (field_place struct fld) ''uint''))
      | _ \<Rightarrow> Inl (type_error (json_kind j) (field_place struct fld) ''uint''))"

definition time_field :: "text_lib \<Rightarrow> string \<Rightarrow> (string \<Rightarrow> 'a \<Rightarrow> 'a) \<Rightarrow> string \<times> 'a setter" where
  "time_field lib fld upd =
     (fld, \<lambda>j a. case j of
        JNull \<Rightarrow> Inr a
      | JStr s \<Rightarrow> bind_err (time_text lib s) (\<lambda>t. Inr (upd t a))
      | _ \<Rightarrow> Inl ''Time.UnmarshalJSON: input is not a JSON string'')"

text \<open>A slice: null leaves nil, an array gives its elements, each decoded into a zero value.\<close>

definition slice_field ::
    "string \<Rightarrow> string \<Rightarrow> string \<Rightarrow> (json \<Rightarrow> error + 'b) \<Rightarrow> ('b list option \<Rightarrow> 'a \<Rightarrow> 'a) \<Rightarrow> string \<times> 'a setter"
where
  "slice_field struct fld ty elem upd =
     (fld, \<lambda>j a. case j of
        JNull \<Rightarrow> Inr (upd None a)
      | JArr js \<Rightarrow>
          bind_err (sequence_err (map elem js)) (\<lambda>xs. Inr (upd (Some xs) a))
      | _ \<Rightarrow> Inl (type_error (json_kind j) (field_place struct fld) ty))"

definition string_elem :: "string \<Rightarrow> string \<Rightarrow> json \<Rightarrow> error + string" where
  "string_elem struct fld j =
     (case j of
        JNull \<Rightarrow> Inr []
      | JStr s \<Rightarrow> Inr s
      | _ \<Rightarrow> Inl (type_error (json_kind j) (field_place struct fld) ''string''))"

definition triage_fields :: "(string \<times> triage_request setter) list" where
  "triage_fields =
     [string_field ''triageRequest'' ''machine_id'' (\<lambda>s r. r\<lparr>tr_MachineID := s\<rparr>),
      int_field in_int64 ''int'' ''triageRequest'' ''alert_id'' (\<lambda>i r. r\<lparr>tr_AlertID := i\<rparr>),
      int_field in_int64 ''int'' ''triageRequest'' ''window_minutes'' (\<lambda>i r. r\<lparr>tr_WindowMinutes := i\<rparr>)]"

definition alert_fields :: "float_lib \<Rightarrow> text_lib \<Rightarrow> (string \<times> alert_info setter) list" where
  "alert_fields fl lib =
     [uint_field ''alertRecord'' ''id'' (\<lambda>i r. r\<lparr>al_ID := i\<rparr>),
      string_field ''alertRecord'' ''machine_id'' (\<lambda>s r. r\<lparr>al_MachineID := s\<rparr>),
      string_field ''alertRecord'' ''ip'' (\<lambda>s r. r\<lparr>al_IP := s\<rparr>),
      string_field ''alertRecord'' ''level'' (\<lambda>s r. r\<lparr>al_Level := s\<rparr>),
      string_field ''alertRecord'' ''metric'' (\<lambda>s r. r\<lparr>al_Metric := s\<rparr>),
      float_field fl ''alertRecord'' ''threshold_value'' (\<lambda>x r. r\<lparr>al_ThresholdValue := x\<rparr>),
      float_field fl ''alertRecord'' ''current_value'' (\<lambda>x r. r\<lparr>al_CurrentValue := x\<rparr>),
      int_field in_int64 ''int'' ''alertRecord'' ''trigger_count'' (\<lambda>i r. r\<lparr>al_TriggerCount := i\<rparr>),
      int_field in_int64 ''int'' ''alertRecord'' ''cooldown_sec'' (\<lambda>i r. r\<lparr>al_CooldownSec := i\<rparr>),
      string_field ''alertRecord'' ''notify_status'' (\<lambda>s r. r\<lparr>al_NotifyStatus := s\<rparr>),
      string_field ''alertRecord'' ''notify_error'' (\<lambda>s r. r\<lparr>al_NotifyError := s\<rparr>),
      time_field lib ''triggered_at'' (\<lambda>t r. r\<lparr>al_TriggeredAt := t\<rparr>),
      time_field lib ''created_at'' (\<lambda>t r. r\<lparr>al_CreatedAt := t\<rparr>)]"

definition zero_alert :: "text_lib \<Rightarrow> alert_info" where
  "zero_alert lib =
     \<lparr>al_ID = 0, al_MachineID = [], al_IP = [], al_Level = [], al_Metric = [], al_ThresholdValue = Fin 0,
      al_CurrentValue = Fin 0, al_TriggerCount = 0, al_CooldownSec = 0, al_NotifyStatus = [],
      al_NotifyError = [], al_TriggeredAt = zero_time lib, al_CreatedAt = zero_time lib\<rparr>"

record recent_response =
  rr_Count :: int
  rr_Events :: "alert_info list option"

definition recent_fields :: "float_lib \<Rightarrow> text_lib \<Rightarrow> (string \<times> recent_response setter) list" where
  "recent_fields fl lib =
     [int_field in_int64 ''int'' ''recentAlertsResponse'' ''count'' (\<lambda>i r. r\<lparr>rr_Count := i\<rparr>),
      slice_field ''recentAlertsResponse'' ''events'' ''[]main.alertRecord''
        (\<lambda>j. decode_struct ''main.alertRecord'' (alert_fields fl lib) j (zero_alert lib))
        (\<lambda>es r. r\<lparr>rr_Events := es\<rparr>)]"

definition diagnosis_fields :: "float_lib \<Rightarrow> (string \<times> diagnosis setter) list" where
  "diagnosis_fields fl =
     [string_field ''diagnosis'' ''summary'' (\<lambda>s d. d\<lparr>dg_Summary := s\<rparr>),
      string_field ''diagnosis'' ''severity'' (\<lambda>s d. d\<lparr>dg_Severity := s\<rparr>),
      slice_field ''diagnosis'' ''possible_causes'' ''[]string'' (string_elem ''diagnosis'' ''possible_causes'')
        (\<lambda>xs d. d\<lparr>dg_PossibleCauses := xs\<rparr>),
      slice_field ''diagnosis'' ''evidence'' ''[]string'' (string_elem ''diagnosis'' ''evidence'')
        (\<lambda>xs d. d\<lparr>dg_Evidence := xs\<rparr>),
      slice_field ''diagnosis'' ''next_steps'' ''[]string'' (string_elem ''diagnosis'' ''next_steps'')
        (\<lambda>xs d. d\<lparr>dg_NextSteps := xs\<rparr>),
      float_field fl ''diagnosis'' ''confidence'' (\<lambda>x d. d\<lparr>dg_Confidence := x\<rparr>)]"

definition zero_diagnosis :: diagnosis where
  "zero_diagnosis =
     \<lparr>dg_Summary = [], dg_Severity = [], dg_PossibleCauses = None, dg_Evidence = None,
      dg_NextSteps = None, dg_Confidence = Fin 0\<rparr>"

text \<open>The answer of the model: the contents of the messages of its choices.\<close>

definition choice_content :: "json \<Rightarrow> error + string" where
  "choice_content j =
     decode_struct ''struct { Message struct }''
       [(''message'', \<lambda>j a. decode_struct ''struct { Content string }''
          [string_field [] ''content'' (\<lambda>s _. s)] j a)] j []"

definition choices_fields :: "(string \<times> string list option setter) list" where
  "choices_fields = [slice_field [] ''choices'' ''[]struct'' choice_content (\<lambda>xs _. xs)]"

section \<open>Encoding\<close>

definition slice_json :: "('a \<Rightarrow> error + json) \<Rightarrow> 'a list option \<Rightarrow> error + json" where
  "slice_json enc xs =
     (case xs of
        None \<Rightarrow> Inr JNull
      | Some ys \<Rightarrow> bind_err (sequence_err (map enc ys)) (\<lambda>js. Inr (JArr js)))"

abbreviation strings_json :: "string list \<Rightarrow> json" where
  "strings_json xs \<equiv> JArr (map JStr xs)"

definition alert_json :: "float_lib \<Rightarrow> alert_info \<Rightarrow> error + json" where
  "alert_json fl a =
     bind_err (encode_float fl (al_ThresholdValue a)) (\<lambda>th.
     bind_err (encode_float fl (al_CurrentValue a)) (\<lambda>cur.
       Inr (JObj [(''id'', encode_int (al_ID a)), (''machine_id'', JStr (al_MachineID a)),
         (''ip'', JStr (al_IP a)), (''level'', JStr (al_Level a)), (''metric'', JStr (al_Metric a)),
         (''threshold_value'', th), (''current_value'', cur),
         (''trigger_count'', encode_int (al_TriggerCount a)), (''cooldown_sec'', encode_int (al_CooldownSec a)),
         (''notify_status'', JStr (al_NotifyStatus a)), (''notify_error'', JStr (al_NotifyError a)),
         (''triggered_at'', JStr (al_TriggeredAt a)), (''created_at'', JStr (al_CreatedAt a))])))"

text \<open>The fields \<open>triageContext\<close> and \<open>triageResponse\<close> share.\<close>

definition context_json :: "float_lib \<Rightarrow> triage_response \<Rightarrow> error + (string \<times> json) list" where
  "context_json fl r =
     bind_err (slice_json (alert_json fl) (ts_AlertContext r)) (\<lambda>alerts.
       Inr [(''machine_id'', JStr (ts_MachineID r)), (''window_minutes'', encode_int (ts_WindowMinutes r)),
         (''alert_context'', alerts), (''metric_queries'', strings_json (ts_MetricQueries r)),
         (''log_queries'', strings_json (ts_LogQueries r)), (''likely_causes'', strings_json (ts_LikelyCauses r)),
         (''recommended_next'', strings_json (ts_RecommendedNext r))])"

definition string_slice :: "string list option \<Rightarrow> json" where
  "string_slice xs = (case xs of None \<Rightarrow> JNull | Some ys \<Rightarrow> strings_json ys)"

definition diagnosis_json :: "float_lib \<Rightarrow> diagnosis \<Rightarrow> error + json" where
  "diagnosis_json fl d =
     bind_err (encode_float fl (dg_Confidence d)) (\<lambda>conf.
       Inr (JObj [(''summary'', JStr (dg_Summary d)), (''severity'', JStr (dg_Severity d)),
         (''possible_causes'', string_slice (dg_PossibleCauses d)), (''evidence'', string_slice (dg_Evidence d)),
         (''next_steps'', string_slice (dg_NextSteps d)), (''confidence'', conf)]))"

definition response_json :: "float_lib \<Rightarrow> triage_response \<Rightarrow> error + json" where
  "response_json fl r =
     bind_err (context_json fl r) (\<lambda>context.
     bind_err
       (case ts_Diagnosis r of
          None \<Rightarrow> Inr []
        | Some d \<Rightarrow> bind_err (diagnosis_json fl d) (\<lambda>j. Inr [(''diagnosis'', j)]))
       (\<lambda>diag. Inr (JObj (context @ diag @ [(''notes'', string_slice (ts_Notes r))]))))"

section \<open>Calls\<close>

record http_call =
  call_request :: http_request
  give_up_after :: duration

type_synonym peers = "http_call list \<Rightarrow> http_request \<Rightarrow> error + http_response"

definition do_call :: "peers \<Rightarrow> http_request \<Rightarrow> duration \<Rightarrow> http_call list \<Rightarrow>
    (error + http_response) \<times> http_call list" where
  "do_call srv req timeout calls =
     (srv calls req, calls @ [\<lparr>call_request = req, give_up_after = timeout\<rparr>])"

definition zero_recent :: recent_response where
  "zero_recent = \<lparr>rr_Count = 0, rr_Events = None\<rparr>"

definition recent_url :: "assistant_config \<Rightarrow> triage_request \<Rightarrow> string" where
  "recent_url cfg req =
     ServerBaseURL cfg @ ''/api/v1/alerts/recent?'' @
       encode_values [(''limit'', ''5''), (''machine_id'', tr_MachineID req)]"

text \<open>The choice among the events the server has answered.\<close>

definition select_alerts ::
    "int \<Rightarrow> alert_info list option \<Rightarrow> alert_info list option \<times> string list option"
where
  "select_alerts alertID events =
     (if alertID > 0 then
        (case find (\<lambda>event. wrap64 (al_ID event) = alertID) (case events of None \<Rightarrow> [] | Some es \<Rightarrow> es) of
           Some event \<Rightarrow> (Some [event], None)
         | None \<Rightarrow>
             (events, Some [''alert_id '' @ itoa alertID @ '' was not found in recent alert window'']))
      else (events, None))"

definition fetchRecentAlerts ::
    "float_lib \<Rightarrow> text_lib \<Rightarrow> peers \<Rightarrow> assistant_config \<Rightarrow> triage_request \<Rightarrow> http_call list \<Rightarrow>
     (alert_info list option \<times> string list option) \<times> http_call list"
where
  "fetchRecentAlerts fl lib srv cfg req calls =
     (let requestURL = recent_url cfg req in
      case bad_url lib requestURL of
        Some err \<Rightarrow> ((None, Some [''failed to build recent-alert request: '' @ err]), calls)
      | None \<Rightarrow>
          (case do_call srv \<lparr>req_method = ''GET'', req_url = requestURL, req_headers = [], req_body = NoBody\<rparr>
                  (seconds 5) calls of
             (Inl err, calls1) \<Rightarrow> ((None, Some [''failed to fetch recent alerts: '' @ err]), calls1)
           | (Inr resp, calls1) \<Rightarrow>
               if StatusCode resp < 200 \<or> StatusCode resp \<ge> 300
               then ((None, Some [''recent alerts endpoint returned status '' @ itoa (StatusCode resp)]), calls1)
               else
                 (case bind_err (RespBody resp)
                         (\<lambda>j. decode_struct ''main.recentAlertsResponse'' (recent_fields fl lib) j zero_recent) of
                    Inl err \<Rightarrow> ((None, Some [''failed to decode recent alerts: '' @ err]), calls1)
                  | Inr payload \<Rightarrow> (select_alerts (tr_AlertID req) (rr_Events payload), calls1))))"

section \<open>Links and advice\<close>

definition unix_seconds :: "instant \<Rightarrow> int" where
  "unix_seconds t = t div nanos_per_second"

definition vmRangeURL :: "assistant_config \<Rightarrow> string \<Rightarrow> instant \<Rightarrow> instant \<Rightarrow> string \<Rightarrow> string" where
  "vmRangeURL cfg query start ending step =
     VictoriaBaseURL cfg @ ''/api/v1/query_range?'' @
       encode_values [(''end'', itoa (unix_seconds ending)), (''query'', query),
         (''start'', itoa (unix_seconds start)), (''step'', step)]"

definition window_start :: "triage_request \<Rightarrow> instant \<Rightarrow> instant" where
  "window_start req ending =
     ending + wrap64 (wrap64 (- tr_WindowMinutes req) * (60 * nanos_per_second))"

definition selector :: "string \<Rightarrow> string \<Rightarrow> string" where
  "selector metric machine = metric @ ''{machine_id='' @ [CHR 0x22] @ machine @ [CHR 0x22] @ ''}''"

definition buildMetricQueries :: "assistant_config \<Rightarrow> triage_request \<Rightarrow> instant \<Rightarrow> string list" where
  "buildMetricQueries cfg req now =
     (let start = window_start req now; step = ''30s'' in
      [vmRangeURL cfg (selector ''host_cpu_usage'' (tr_MachineID req)) start now step,
       vmRangeURL cfg (selector ''host_mem_usage'' (tr_MachineID req)) start now step,
       vmRangeURL cfg (selector ''host_disk_usage'' (tr_MachineID req)) start now step])"

definition log_query :: "string \<Rightarrow> string" where
  "log_query machine =
     ''{namespace='' @ [CHR 0x22] @ ''cloudops'' @ [CHR 0x22] @ ''} |= '' @ [CHR 0x22] @ machine @ [CHR 0x22]"

definition buildLogQueries :: "assistant_config \<Rightarrow> triage_request \<Rightarrow> string list" where
  "buildLogQueries cfg req =
     [LokiBaseURL cfg @ ''/loki/api/v1/query_range?'' @
        encode_values [(''limit'', ''100''), (''query'', log_query (tr_MachineID req))]]"

fun buildLikelyCauses :: "alert_info list \<Rightarrow> string list" where
  "buildLikelyCauses [] =
     [''No recent alert-specific cause was found.'',
      ''Review metric trend links and related logs for the selected machine.'']"
| "buildLikelyCauses (alert # alerts) =
     (if al_Metric alert = ''cpu_usage'' then
        [''CPU usage exceeded the configured sustained threshold.'',
         ''Likely causes include a bursty process, overloaded service, tight loop, or insufficient CPU limit.'']
      else buildLikelyCauses alerts)"

definition buildRecommendedNext :: "alert_info list \<Rightarrow> string list" where
  "buildRecommendedNext alerts =
     [''Open the metric query links and compare CPU, memory, and disk trends over the incident window.'',
      ''Check Loki logs for the same machine_id around the alert timestamp.'',
      ''Check Jaeger traces for slow ingest or downstream write errors if the incident involves pipeline health.''] @
     (if list_ex (\<lambda>alert. al_NotifyStatus alert = ''failed'') alerts
      then [''Notification failed for at least one alert; verify webhook configuration and provider response.'']
      else [])"

section \<open>The diagnosis\<close>

definition cleanJSONContent :: "string \<Rightarrow> string" where
  "cleanJSONContent content =
     (let content = trim_space content;
          content = trim_prefix ''```json'' content;
          content = trim_prefix ''```'' content;
          content = trim_suffix ''```'' content
      in trim_space content)"

definition system_prompt :: string where
  "system_prompt = join_with '' ''
     [''You are a read-only AIOps diagnostic assistant.'',
      ''Use only the provided alert, metric-query, log-query, and runbook-like context.'',
      ''Do not claim that you executed commands or changed infrastructure.'',
      ''Return only strict JSON with fields: summary, severity, possible_causes, evidence, next_steps, confidence.'',
      ''severity must be one of info, warning, critical.'',
      ''confidence must be a number from 0 to 1.'']"

definition llm_body :: "assistant_config \<Rightarrow> string \<Rightarrow> json" where
  "llm_body cfg payload =
     JObj [(''messages'', JArr
              [JObj [(''content'', JStr system_prompt), (''role'', JStr ''system'')],
               JObj [(''content'', JStr (''Diagnose this monitoring incident context:'' @ [CHR 0x0A] @ payload)),
                 (''role'', JStr ''user'')]]),
           (''model'', JStr (LLMModel cfg)), (''temperature'', JNum ''0.2'')]"

definition llm_timeout :: "assistant_config \<Rightarrow> duration" where
  "llm_timeout cfg =
     (let timeout = seconds (LLMTimeoutSec cfg) in if timeout \<le> 0 then seconds 15 else timeout)"

definition llm_request :: "assistant_config \<Rightarrow> json \<Rightarrow> http_request" where
  "llm_request cfg body =
     \<lparr>req_method = ''POST'', req_url = LLMBaseURL cfg @ ''/v1/chat/completions'',
      req_headers = (''Content-Type'', ''application/json'') #
        (if LLMAPIKey cfg \<noteq> [] then [(''Authorization'', ''Bearer '' @ LLMAPIKey cfg)] else []),
      req_body = JsonBody body\<rparr>"

text \<open>What is made of the contents of the choices.\<close>

definition read_diagnosis :: "float_lib \<Rightarrow> text_lib \<Rightarrow> string list option \<Rightarrow> error + diagnosis" where
  "read_diagnosis fl lib choices =
     (case choices of
        Some (content # others) \<Rightarrow>
          (case bind_err (unmarshal lib (cleanJSONContent content))
                  (\<lambda>j. decode_struct ''main.diagnosis'' (diagnosis_fields fl) j zero_diagnosis) of
             Inl err \<Rightarrow> Inl (''failed to parse llm diagnosis json: '' @ err)
           | Inr diag \<Rightarrow>
               if dg_Summary diag = [] then Inl ''llm diagnosis summary is empty'' else Inr diag)
      | _ \<Rightarrow> Inl ''llm response has no choices'')"

definition diagnoseWithLLM ::
    "float_lib \<Rightarrow> text_lib \<Rightarrow> peers \<Rightarrow> assistant_config \<Rightarrow> triage_response \<Rightarrow> http_call list \<Rightarrow>
     (error + diagnosis) \<times> http_call list"
where
  "diagnoseWithLLM fl lib srv cfg input calls =
     (if LLMBaseURL cfg = [] then (Inl ''LLM_BASE_URL is empty'', calls)
      else if trim_space (LLMModel cfg) = [] then (Inl ''LLM_MODEL is empty'', calls)
      else
        (case context_json fl input of
           Inl err \<Rightarrow> (Inl err, calls)
         | Inr context \<Rightarrow>
             (let req = llm_request cfg (llm_body cfg (marshal lib (JObj context))) in
              case bad_url lib (req_url req) of
                Some err \<Rightarrow> (Inl err, calls)
              | None \<Rightarrow>
                  (case do_call srv req (llm_timeout cfg) calls of
                     (Inl err, calls1) \<Rightarrow> (Inl err, calls1)
                   | (Inr resp, calls1) \<Rightarrow>
                       if StatusCode resp < 200 \<or> StatusCode resp \<ge> 300
                       then (Inl (''llm endpoint returned status '' @ itoa (StatusCode resp)), calls1)
                       else
                         (case bind_err (RespBody resp)
                                 (\<lambda>j. decode_struct ''struct { Choices []struct }'' choices_fields j None) of
                            Inl err \<Rightarrow> (Inl err, calls1)
                          | Inr choices \<Rightarrow> (read_diagnosis fl lib choices, calls1))))))"

section \<open>The handler\<close>

text \<open>The status and the body; an answer that cannot be encoded leaves the body empty.\<close>

definition writeJSON :: "int \<Rightarrow> error + json \<Rightarrow> int \<times> json option" where
  "writeJSON status payload = (status, case payload of Inl err \<Rightarrow> None | Inr j \<Rightarrow> Some j)"

definition zero_triage :: triage_request where
  "zero_triage = \<lparr>tr_MachineID = [], tr_AlertID = 0, tr_WindowMinutes = 0\<rparr>"

definition read_triage :: "assistant_config \<Rightarrow> error + json \<Rightarrow> error + triage_request" where
  "read_triage cfg body =
     (case bind_err body (\<lambda>j. decode_struct ''main.triageRequest'' triage_fields j zero_triage) of
        Inl err \<Rightarrow> Inl err
      | Inr req \<Rightarrow>
          (let req = req\<lparr>tr_MachineID := trim_space (tr_MachineID req)\<rparr> in
           if tr_MachineID req = [] then Inl ''machine_id cannot be empty''
           else Inr (if tr_WindowMinutes req \<le> 0 then req\<lparr>tr_WindowMinutes := DefaultWindowMin cfg\<rparr> else req)))"

definition triage ::
    "float_lib \<Rightarrow> text_lib \<Rightarrow> peers \<Rightarrow> assistant_config \<Rightarrow> instant \<Rightarrow> triage_request \<Rightarrow> http_call list \<Rightarrow>
     triage_response \<times> http_call list"
where
  "triage fl lib srv cfg now req calls =
     (case fetchRecentAlerts fl lib srv cfg req calls of
        ((alerts, notes), calls1) \<Rightarrow>
          (let events = (case alerts of None \<Rightarrow> [] | Some es \<Rightarrow> es);
               resp = \<lparr>ts_MachineID = tr_MachineID req, ts_WindowMinutes = tr_WindowMinutes req,
                 ts_AlertContext = alerts, ts_MetricQueries = buildMetricQueries cfg req now,
                 ts_LogQueries = buildLogQueries cfg req, ts_LikelyCauses = buildLikelyCauses events,
                 ts_RecommendedNext = buildRecommendedNext events, ts_Diagnosis = None, ts_Notes = notes\<rparr>
           in if LLMEnabled cfg then
                (case diagnoseWithLLM fl lib srv cfg resp calls1 of
                   (Inl err, calls2) \<Rightarrow>
                     (resp\<lparr>ts_Notes := Some ((case notes of None \<Rightarrow> [] | Some ns \<Rightarrow> ns) @
                         [''llm diagnosis failed: '' @ err])\<rparr>, calls2)
                 | (Inr diag, calls2) \<Rightarrow> (resp\<lparr>ts_Diagnosis := Some diag\<rparr>, calls2))
              else (resp, calls1)))"

definition handleTriage ::
    "float_lib \<Rightarrow> text_lib \<Rightarrow> peers \<Rightarrow> assistant_config \<Rightarrow> instant \<Rightarrow> error + json \<Rightarrow> http_call list \<Rightarrow>
     (int \<times> json option) \<times> http_call list"
where
  "handleTriage fl lib srv cfg now body calls =
     (case read_triage cfg body of
        Inl err \<Rightarrow> (writeJSON 400 (Inr (error_body err)), calls)
      | Inr req \<Rightarrow>
          (case triage fl lib srv cfg now req calls of
             (resp, calls1) \<Rightarrow> (writeJSON 200 (response_json fl resp), calls1)))"

definition triage_endpoint ::
    "float_lib \<Rightarrow> text_lib \<Rightarrow> peers \<Rightarrow> assistant_config \<Rightarrow> instant \<Rightarrow> string \<Rightarrow> error + json \<Rightarrow> http_call list \<Rightarrow>
     (int \<times> json option) \<times> http_call list"
where
  "triage_endpoint fl lib srv cfg now rmethod body calls =
     (if rmethod \<noteq> ''POST'' then (writeJSON 405 (Inr (error_body ''method not allowed'')), calls)
      else handleTriage fl lib srv cfg now body calls)"

section \<open>Facts\<close>

lemma fetch_calls:
  obtains (unsent) "snd (fetchRecentAlerts fl lib srv cfg req calls) = calls"
  | (sent) "snd (fetchRecentAlerts fl lib srv cfg req calls) =
      calls @ [\<lparr>call_request = \<lparr>req_method = ''GET'', req_url = recent_url cfg req, req_headers = [],
        req_body = NoBody\<rparr>, give_up_after = 5 * nanos_per_second\<rparr>]"
  using unsent sent
  by (cases "bad_url lib (recent_url cfg req)")
    (simp_all add: fetchRecentAlerts_def do_call_def Let_def seconds_exact split: sum.splits if_splits)

lemma diagnose_calls:
  obtains (unsent) "snd (diagnoseWithLLM fl lib srv cfg input calls) = calls"
  | (sent) ctx where "LLMBaseURL cfg \<noteq> []" "trim_space (LLMModel cfg) \<noteq> []"
      "snd (diagnoseWithLLM fl lib srv cfg input calls) =
         calls @ [\<lparr>call_request = llm_request cfg (llm_body cfg ctx), give_up_after = llm_timeout cfg\<rparr>]"
proof -
  let ?url = "LLMBaseURL cfg @ ''/v1/chat/completions''"
  have url: "req_url (llm_request cfg b) = ?url" for b by (simp add: llm_request_def)
  consider (idle) "LLMBaseURL cfg = [] \<or> trim_space (LLMModel cfg) = [] \<or> bad_url lib ?url \<noteq> None \<or>
      (\<exists>err. context_json fl input = Inl err)"
    | (live) kvs where "LLMBaseURL cfg \<noteq> []" "trim_space (LLMModel cfg) \<noteq> []"
      "context_json fl input = Inr kvs" "bad_url lib ?url = None"
    by (cases "context_json fl input") blast+
  then show thesis
  proof cases
    case idle
    then have "snd (diagnoseWithLLM fl lib srv cfg input calls) = calls"
      by (elim disjE exE) (auto simp: diagnoseWithLLM_def url Let_def split: sum.split)
    then show thesis by (rule unsent)
  next
    case live
    then have "snd (diagnoseWithLLM fl lib srv cfg input calls) =
        calls @ [\<lparr>call_request = llm_request cfg (llm_body cfg (marshal lib (JObj kvs))),
          give_up_after = llm_timeout cfg\<rparr>]"
      by (simp add: diagnoseWithLLM_def do_call_def url Let_def split: sum.split)
    with live(1,2) show thesis by (rule sent)
  qed
qed

lemma llm_timeout_positive: "0 < llm_timeout cfg"
  by (simp add: llm_timeout_def Let_def seconds_exact)

text \<open>The configuration's switch matters to the diagnosis only.\<close>

lemma fetch_switch [simp]:
  "fetchRecentAlerts fl lib srv (cfg\<lparr>LLMEnabled := b\<rparr>) req = fetchRecentAlerts fl lib srv cfg req"
  by (rule ext) (simp add: fetchRecentAlerts_def recent_url_def)

lemma queries_switch [simp]:
  "buildMetricQueries (cfg\<lparr>LLMEnabled := b\<rparr>) req now = buildMetricQueries cfg req now"
  "buildLogQueries (cfg\<lparr>LLMEnabled := b\<rparr>) req = buildLogQueries cfg req"
  by (simp_all add: buildMetricQueries_def vmRangeURL_def buildLogQueries_def)

lemma read_diagnosis_summary: "read_diagnosis fl lib choices = Inr d \<Longrightarrow> dg_Summary d \<noteq> []"
  by (auto simp: read_diagnosis_def split: option.splits list.splits sum.splits if_splits)

lemma diagnose_summary: "fst (diagnoseWithLLM fl lib srv cfg input calls) = Inr d \<Longrightarrow> dg_Summary d \<noteq> []"
  by (auto simp: diagnoseWithLLM_def do_call_def Let_def
      dest: read_diagnosis_summary split: option.splits sum.splits if_splits)

text \<open>What a triage without the model answers.\<close>

abbreviation plain_triage ::
    "float_lib \<Rightarrow> text_lib \<Rightarrow> peers \<Rightarrow> assistant_config \<Rightarrow> instant \<Rightarrow> triage_request \<Rightarrow> http_call list \<Rightarrow>
     triage_response \<times> http_call list"
where
  "plain_triage fl lib srv cfg \<equiv> triage fl lib srv (cfg\<lparr>LLMEnabled := False\<rparr>)"

lemma triage_plain:
  "triage fl lib srv cfg now req calls =
     (case plain_triage fl lib srv cfg now req calls of
        (resp, calls1) \<Rightarrow>
          if LLMEnabled cfg then
            (case diagnoseWithLLM fl lib srv cfg resp calls1 of
               (Inl err, calls2) \<Rightarrow>
                 (resp\<lparr>ts_Notes := Some ((case ts_Notes resp of None \<Rightarrow> [] | Some ns \<Rightarrow> ns) @
                     [''llm diagnosis failed: '' @ err])\<rparr>, calls2)
             | (Inr diag, calls2) \<Rightarrow> (resp\<lparr>ts_Diagnosis := Some diag\<rparr>, calls2))
          else (resp, calls1))"
proof -
  obtain alerts ns calls1 where "fetchRecentAlerts fl lib srv cfg req calls = ((alerts, ns), calls1)"
    by (metis prod.exhaust)
  then show ?thesis by (simp add: triage_def Let_def split: prod.split sum.split)
qed

lemma plain_diagnosis: "ts_Diagnosis (fst (plain_triage fl lib srv cfg now req calls)) = None"
  by (simp add: triage_def Let_def split: prod.split)

lemma plain_calls:
  "snd (plain_triage fl lib srv cfg now req calls) = snd (fetchRecentAlerts fl lib srv cfg req calls)"
  by (simp add: triage_def Let_def split: prod.split)

text \<open>
  C26. The model can only add: with the language model switched on, the answer to a triage is the
  answer without it, plus either a diagnosis with a summary, or one note that says why there is none.
  No failure of the model removes alerts, links, advice or an earlier note.
\<close>

theorem model_only_adds:
  "let plain = fst (plain_triage fl lib srv cfg now req calls);
       resp = fst (triage fl lib srv cfg now req calls)
   in if LLMEnabled cfg then
        (\<exists>d. resp = plain\<lparr>ts_Diagnosis := Some d\<rparr> \<and> dg_Summary d \<noteq> []) \<or>
        (\<exists>err. resp = plain\<lparr>ts_Notes := Some ((case ts_Notes plain of None \<Rightarrow> [] | Some ns \<Rightarrow> ns) @
           [''llm diagnosis failed: '' @ err])\<rparr>)
      else resp = plain \<and> ts_Diagnosis resp = None"
proof (cases "LLMEnabled cfg")
  case True
  obtain plain calls1 where p: "plain_triage fl lib srv cfg now req calls = (plain, calls1)"
    by (cases "plain_triage fl lib srv cfg now req calls")
  obtain r calls2 where d: "diagnoseWithLLM fl lib srv cfg plain calls1 = (r, calls2)"
    by (cases "diagnoseWithLLM fl lib srv cfg plain calls1")
  have "(\<exists>d. r = Inr d \<and> dg_Summary d \<noteq> []) \<or> (\<exists>err. r = Inl err)"
    using diagnose_summary [of fl lib srv cfg plain calls1] d by (cases r) auto
  then consider (ok) x where "r = Inr x" "dg_Summary x \<noteq> []" | (err) e where "r = Inl e" by blast
  then show ?thesis
  proof cases
    case ok
    with True p d show ?thesis unfolding Let_def
      by (simp add: triage_plain [of fl lib srv cfg now req calls]) (intro disjI1 exI [of _ x] conjI refl)
  next
    case err
    with True p d show ?thesis unfolding Let_def
      by (simp add: triage_plain [of fl lib srv cfg now req calls]) (intro disjI2 exI [of _ e] refl)
  qed
next
  case False
  with plain_diagnosis [of fl lib srv cfg now req calls] show ?thesis
    by (auto simp: triage_plain [of fl lib srv cfg now req calls] split: prod.split)
qed

lemma triage_calls:
  obtains gets posts where
    "snd (triage fl lib srv cfg now req calls) = calls @ gets @ posts"
    "gets = [] \<or> gets = [\<lparr>call_request = \<lparr>req_method = ''GET'', req_url = recent_url cfg req, req_headers = [],
       req_body = NoBody\<rparr>, give_up_after = 5 * nanos_per_second\<rparr>]"
    "posts = [] \<or>
       (\<exists>ctx. LLMEnabled cfg \<and> LLMBaseURL cfg \<noteq> [] \<and> trim_space (LLMModel cfg) \<noteq> [] \<and> 0 < llm_timeout cfg \<and>
          posts = [\<lparr>call_request = llm_request cfg (llm_body cfg ctx), give_up_after = llm_timeout cfg\<rparr>])"
proof -
  let ?get = "\<lparr>call_request = \<lparr>req_method = ''GET'', req_url = recent_url cfg req, req_headers = [],
    req_body = NoBody\<rparr>, give_up_after = 5 * nanos_per_second\<rparr>"
  obtain plain calls1 where p: "plain_triage fl lib srv cfg now req calls = (plain, calls1)"
    by (cases "plain_triage fl lib srv cfg now req calls")
  then have "calls1 = snd (fetchRecentAlerts fl lib srv cfg req calls)"
    using plain_calls [of fl lib srv cfg now req calls] by simp
  then obtain gets where g: "calls1 = calls @ gets" "gets = [] \<or> gets = [?get]"
    by (cases rule: fetch_calls [of fl lib srv cfg req calls]) auto
  have "\<exists>posts. snd (triage fl lib srv cfg now req calls) = calls1 @ posts \<and>
      (posts = [] \<or>
       (\<exists>ctx. LLMEnabled cfg \<and> LLMBaseURL cfg \<noteq> [] \<and> trim_space (LLMModel cfg) \<noteq> [] \<and> 0 < llm_timeout cfg \<and>
          posts = [\<lparr>call_request = llm_request cfg (llm_body cfg ctx), give_up_after = llm_timeout cfg\<rparr>]))"
  proof (cases "LLMEnabled cfg")
    case True
    with p have same: "snd (triage fl lib srv cfg now req calls) = snd (diagnoseWithLLM fl lib srv cfg plain calls1)"
      by (auto simp: triage_plain [of fl lib srv cfg now req calls] split: prod.split sum.split)
    show ?thesis unfolding same
      by (cases rule: diagnose_calls [of fl lib srv cfg plain calls1])
        (use True llm_timeout_positive [of cfg] in auto)
  next
    case False
    with p show ?thesis by (simp add: triage_plain [of fl lib srv cfg now req calls])
  qed
  with g that show thesis by auto
qed

text \<open>
  C21. The assistant is read-only and bounded. Every request gets 405 (not a POST), 400 (an
  unreadable body or a blank machine) or 200, whatever the other services do; one that is refused
  makes no call; one that is answered makes at most one call to the server, a GET of the recent
  alerts, then at most one to the language model, only if it is switched on and configured; and
  every call has a positive time limit.
\<close>

theorem triage_is_read_only:
  "case triage_endpoint fl lib srv cfg now rmethod body calls of
     ((status, reply), calls') \<Rightarrow>
       status = (if rmethod \<noteq> ''POST'' then 405 else case read_triage cfg body of Inl err \<Rightarrow> 400 | Inr req \<Rightarrow> 200) \<and>
       (\<exists>gets posts. calls' = calls @ gets @ posts \<and> (status = 200 \<or> gets = [] \<and> posts = []) \<and>
          (gets = [] \<or>
           (\<exists>req. read_triage cfg body = Inr req \<and>
              gets = [\<lparr>call_request = \<lparr>req_method = ''GET'', req_url = recent_url cfg req, req_headers = [],
                req_body = NoBody\<rparr>, give_up_after = 5 * nanos_per_second\<rparr>])) \<and>
          (posts = [] \<or>
           (\<exists>ctx. LLMEnabled cfg \<and> LLMBaseURL cfg \<noteq> [] \<and> trim_space (LLMModel cfg) \<noteq> [] \<and> 0 < llm_timeout cfg \<and>
              posts = [\<lparr>call_request = llm_request cfg (llm_body cfg ctx), give_up_after = llm_timeout cfg\<rparr>])))"
proof (cases "rmethod = ''POST''")
  case False
  then show ?thesis by (simp add: triage_endpoint_def writeJSON_def)
next
  case post: True
  show ?thesis
  proof (cases "read_triage cfg body")
    case (Inl err)
    with post show ?thesis by (simp add: triage_endpoint_def handleTriage_def writeJSON_def)
  next
    case (Inr req)
    show ?thesis
    proof (rule triage_calls [of fl lib srv cfg now req calls])
      fix gets posts
      assume t: "snd (triage fl lib srv cfg now req calls) = calls @ gets @ posts"
        and g: "gets = [] \<or> gets = [\<lparr>call_request = \<lparr>req_method = ''GET'', req_url = recent_url cfg req,
          req_headers = [], req_body = NoBody\<rparr>, give_up_after = 5 * nanos_per_second\<rparr>]"
        and p: "posts = [] \<or>
          (\<exists>ctx. LLMEnabled cfg \<and> LLMBaseURL cfg \<noteq> [] \<and> trim_space (LLMModel cfg) \<noteq> [] \<and> 0 < llm_timeout cfg \<and>
            posts = [\<lparr>call_request = llm_request cfg (llm_body cfg ctx), give_up_after = llm_timeout cfg\<rparr>])"
      have e: "triage_endpoint fl lib srv cfg now rmethod body calls =
          ((200, snd (writeJSON 200 (response_json fl (fst (triage fl lib srv cfg now req calls))))), calls @ gets @ posts)"
        using post Inr t
        by (cases "triage fl lib srv cfg now req calls")
          (simp add: triage_endpoint_def handleTriage_def writeJSON_def)
      show ?thesis unfolding e prod.case
        by (intro conjI exI [of _ gets] exI [of _ posts]) (use post Inr p g in simp_all)
    qed
  qed
qed

end
