(* ===== verification/Wiring.thy ===== *)
theory Wiring
  imports Pipeline Server_Main Agent Assistant
begin

text \<open>
  The programs meet: what the agent sends is what the server reads, and the assistant asks the server
  and the metrics store for what the server keeps there.
\<close>

section \<open>Agent and server\<close>

lemma decode_agent_metrics:
  assumes "float_roundtrip fl (am_CPUUsage m)" "float_roundtrip fl (am_MemUsage m)"
    "float_roundtrip fl (am_DiskUsage m)" "in_int64 (am_Timestamp m)" "metrics_json fl m = Inr j"
  shows "decode_payload fl (Inr j) =
    Inr \<lparr>MachineID = am_MachineID m, IP = am_IP m, CPUUsage = am_CPUUsage m, MemUsage = am_MemUsage m,
      DiskUsage = am_DiskUsage m, Timestamp = am_Timestamp m\<rparr>"
proof -
  from assms have "j = JObj
      [(''machine_id'', JStr (am_MachineID m)), (''ip'', JStr (am_IP m)),
       (''cpu_usage'', JNum (FormatFloat fl (am_CPUUsage m))),
       (''mem_usage'', JNum (FormatFloat fl (am_MemUsage m))),
       (''disk_usage'', JNum (FormatFloat fl (am_DiskUsage m))), (''timestamp'', encode_int (am_Timestamp m))]"
    by (simp add: metrics_json_def encode_float_survives)
  with assms(1-4) show ?thesis
    by (simp add: decode_payload_def decode_struct_def payload_fields_def field_defs find_field_def
        float_roundtrip_def encode_int_def zero_payload_def)
qed

lemma read_agent_registration:
  assumes "\<not> blank (id_MachineID identity)"
  shows "read_register (Inr (register_json (register_payload_of identity))) =
    Inr \<lparr>rq_MachineID = id_MachineID identity, rq_IP = id_IP identity, rq_Hostname = id_Hostname identity,
      rq_Status = ''active''\<rparr>"
  using assms active_not_blank
  by (simp add: read_register_def register_json_def register_payload_of_def decode_struct_def
      register_fields_def string_field_def find_field_def zero_register_def)

text \<open>
  C23. The agent speaks the server's language: the sample it encodes is accepted by the ingest
  handlers and read with the same machine, address, three figures and timestamp, and its
  registration is accepted by the registry and read with the same machine, address and host name
  and the status \<open>active\<close>.
\<close>

theorem agent_is_understood:
  assumes "metrics_json fl m = Inr j" and "\<not> blank (am_MachineID m)" and "\<not> blank (id_MachineID identity)"
    and "float_roundtrip fl (am_CPUUsage m)" and "float_roundtrip fl (am_MemUsage m)"
    and "float_roundtrip fl (am_DiskUsage m)" and "0 < am_Timestamp m" and "in_int64 (am_Timestamp m)"
  shows "read_payload fl nowu (Inr j) =
      Inr \<lparr>MachineID = am_MachineID m, IP = am_IP m, CPUUsage = am_CPUUsage m, MemUsage = am_MemUsage m,
        DiskUsage = am_DiskUsage m, Timestamp = am_Timestamp m\<rparr> \<and>
    read_register (Inr (register_json (register_payload_of identity))) =
      Inr \<lparr>rq_MachineID = id_MachineID identity, rq_IP = id_IP identity, rq_Hostname = id_Hostname identity,
        rq_Status = ''active''\<rparr>"
  using decode_agent_metrics [OF assms(4-6,8,1)] read_agent_registration [OF assms(3)] assms(2,7)
  by (simp add: read_payload_def)

definition example_agent_metrics :: agent_metrics where
  "example_agent_metrics =
     \<lparr>am_MachineID = ''web-1'', am_IP = ''10.0.0.7'', am_CPUUsage = Fin 0, am_MemUsage = Fin 0,
      am_DiskUsage = Fin 0, am_Timestamp = 1700000000\<rparr>"

definition zero_fl :: float_lib where
  "zero_fl = \<lparr>ParseFloat = (\<lambda>s. if s = ''0'' then Some (Fin 0) else None), FormatFloat = (\<lambda>x. ''0'')\<rparr>"

theorem agent_is_understood_witness:
  "\<exists>j. metrics_json zero_fl example_agent_metrics = Inr j \<and>
     read_payload zero_fl 1 (Inr j) =
       Inr \<lparr>MachineID = ''web-1'', IP = ''10.0.0.7'', CPUUsage = Fin 0, MemUsage = Fin 0,
         DiskUsage = Fin 0, Timestamp = 1700000000\<rparr>"
proof -
  have f: "float_roundtrip zero_fl (Fin 0)" by (simp add: float_roundtrip_def zero_fl_def f64_finite_def)
  have b: "\<not> blank ''web-1''" by code_simp
  obtain j where j: "metrics_json zero_fl example_agent_metrics = Inr j"
    using f by (simp add: metrics_json_def example_agent_metrics_def encode_float_survives)
  from agent_is_understood [OF j, of "\<lparr>id_MachineID = ''web-1'', id_IP = [], id_Hostname = []\<rparr>" 1] f b j
  show ?thesis by (simp add: example_agent_metrics_def in_int64_def)
qed

section \<open>Assistant and server\<close>

lemma read_triage_trimmed: "read_triage cfg body = Inr req \<Longrightarrow> trim_space (tr_MachineID req) = tr_MachineID req \<and> tr_MachineID req \<noteq> []"
  by (auto simp: read_triage_def Let_def split: sum.splits if_splits)

lemma recent_url_query:
  assumes "read_triage cfg body = Inr req"
  shows "\<exists>q. recent_url cfg req = ServerBaseURL cfg @ ''/api/v1/alerts/recent?'' @ q \<and>
    recent_query (query_param q) = \<lparr>aq_Where = [(''machine_id'', tr_MachineID req)],
      aq_Order = Descending ''triggered_at'', aq_Limit = 5\<rparr>"
proof -
  let ?q = "encode_values [(''limit'', ''5''), (''machine_id'', tr_MachineID req)]"
  have five: "recent_limit ''5'' = 5" by code_simp
  have empty: "trim_space [] = []" by code_simp
  have "recent_query (query_param ?q) = \<lparr>aq_Where = [(''machine_id'', tr_MachineID req)],
      aq_Order = Descending ''triggered_at'', aq_Limit = 5\<rparr>"
    using read_triage_trimmed [OF assms]
    by (simp add: recent_query_def query_param_encode_values five empty Let_def)
  then show ?thesis by (intro exI [of _ ?q]) (simp add: recent_url_def)
qed

text \<open>
  The assistant asks for the right alerts: the server reads the query string of its request as
  the machine of the triage, no other filter, newest first, and a limit of five.
\<close>

theorem assistant_asks_for_its_machine:
  assumes "read_triage cfg body = Inr req"
  shows "\<exists>q. recent_url cfg req = ServerBaseURL cfg @ ''/api/v1/alerts/recent?'' @ q \<and>
    recent_query (query_param q) = \<lparr>aq_Where = [(''machine_id'', tr_MachineID req)],
      aq_Order = Descending ''triggered_at'', aq_Limit = 5\<rparr>"
  by (rule recent_url_query [OF assms])

definition example_assistant :: assistant_config where
  "example_assistant = assistant_loadConfig id (\<lambda>_. None)"

definition example_triage :: "error + json" where
  "example_triage = Inr (JObj [(''machine_id'', JStr '' web-1 '')])"

lemma example_triage_read: "read_triage example_assistant example_triage =
  Inr \<lparr>tr_MachineID = ''web-1'', tr_AlertID = 0, tr_WindowMinutes = 15\<rparr>"
  by code_simp

theorem assistant_asks_for_its_machine_witness:
  "\<exists>q. recent_url example_assistant \<lparr>tr_MachineID = ''web-1'', tr_AlertID = 0, tr_WindowMinutes = 15\<rparr> =
      ''http://localhost:8080/api/v1/alerts/recent?'' @ q \<and>
    recent_query (query_param q) = \<lparr>aq_Where = [(''machine_id'', ''web-1'')],
      aq_Order = Descending ''triggered_at'', aq_Limit = 5\<rparr>"
proof -
  have "ServerBaseURL example_assistant = ''http://localhost:8080''" by code_simp
  with assistant_asks_for_its_machine [OF example_triage_read] show ?thesis by simp
qed

section \<open>Assistant and the metrics store\<close>

definition host_metrics :: "string list" where
  "host_metrics = [''host_cpu_usage'', ''host_mem_usage'', ''host_disk_usage'']"

lemma vmRangeURL_query:
  "\<exists>q. vmRangeURL cfg query start ending step = VictoriaBaseURL cfg @ ''/api/v1/query_range?'' @ q \<and>
     parse_query q = [Some (''end'', itoa (unix_seconds ending)), Some (''query'', query),
       Some (''start'', itoa (unix_seconds start)), Some (''step'', step)]"
  unfolding vmRangeURL_def
  by (intro exI conjI, rule refl) (simp add: parse_query_encode_values)

lemma window_start_exact:
  assumes "0 < tr_WindowMinutes req" and "tr_WindowMinutes req \<le> 153722867"
  shows "unix_seconds (window_start req now) = unix_seconds now - 60 * tr_WindowMinutes req"
proof -
  have "in_int64 (- tr_WindowMinutes req)" "in_int64 (- tr_WindowMinutes req * (60 * nanos_per_second))"
    using assms by (simp_all add: in_int64_def)
  then have "window_start req now = now + (- 60 * tr_WindowMinutes req) * nanos_per_second"
    by (simp add: window_start_def)
  then show ?thesis by (simp add: unix_seconds_def)
qed

lemma metric_line_selector:
  "\<exists>rest. metric_line name m v = butlast (selector name (MachineID m)) @ '',ip='' @ rest"
  by (simp add: metric_line_def selector_def dq_def butlast_append)

text \<open>
  C27. The links of a triage show what the server has written: each of the three URLs, read back, is a
  range query that ends now and starts the window's minutes before, for one of the three metrics
  the server writes; and its selector is, up to the closing brace, how the lines written for the
  machine begin.
\<close>

theorem links_select_written_series:
  assumes "0 < tr_WindowMinutes req" and "tr_WindowMinutes req \<le> 153722867" and "MachineID m = tr_MachineID req"
  shows "\<exists>qs rests.
    buildMetricQueries cfg req now = map (\<lambda>q. VictoriaBaseURL cfg @ ''/api/v1/query_range?'' @ q) qs \<and>
    map parse_query qs =
      map (\<lambda>name. [Some (''end'', itoa (unix_seconds now)), Some (''query'', selector name (tr_MachineID req)),
        Some (''start'', itoa (unix_seconds now - 60 * tr_WindowMinutes req)), Some (''step'', ''30s'')]) host_metrics \<and>
    vm_payload m = join_with [newline]
      (map2 (\<lambda>name rest. butlast (selector name (tr_MachineID req)) @ '',ip='' @ rest) host_metrics rests) \<and>
    length rests = 3"
proof -
  note start = window_start_exact [OF assms(1,2), of now]
  obtain q1 q2 q3 where q:
    "buildMetricQueries cfg req now = map (\<lambda>q. VictoriaBaseURL cfg @ ''/api/v1/query_range?'' @ q) [q1, q2, q3]"
    "map parse_query [q1, q2, q3] =
      map (\<lambda>name. [Some (''end'', itoa (unix_seconds now)), Some (''query'', selector name (tr_MachineID req)),
        Some (''start'', itoa (unix_seconds (window_start req now))), Some (''step'', ''30s'')]) host_metrics"
    using vmRangeURL_query [of cfg "selector ''host_cpu_usage'' (tr_MachineID req)" "window_start req now" now "''30s''"]
      vmRangeURL_query [of cfg "selector ''host_mem_usage'' (tr_MachineID req)" "window_start req now" now "''30s''"]
      vmRangeURL_query [of cfg "selector ''host_disk_usage'' (tr_MachineID req)" "window_start req now" now "''30s''"]
    by (auto simp: buildMetricQueries_def host_metrics_def Let_def)
  obtain r1 r2 r3 where r:
    "metric_line ''host_cpu_usage'' m (CPUUsage m) = butlast (selector ''host_cpu_usage'' (MachineID m)) @ '',ip='' @ r1"
    "metric_line ''host_mem_usage'' m (MemUsage m) = butlast (selector ''host_mem_usage'' (MachineID m)) @ '',ip='' @ r2"
    "metric_line ''host_disk_usage'' m (DiskUsage m) = butlast (selector ''host_disk_usage'' (MachineID m)) @ '',ip='' @ r3"
    using metric_line_selector by meson
  have "vm_payload m = join_with [newline]
      (map2 (\<lambda>name rest. butlast (selector name (tr_MachineID req)) @ '',ip='' @ rest) host_metrics [r1, r2, r3])"
    by (simp add: vm_payload_def r host_metrics_def assms(3))
  with q start show ?thesis
    by (intro exI [of _ "[q1, q2, q3]"] exI [of _ "[r1, r2, r3]"] conjI) simp_all
qed

theorem links_select_written_series_witness:
  "\<exists>qs. buildMetricQueries example_assistant \<lparr>tr_MachineID = ''web-1'', tr_AlertID = 0, tr_WindowMinutes = 15\<rparr>
       (2000 * nanos_per_second) = map (\<lambda>q. VictoriaBaseURL example_assistant @ ''/api/v1/query_range?'' @ q) qs \<and>
     map (\<lambda>q. query_param q ''start'') qs = [''1100'', ''1100'', ''1100'']"
proof -
  let ?req = "\<lparr>tr_MachineID = ''web-1'', tr_AlertID = 0, tr_WindowMinutes = 15\<rparr> :: triage_request"
  have "itoa (2000 - 60 * 15) = ''1100''" by code_simp
  moreover have "unix_seconds (2000 * nanos_per_second) = 2000" by (simp add: unix_seconds_def)
  moreover obtain qs where
    "buildMetricQueries example_assistant ?req (2000 * nanos_per_second) =
       map (\<lambda>q. VictoriaBaseURL example_assistant @ ''/api/v1/query_range?'' @ q) qs"
    "map parse_query qs =
      map (\<lambda>name. [Some (''end'', itoa (unix_seconds (2000 * nanos_per_second))),
        Some (''query'', selector name (tr_MachineID ?req)),
        Some (''start'', itoa (unix_seconds (2000 * nanos_per_second) - 60 * tr_WindowMinutes ?req)),
        Some (''step'', ''30s'')]) host_metrics"
    using links_select_written_series [of ?req "\<lparr>MachineID = ''web-1'', IP = [], CPUUsage = Fin 0, MemUsage = Fin 0,
      DiskUsage = Fin 0, Timestamp = 0\<rparr>" example_assistant "2000 * nanos_per_second"] by auto
  ultimately show ?thesis
    by (intro exI [of _ qs] conjI)
      (auto simp: query_param_def host_metrics_def map_eq_Cons_conv List.map_filter_def)
qed

section \<open>From a saved alert to a triage\<close>















end
