(* ===== verification/Operator.thy ===== *)
theory Operator
  imports Go_Json Cmd_Env
begin

text \<open>
  The operator (\<open>cmd/operator\<close>): it reads a \<open>CloudOpsMonitor\<close> resource and brings a config map, two
  deployments and a daemon set of the cluster in line with it, again at every tick.

  The Kubernetes API is a record of operations on an abstract cluster state, each of which may fail;
  \<open>kube_behaves\<close> states what its documentation promises of them in terms of a view of the objects.
  The API is that of the one namespace and resource the operator watches. Of an object the model
  keeps the fields the operator reads or writes and, as one value, all the others.
\<close>

section \<open>Configuration\<close>

definition operator_getEnv :: "environ \<Rightarrow> string \<Rightarrow> string \<Rightarrow> string" where
  "operator_getEnv env key defaultValue =
     (let value = trim_space (os_getenv env key) in if value \<noteq> [] then value else defaultValue)"

definition operator_getEnvAsInt :: "environ \<Rightarrow> string \<Rightarrow> int \<Rightarrow> int" where
  "operator_getEnvAsInt env key defaultValue =
     (let value = trim_space (os_getenv env key) in
      if value = [] then defaultValue
      else case atoi value of Inl err \<Rightarrow> defaultValue | Inr parsed \<Rightarrow> parsed)"

definition reconcile_interval :: "environ \<Rightarrow> duration" where
  "reconcile_interval env = seconds (operator_getEnvAsInt env ''RECONCILE_INTERVAL_SECONDS'' 15)"

text \<open>\<^verbatim>\<open>time.NewTicker\<close> panics on an interval that is not positive.\<close>

definition new_ticker :: "duration \<Rightarrow> error + duration" where
  "new_ticker interval =
     (if interval \<le> 0 then Inl ''non-positive interval for NewTicker'' else Inr interval)"

text \<open>\<^verbatim>\<open>kubeConfig\<close>: the path it falls back to when the operator runs outside a cluster.\<close>

definition kubeConfig ::
    "error + 'cfg \<Rightarrow> environ \<Rightarrow> string \<Rightarrow> (string \<Rightarrow> error + 'cfg) \<Rightarrow> error + 'cfg"
where
  "kubeConfig inCluster env recommendedHomeFile buildConfigFromFlags =
     (case inCluster of
        Inr cfg \<Rightarrow> Inr cfg
      | Inl err \<Rightarrow>
          (let kubeconfig = os_getenv env ''KUBECONFIG'' in
           buildConfigFromFlags (if kubeconfig = [] then recommendedHomeFile else kubeconfig)))"

section \<open>The resource\<close>

record workload_spec =
  ws_Image :: string
  ws_Replicas :: int

record agent_spec =
  ag_Image :: string

record dependencies_spec =
  MySQLDSNSecretRef :: string
  dp_RedisAddr :: string
  dp_KafkaBrokers :: string
  dp_VictoriaMetricsURL :: string
  OTelEndpoint :: string

record cloudops_spec =
  sp_IngestMode :: string
  sp_Server :: workload_spec
  sp_Worker :: workload_spec
  sp_Agent :: agent_spec
  sp_Dependencies :: dependencies_spec

definition zero_workload :: workload_spec where
  "zero_workload = \<lparr>ws_Image = [], ws_Replicas = 0\<rparr>"

definition zero_spec :: cloudops_spec where
  "zero_spec =
     \<lparr>sp_IngestMode = [], sp_Server = zero_workload, sp_Worker = zero_workload,
      sp_Agent = \<lparr>ag_Image = []\<rparr>,
      sp_Dependencies =
        \<lparr>MySQLDSNSecretRef = [], dp_RedisAddr = [], dp_KafkaBrokers = [],
         dp_VictoriaMetricsURL = [], OTelEndpoint = []\<rparr>\<rparr>"

text \<open>A struct inside a struct: \<^verbatim>\<open>path\<close> is where it stands, for the error texts.\<close>

definition at_path :: "string \<Rightarrow> (string \<Rightarrow> string \<times> 'a setter) \<Rightarrow> string \<Rightarrow> string \<times> 'a setter" where
  "at_path path mk fld = (fld, snd (mk (path @ ''.'' @ fld)))"

definition nested ::
    "string \<Rightarrow> string \<Rightarrow> string \<Rightarrow> (string \<times> 'b setter) list \<Rightarrow> ('a \<Rightarrow> 'b) \<Rightarrow> ('b \<Rightarrow> 'a \<Rightarrow> 'a) \<Rightarrow>
       string \<times> 'a setter"
where
  "nested struct fld ty flds get put =
     (fld, \<lambda>j a. case j of
        JNull \<Rightarrow> Inr a
      | JObj kvs \<Rightarrow>
          (case decode_members flds kvs (get a) None of
             (None, b) \<Rightarrow> Inr (put b a)
           | (Some e, _) \<Rightarrow> Inl e)
      | _ \<Rightarrow> Inl (type_error (json_kind j) (field_place struct fld) ty))"

definition workload_fields :: "string \<Rightarrow> (string \<times> workload_spec setter) list" where
  "workload_fields path =
     [at_path path (\<lambda>f. string_field ''WorkloadSpec'' f (\<lambda>s w. w\<lparr>ws_Image := s\<rparr>)) ''image'',
      at_path path (\<lambda>f. int_field in_int32 ''int32'' ''WorkloadSpec'' f (\<lambda>i w. w\<lparr>ws_Replicas := i\<rparr>))
        ''replicas'']"

definition agent_fields :: "string \<Rightarrow> (string \<times> agent_spec setter) list" where
  "agent_fields path =
     [at_path path (\<lambda>f. string_field ''AgentSpec'' f (\<lambda>s a. a\<lparr>ag_Image := s\<rparr>)) ''image'']"

definition dependencies_fields :: "string \<Rightarrow> (string \<times> dependencies_spec setter) list" where
  "dependencies_fields path =
     [at_path path (\<lambda>f. string_field ''DependenciesSpec'' f (\<lambda>s d. d\<lparr>MySQLDSNSecretRef := s\<rparr>))
        ''mysqlDSNSecretRef'',
      at_path path (\<lambda>f. string_field ''DependenciesSpec'' f (\<lambda>s d. d\<lparr>dp_RedisAddr := s\<rparr>)) ''redisAddr'',
      at_path path (\<lambda>f. string_field ''DependenciesSpec'' f (\<lambda>s d. d\<lparr>dp_KafkaBrokers := s\<rparr>))
        ''kafkaBrokers'',
      at_path path (\<lambda>f. string_field ''DependenciesSpec'' f (\<lambda>s d. d\<lparr>dp_VictoriaMetricsURL := s\<rparr>))
        ''victoriaMetricsURL'',
      at_path path (\<lambda>f. string_field ''DependenciesSpec'' f (\<lambda>s d. d\<lparr>OTelEndpoint := s\<rparr>))
        ''otelEndpoint'']"

definition spec_fields :: "(string \<times> cloudops_spec setter) list" where
  "spec_fields =
     [string_field ''CloudOpsMonitorSpec'' ''ingestMode'' (\<lambda>s p. p\<lparr>sp_IngestMode := s\<rparr>),
      nested ''CloudOpsMonitorSpec'' ''server'' ''main.WorkloadSpec'' (workload_fields ''server'')
        sp_Server (\<lambda>w p. p\<lparr>sp_Server := w\<rparr>),
      nested ''CloudOpsMonitorSpec'' ''worker'' ''main.WorkloadSpec'' (workload_fields ''worker'')
        sp_Worker (\<lambda>w p. p\<lparr>sp_Worker := w\<rparr>),
      nested ''CloudOpsMonitorSpec'' ''agent'' ''main.AgentSpec'' (agent_fields ''agent'')
        sp_Agent (\<lambda>a p. p\<lparr>sp_Agent := a\<rparr>),
      nested ''CloudOpsMonitorSpec'' ''dependencies'' ''main.DependenciesSpec''
        (dependencies_fields ''dependencies'') sp_Dependencies (\<lambda>d p. p\<lparr>sp_Dependencies := d\<rparr>)]"

text \<open>
  The resource as the dynamic client returns it. Its object is given as the document that
  \<^verbatim>\<open>json.Marshal\<close> prints for it, which is what \<open>parseSpec\<close> decodes again.
\<close>

record resource =
  Object :: "(string \<times> json) list"
  Generation :: int

definition clamp_replicas :: "cloudops_spec \<Rightarrow> cloudops_spec" where
  "clamp_replicas spec =
     (let spec1 = (if ws_Replicas (sp_Server spec) < 1
                   then spec\<lparr>sp_Server := (sp_Server spec)\<lparr>ws_Replicas := 1\<rparr>\<rparr> else spec)
      in if ws_Replicas (sp_Worker spec1) < 0
         then spec1\<lparr>sp_Worker := (sp_Worker spec1)\<lparr>ws_Replicas := 0\<rparr>\<rparr> else spec1)"

text \<open>\<open>accessor_error\<close> is the text of \<^verbatim>\<open>unstructured.NestedMap\<close> for a spec that is not a map.\<close>

definition parseSpec :: "(json \<Rightarrow> error) \<Rightarrow> resource \<Rightarrow> error + cloudops_spec" where
  "parseSpec accessor_error resource =
     (case map_of (Object resource) ''spec'' of
        None \<Rightarrow> Inl ''spec is missing''
      | Some raw \<Rightarrow>
          (case raw of
             JObj kvs \<Rightarrow>
               (case decode_struct ''main.CloudOpsMonitorSpec'' spec_fields raw zero_spec of
                  Inl err \<Rightarrow> Inl err
                | Inr spec \<Rightarrow> Inr (clamp_replicas spec))
           | _ \<Rightarrow> Inl (accessor_error raw)))"

section \<open>The cluster\<close>

record container =
  ct_Name :: string
  ct_Image :: string
  ct_Rest :: json

record config_map =
  cm_Name :: string
  cm_Data :: "(string \<rightharpoonup> string) option"
  cm_Rest :: json

record deployment =
  dep_Name :: string
  dep_Replicas :: "int option"
  dep_Containers :: "container list"
  dep_Rest :: json

record daemon_set =
  ds_Name :: string
  ds_Containers :: "container list"
  ds_Rest :: json

record 'k kube_api =
  get_resource :: "'k \<Rightarrow> (error + resource) \<times> 'k"
  get_config_map :: "string \<Rightarrow> 'k \<Rightarrow> (error + config_map) \<times> 'k"
  update_config_map :: "config_map \<Rightarrow> 'k \<Rightarrow> error option \<times> 'k"
  get_deployment :: "string \<Rightarrow> 'k \<Rightarrow> (error + deployment) \<times> 'k"
  update_deployment :: "deployment \<Rightarrow> 'k \<Rightarrow> error option \<times> 'k"
  get_daemon_set :: "string \<Rightarrow> 'k \<Rightarrow> (error + daemon_set) \<times> 'k"
  update_daemon_set :: "daemon_set \<Rightarrow> 'k \<Rightarrow> error option \<times> 'k"
  patch_status :: "json \<Rightarrow> 'k \<Rightarrow> error option \<times> 'k"
  accessor_error :: "json \<Rightarrow> error"

section \<open>Reconciling\<close>

text \<open>A get, a change and an update, as each of the three reconcilers does.\<close>

definition get_and_update ::
    "('k \<Rightarrow> (error + 'o) \<times> 'k) \<Rightarrow> ('o \<Rightarrow> 'o) \<Rightarrow> ('o \<Rightarrow> 'k \<Rightarrow> error option \<times> 'k) \<Rightarrow> 'k \<Rightarrow> error option \<times> 'k"
where
  "get_and_update get change update k =
     (case get k of
        (Inl err, k1) \<Rightarrow> (Some err, k1)
      | (Inr obj, k1) \<Rightarrow> update (change obj) k1)"

definition ensureData :: "config_map \<Rightarrow> config_map" where
  "ensureData cm = (case cm_Data cm of None \<Rightarrow> cm\<lparr>cm_Data := Some Map.empty\<rparr> | Some d \<Rightarrow> cm)"

definition set_data :: "cloudops_spec \<Rightarrow> (string \<rightharpoonup> string) \<Rightarrow> string \<rightharpoonup> string" where
  "set_data spec d =
     (let deps = sp_Dependencies spec;
          d1 = d(''INGEST_MODE'' \<mapsto> sp_IngestMode spec,
                 ''KAFKA_BROKERS'' \<mapsto> dp_KafkaBrokers deps,
                 ''REDIS_ADDR'' \<mapsto> dp_RedisAddr deps,
                 ''VICTORIA_METRICS_URL'' \<mapsto> dp_VictoriaMetricsURL deps)
      in if trim_space (OTelEndpoint deps) \<noteq> []
         then d1(''OTEL_EXPORTER_OTLP_ENDPOINT'' \<mapsto> OTelEndpoint deps) else d1)"

definition set_config :: "cloudops_spec \<Rightarrow> config_map \<Rightarrow> config_map" where
  "set_config spec cm =
     (let cm1 = ensureData cm in cm1\<lparr>cm_Data := map_option (set_data spec) (cm_Data cm1)\<rparr>)"

definition reconcileConfigMap :: "'k kube_api \<Rightarrow> cloudops_spec \<Rightarrow> 'k \<Rightarrow> error option \<times> 'k" where
  "reconcileConfigMap api spec =
     get_and_update (get_config_map api ''cloudops-config'') (set_config spec) (update_config_map api)"

definition set_images :: "string \<Rightarrow> string \<Rightarrow> container list \<Rightarrow> container list" where
  "set_images containerName img cs =
     map (\<lambda>c. if ct_Name c = containerName then c\<lparr>ct_Image := img\<rparr> else c) cs"

definition setDeploymentImage :: "deployment \<Rightarrow> string \<Rightarrow> string \<Rightarrow> deployment" where
  "setDeploymentImage deploy containerName img =
     deploy\<lparr>dep_Containers := set_images containerName img (dep_Containers deploy)\<rparr>"

definition set_deployment :: "string \<Rightarrow> string \<Rightarrow> int \<Rightarrow> deployment \<Rightarrow> deployment" where
  "set_deployment containerName img replicas deploy =
     (let deploy1 = deploy\<lparr>dep_Replicas := Some replicas\<rparr>
      in if img \<noteq> [] then setDeploymentImage deploy1 containerName img else deploy1)"

definition reconcileDeployment ::
    "'k kube_api \<Rightarrow> string \<Rightarrow> string \<Rightarrow> string \<Rightarrow> int \<Rightarrow> 'k \<Rightarrow> error option \<times> 'k"
where
  "reconcileDeployment api name containerName img replicas =
     get_and_update (get_deployment api name) (set_deployment containerName img replicas)
       (update_deployment api)"

definition set_daemon_set :: "string \<Rightarrow> string \<Rightarrow> daemon_set \<Rightarrow> daemon_set" where
  "set_daemon_set containerName img ds =
     (if img \<noteq> [] then ds\<lparr>ds_Containers := set_images containerName img (ds_Containers ds)\<rparr> else ds)"

definition reconcileDaemonSet :: "'k kube_api \<Rightarrow> string \<Rightarrow> string \<Rightarrow> string \<Rightarrow> 'k \<Rightarrow> error option \<times> 'k" where
  "reconcileDaemonSet api name containerName img =
     get_and_update (get_daemon_set api name) (set_daemon_set containerName img) (update_daemon_set api)"

definition status_patch :: "string \<Rightarrow> int \<Rightarrow> string \<Rightarrow> json" where
  "status_patch phase generation message =
     JObj [(''status'', JObj
       [(''message'', JStr message), (''observedGeneration'', encode_int generation),
        (''phase'', JStr phase)])]"

definition patchStatus :: "'k kube_api \<Rightarrow> string \<Rightarrow> int \<Rightarrow> string \<Rightarrow> 'k \<Rightarrow> error option \<times> 'k" where
  "patchStatus api phase generation message = patch_status api (status_patch phase generation message)"

text \<open>The steps of one pass after the resource has been read, up to the first that fails.\<close>

definition apply_spec :: "'k kube_api \<Rightarrow> cloudops_spec \<Rightarrow> 'k \<Rightarrow> error option \<times> 'k" where
  "apply_spec api spec k =
     (case reconcileConfigMap api spec k of
        (Some err, k1) \<Rightarrow> (Some err, k1)
      | (None, k1) \<Rightarrow>
     (case reconcileDeployment api ''cloudops-server'' ''server'' (ws_Image (sp_Server spec))
             (ws_Replicas (sp_Server spec)) k1 of
        (Some err, k2) \<Rightarrow> (Some err, k2)
      | (None, k2) \<Rightarrow>
     (case reconcileDeployment api ''cloudops-worker'' ''worker'' (ws_Image (sp_Worker spec))
             (ws_Replicas (sp_Worker spec)) k2 of
        (Some err, k3) \<Rightarrow> (Some err, k3)
      | (None, k3) \<Rightarrow>
          reconcileDaemonSet api ''cloudops-agent'' ''agent'' (ag_Image (sp_Agent spec)) k3)))"

definition reconcile :: "'k kube_api \<Rightarrow> 'k \<Rightarrow> error option \<times> 'k" where
  "reconcile api k =
     (case get_resource api k of
        (Inl err, k1) \<Rightarrow> (Some err, k1)
      | (Inr resource, k1) \<Rightarrow>
          (case parseSpec (accessor_error api) resource of
             Inl err \<Rightarrow>
               (Some err, snd (patchStatus api ''Error'' (Generation resource) err k1))
           | Inr spec \<Rightarrow>
               (case apply_spec api spec k1 of
                  (Some err, k2) \<Rightarrow>
                    (Some err, snd (patchStatus api ''Error'' (Generation resource) err k2))
                | (None, k2) \<Rightarrow>
                    patchStatus api ''Ready'' (Generation resource) ''workloads reconciled'' k2)))"

section \<open>The changes\<close>

definition managed_keys :: "string list" where
  "managed_keys = [''INGEST_MODE'', ''KAFKA_BROKERS'', ''REDIS_ADDR'', ''VICTORIA_METRICS_URL'',
     ''OTEL_EXPORTER_OTLP_ENDPOINT'']"

lemma set_data_other: "key \<notin> set managed_keys \<Longrightarrow> set_data spec d key = d key"
  by (simp add: set_data_def managed_keys_def Let_def)

lemma set_data_managed:
  "set_data spec d ''INGEST_MODE'' = Some (sp_IngestMode spec)"
  "set_data spec d ''KAFKA_BROKERS'' = Some (dp_KafkaBrokers (sp_Dependencies spec))"
  "set_data spec d ''REDIS_ADDR'' = Some (dp_RedisAddr (sp_Dependencies spec))"
  "set_data spec d ''VICTORIA_METRICS_URL'' = Some (dp_VictoriaMetricsURL (sp_Dependencies spec))"
  "set_data spec d ''OTEL_EXPORTER_OTLP_ENDPOINT'' =
     (if blank (OTelEndpoint (sp_Dependencies spec)) then d ''OTEL_EXPORTER_OTLP_ENDPOINT''
      else Some (OTelEndpoint (sp_Dependencies spec)))"
  by (simp_all add: set_data_def Let_def)

lemma set_data_idem: "set_data spec (set_data spec d) = set_data spec d"
proof
  fix key
  show "set_data spec (set_data spec d) key = set_data spec d key"
  proof (cases "key \<in> set managed_keys")
    case True
    then have "key = ''INGEST_MODE'' \<or> key = ''KAFKA_BROKERS'' \<or> key = ''REDIS_ADDR'' \<or>
        key = ''VICTORIA_METRICS_URL'' \<or> key = ''OTEL_EXPORTER_OTLP_ENDPOINT''"
      by (simp add: managed_keys_def)
    then show ?thesis by (elim disjE) (auto simp: set_data_managed)
  qed (simp add: set_data_other)
qed

text \<open>The data before a pass, a missing map counting as an empty one.\<close>

definition data_of :: "config_map \<Rightarrow> string \<rightharpoonup> string" where
  "data_of cm = (case cm_Data cm of Some d \<Rightarrow> d | None \<Rightarrow> Map.empty)"

lemma set_config_data:
  "cm_Data (set_config spec cm) = Some (set_data spec (data_of cm))"
  "cm_Name (set_config spec cm) = cm_Name cm" "cm_Rest (set_config spec cm) = cm_Rest cm"
  by (simp_all add: set_config_def ensureData_def data_of_def split: option.split)

lemma set_images_idem [simp]: "set_images n img (set_images n img cs) = set_images n img cs"
  by (simp add: set_images_def comp_def cong: map_cong)

lemma set_config_idem: "set_config spec (set_config spec cm) = set_config spec cm"
proof -
  have "data_of (set_config spec cm) = set_data spec (data_of cm)"
    by (simp add: data_of_def [of "set_config spec cm"] set_config_data)
  then show ?thesis
    by (intro config_map.equality) (simp_all add: set_config_data set_data_idem)
qed

lemma set_deployment_idem:
  "set_deployment n img r (set_deployment n img r d) = set_deployment n img r d"
  "dep_Name (set_deployment n img r d) = dep_Name d"
  by (simp_all add: set_deployment_def setDeploymentImage_def Let_def)

lemma set_daemon_set_idem:
  "set_daemon_set n img (set_daemon_set n img d) = set_daemon_set n img d"
  "ds_Name (set_daemon_set n img d) = ds_Name d"
  by (simp_all add: set_daemon_set_def)

section \<open>What the API promises\<close>

record cluster =
  configs :: "string \<rightharpoonup> config_map"
  deploys :: "string \<rightharpoonup> deployment"
  daemons :: "string \<rightharpoonup> daemon_set"
  statuses :: "json list"

definition put_config :: "string \<Rightarrow> config_map \<Rightarrow> cluster \<Rightarrow> cluster" where
  "put_config n x c = c\<lparr>configs := (configs c)(n \<mapsto> x)\<rparr>"

definition put_deploy :: "string \<Rightarrow> deployment \<Rightarrow> cluster \<Rightarrow> cluster" where
  "put_deploy n x c = c\<lparr>deploys := (deploys c)(n \<mapsto> x)\<rparr>"

definition put_daemon :: "string \<Rightarrow> daemon_set \<Rightarrow> cluster \<Rightarrow> cluster" where
  "put_daemon n x c = c\<lparr>daemons := (daemons c)(n \<mapsto> x)\<rparr>"

definition put_status :: "json \<Rightarrow> cluster \<Rightarrow> cluster" where
  "put_status p c = c\<lparr>statuses := statuses c @ [p]\<rparr>"

text \<open>A get changes nothing and returns the object of that name.\<close>

definition get_law ::
    "('k \<Rightarrow> cluster) \<Rightarrow> (cluster \<Rightarrow> string \<rightharpoonup> 'o) \<Rightarrow> ('o \<Rightarrow> string) \<Rightarrow>
       (string \<Rightarrow> 'k \<Rightarrow> (error + 'o) \<times> 'k) \<Rightarrow> bool"
where
  "get_law view objs name_of get \<longleftrightarrow>
     (\<forall>n k r k'. get n k = (r, k') \<longrightarrow>
        view k' = view k \<and> (\<forall>x. r = Inr x \<longrightarrow> objs (view k) n = Some x \<and> name_of x = n))"

text \<open>A write that succeeds has stored its object; one that fails may have or not.\<close>

definition write_law ::
    "('k \<Rightarrow> cluster) \<Rightarrow> ('o \<Rightarrow> cluster \<Rightarrow> cluster) \<Rightarrow> ('o \<Rightarrow> 'k \<Rightarrow> error option \<times> 'k) \<Rightarrow> bool"
where
  "write_law view put write \<longleftrightarrow>
     (\<forall>x k r k'. write x k = (r, k') \<longrightarrow>
        view k' = put x (view k) \<or> (r \<noteq> None \<and> view k' = view k))"

definition kube_behaves :: "'k kube_api \<Rightarrow> ('k \<Rightarrow> cluster) \<Rightarrow> bool" where
  "kube_behaves api view \<longleftrightarrow>
     get_law view configs cm_Name (get_config_map api) \<and>
     get_law view deploys dep_Name (get_deployment api) \<and>
     get_law view daemons ds_Name (get_daemon_set api) \<and>
     write_law view (\<lambda>x. put_config (cm_Name x) x) (update_config_map api) \<and>
     write_law view (\<lambda>x. put_deploy (dep_Name x) x) (update_deployment api) \<and>
     write_law view (\<lambda>x. put_daemon (ds_Name x) x) (update_daemon_set api) \<and>
     write_law view put_status (patch_status api) \<and>
     (\<forall>k r k'. get_resource api k = (r, k') \<longrightarrow> view k' = view k)"

section \<open>The specification\<close>

text \<open>
  What a pass is to do to the objects of the cluster: nothing if one of the four is missing, and
  otherwise set the fields of each.
\<close>

definition change_object ::
    "('c \<Rightarrow> string \<rightharpoonup> 'o) \<Rightarrow> (string \<Rightarrow> 'o \<Rightarrow> 'c \<Rightarrow> 'c) \<Rightarrow> string \<Rightarrow> ('o \<Rightarrow> 'o) \<Rightarrow> 'c \<Rightarrow> 'c option"
where
  "change_object objs put n f c = map_option (\<lambda>x. put n (f x) c) (objs c n)"

definition sync_config :: "cloudops_spec \<Rightarrow> cluster \<Rightarrow> cluster option" where
  "sync_config spec = change_object configs put_config ''cloudops-config'' (set_config spec)"

definition sync_server :: "cloudops_spec \<Rightarrow> cluster \<Rightarrow> cluster option" where
  "sync_server spec = change_object deploys put_deploy ''cloudops-server''
     (set_deployment ''server'' (ws_Image (sp_Server spec)) (ws_Replicas (sp_Server spec)))"

definition sync_worker :: "cloudops_spec \<Rightarrow> cluster \<Rightarrow> cluster option" where
  "sync_worker spec = change_object deploys put_deploy ''cloudops-worker''
     (set_deployment ''worker'' (ws_Image (sp_Worker spec)) (ws_Replicas (sp_Worker spec)))"

definition sync_agent :: "cloudops_spec \<Rightarrow> cluster \<Rightarrow> cluster option" where
  "sync_agent spec = change_object daemons put_daemon ''cloudops-agent''
     (set_daemon_set ''agent'' (ag_Image (sp_Agent spec)))"

definition sync :: "cloudops_spec \<Rightarrow> cluster \<Rightarrow> cluster option" where
  "sync spec c =
     Option.bind (sync_config spec c) (\<lambda>c1.
     Option.bind (sync_server spec c1) (\<lambda>c2.
     Option.bind (sync_worker spec c2) (sync_agent spec)))"

section \<open>Refinement\<close>

locale kube_cluster =
  fixes api :: "'k kube_api" and view :: "'k \<Rightarrow> cluster"
  assumes behaves: "kube_behaves api view"
begin

lemma laws:
  "get_law view configs cm_Name (get_config_map api)"
  "get_law view deploys dep_Name (get_deployment api)"
  "get_law view daemons ds_Name (get_daemon_set api)"
  "write_law view (\<lambda>x. put_config (cm_Name x) x) (update_config_map api)"
  "write_law view (\<lambda>x. put_deploy (dep_Name x) x) (update_deployment api)"
  "write_law view (\<lambda>x. put_daemon (ds_Name x) x) (update_daemon_set api)"
  "write_law view put_status (patch_status api)"
  using behaves by (simp_all add: kube_behaves_def)

lemma get_resource_view: "get_resource api k = (r, k') \<Longrightarrow> view k' = view k"
  using behaves by (simp add: kube_behaves_def)

lemma get_and_update_sync:
  assumes "get_law view objs name_of get" and "write_law view (\<lambda>x. put (name_of x) x) write"
    and "\<And>x. name_of (f x) = name_of x" and "get_and_update (get n) f write k = (None, k')"
  shows "change_object objs put n f (view k) = Some (view k')"
  using assms
  by (fastforce simp: get_and_update_def get_law_def write_law_def change_object_def
      split: prod.splits sum.splits)

lemma get_and_update_statuses:
  assumes "get_law view objs name_of get" and "write_law view put write"
    and "\<And>x c. statuses (put x c) = statuses c" and "get_and_update (get n) f write k = (r, k')"
  shows "statuses (view k') = statuses (view k)"
proof -
  obtain o1 k1 where g: "get n k = (o1, k1)" by (cases "get n k")
  then have "view k1 = view k" using assms(1) by (simp add: get_law_def)
  with assms(2-4) g show ?thesis
    by (auto simp: get_and_update_def write_law_def split: sum.splits) (metis)+
qed

lemmas step_defs = reconcileConfigMap_def reconcileDeployment_def reconcileDaemonSet_def

lemma sync_steps:
  "reconcileConfigMap api spec k = (None, k') \<Longrightarrow>
     change_object configs put_config ''cloudops-config'' (set_config spec) (view k) = Some (view k')"
  "reconcileDeployment api n c img r k = (None, k') \<Longrightarrow>
     change_object deploys put_deploy n (set_deployment c img r) (view k) = Some (view k')"
  "reconcileDaemonSet api n c img k = (None, k') \<Longrightarrow>
     change_object daemons put_daemon n (set_daemon_set c img) (view k) = Some (view k')"
  unfolding step_defs
  by (erule get_and_update_sync [where put = put_config, OF laws(1) laws(4), rotated];
        simp add: set_config_data)
    (erule get_and_update_sync [where put = put_deploy, OF laws(2) laws(5), rotated]
       get_and_update_sync [where put = put_daemon, OF laws(3) laws(6), rotated];
        simp add: set_deployment_idem set_daemon_set_idem)+

lemma apply_spec_sync:
  assumes "apply_spec api spec k = (None, k')"
  shows "sync spec (view k) = Some (view k')"
proof -
  from assms obtain k1 k2 k3 where
    s: "reconcileConfigMap api spec k = (None, k1)"
       "reconcileDeployment api ''cloudops-server'' ''server'' (ws_Image (sp_Server spec))
          (ws_Replicas (sp_Server spec)) k1 = (None, k2)"
       "reconcileDeployment api ''cloudops-worker'' ''worker'' (ws_Image (sp_Worker spec))
          (ws_Replicas (sp_Worker spec)) k2 = (None, k3)"
       "reconcileDaemonSet api ''cloudops-agent'' ''agent'' (ag_Image (sp_Agent spec)) k3 = (None, k')"
    by (auto simp: apply_spec_def split: prod.splits option.splits)
  from sync_steps(1) [OF s(1)] sync_steps(2) [OF s(2)] sync_steps(2) [OF s(3)] sync_steps(3) [OF s(4)]
  show ?thesis
    by (simp add: sync_def sync_config_def sync_server_def sync_worker_def sync_agent_def)
qed

lemma put_statuses [simp]:
  "statuses (put_config n x c) = statuses c" "statuses (put_deploy n y c) = statuses c"
  "statuses (put_daemon n z c) = statuses c"
  by (simp_all add: put_config_def put_deploy_def put_daemon_def)

lemma apply_spec_statuses:
  assumes "apply_spec api spec k = (r, k')"
  shows "statuses (view k') = statuses (view k)"
proof -
  note keep = get_and_update_statuses [OF laws(1) laws(4) put_statuses(1)]
    get_and_update_statuses [OF laws(2) laws(5) put_statuses(2)]
    get_and_update_statuses [OF laws(3) laws(6) put_statuses(3)]
  from assms show ?thesis
    by (auto simp: apply_spec_def step_defs split: prod.splits option.splits dest!: keep)
qed

lemma reconcile_success:
  assumes "reconcile api k = (None, k')"
  obtains res k1 spec c where "get_resource api k = (Inr res, k1)"
    "parseSpec (accessor_error api) res = Inr spec" "sync spec (view k) = Some c"
    "view k' = put_status (status_patch ''Ready'' (Generation res) ''workloads reconciled'') c"
proof -
  from assms obtain res k1 spec k2 where
    g: "get_resource api k = (Inr res, k1)" and p: "parseSpec (accessor_error api) res = Inr spec"
    and a: "apply_spec api spec k1 = (None, k2)"
    and s: "patchStatus api ''Ready'' (Generation res) ''workloads reconciled'' k2 = (None, k')"
    by (auto simp: reconcile_def split: prod.splits sum.splits option.splits)
  have "sync spec (view k) = Some (view k2)"
    using apply_spec_sync [OF a] get_resource_view [OF g] by simp
  moreover have "view k' = put_status (status_patch ''Ready'' (Generation res) ''workloads reconciled'') (view k2)"
    using laws(7) s by (simp add: write_law_def patchStatus_def) blast
  ultimately show thesis using g p by (intro that) auto
qed

lemma patch_outcome:
  "patchStatus api ph g msg k = (e, k') \<Longrightarrow>
     statuses (view k') = statuses (view k) @ [status_patch ph g msg] \<or>
     (e \<noteq> None \<and> statuses (view k') = statuses (view k))"
proof -
  assume "patchStatus api ph g msg k = (e, k')"
  with laws(7) have "view k' = put_status (status_patch ph g msg) (view k) \<or> (e \<noteq> None \<and> view k' = view k)"
    unfolding write_law_def patchStatus_def by blast
  then show ?thesis by (auto simp: put_status_def)
qed

lemma reconcile_outcome:
  assumes "reconcile api k = (r, k')" and "get_resource api k = (Inr res, k1)"
  obtains p k2 e where "patch_status api p k2 = (e, k')" "statuses (view k2) = statuses (view k)"
    "statuses (view k') = statuses (view k) @ [p] \<or> (e \<noteq> None \<and> statuses (view k') = statuses (view k))"
    "(\<exists>spec. parseSpec (accessor_error api) res = Inr spec \<and> sync spec (view k) = Some (view k2) \<and>
        p = status_patch ''Ready'' (Generation res) ''workloads reconciled'' \<and> r = e) \<or>
     (\<exists>err. p = status_patch ''Error'' (Generation res) err \<and> r = Some err \<and>
        (parseSpec (accessor_error api) res = Inl err \<or>
         (\<exists>spec. parseSpec (accessor_error api) res = Inr spec \<and> apply_spec api spec k1 = (Some err, k2))))"
proof (cases "parseSpec (accessor_error api) res")
  case (Inl err)
  with assms have "patchStatus api ''Error'' (Generation res) err k1 =
      (fst (patchStatus api ''Error'' (Generation res) err k1), k')" and "r = Some err"
    by (auto simp: reconcile_def prod_eq_iff)
  with Inl patch_outcome [OF this(1)] get_resource_view [OF assms(2)] show thesis
    by (intro that [of "status_patch ''Error'' (Generation res) err" k1]) (auto simp: patchStatus_def)
next
  case (Inr spec)
  obtain a k2 where a: "apply_spec api spec k1 = (a, k2)" by (cases "apply_spec api spec k1")
  then have keep: "statuses (view k2) = statuses (view k)"
    using apply_spec_statuses get_resource_view [OF assms(2)] by metis
  show thesis
  proof (cases a)
    case None
    with assms Inr a have "patchStatus api ''Ready'' (Generation res) ''workloads reconciled'' k2 = (r, k')"
      by (simp add: reconcile_def)
    with patch_outcome [OF this] Inr apply_spec_sync [OF a [unfolded None]] get_resource_view [OF assms(2)] keep show thesis
      by (intro that [of "status_patch ''Ready'' (Generation res) ''workloads reconciled''" k2])
        (auto simp: patchStatus_def)
  next
    case (Some err)
    with assms Inr a have "patchStatus api ''Error'' (Generation res) err k2 =
        (fst (patchStatus api ''Error'' (Generation res) err k2), k')" and "r = Some err"
      by (auto simp: reconcile_def prod_eq_iff)
    with patch_outcome [OF this(1)] Inr a Some keep show thesis
      by (intro that [of "status_patch ''Error'' (Generation res) err" k2]) (auto simp: patchStatus_def)
  qed
qed

end

text \<open>
  A cluster that answers every call at once, as an instance of the promises: the state is the view,
  plus the resource it holds.
\<close>

definition ref_find :: "('c \<Rightarrow> string \<rightharpoonup> 'o) \<Rightarrow> string \<Rightarrow> 'c \<Rightarrow> (error + 'o) \<times> 'c" where
  "ref_find objs n c = (case objs c n of Some x \<Rightarrow> Inr x | None \<Rightarrow> Inl ''not found'', c)"

definition named :: "('o \<Rightarrow> string) \<Rightarrow> (string \<rightharpoonup> 'o) \<Rightarrow> string \<rightharpoonup> 'o" where
  "named name_of m = (\<lambda>n. case m n of Some x \<Rightarrow> if name_of x = n then Some x else None | None \<Rightarrow> None)"

definition ref_kube :: "resource option \<Rightarrow> cluster kube_api" where
  "ref_kube res =
     \<lparr>get_resource = (\<lambda>c. (case res of Some x \<Rightarrow> Inr x | None \<Rightarrow> Inl ''not found'', c)),
      get_config_map = ref_find (\<lambda>c. named cm_Name (configs c)),
      update_config_map = (\<lambda>x c. (None, put_config (cm_Name x) x c)),
      get_deployment = ref_find (\<lambda>c. named dep_Name (deploys c)),
      update_deployment = (\<lambda>x c. (None, put_deploy (dep_Name x) x c)),
      get_daemon_set = ref_find (\<lambda>c. named ds_Name (daemons c)),
      update_daemon_set = (\<lambda>x c. (None, put_daemon (ds_Name x) x c)),
      patch_status = (\<lambda>p c. (None, put_status p c)),
      accessor_error = (\<lambda>_. ''.spec accessor error'')\<rparr>"

lemma ref_find_law: "get_law id objs name_of (ref_find (\<lambda>c. named name_of (objs c)))"
  by (auto simp: get_law_def ref_find_def named_def split: option.splits if_splits)

lemma ref_kube_behaves: "kube_behaves (ref_kube res) id"
  unfolding kube_behaves_def ref_kube_def kube_api.simps
  by (intro conjI ref_find_law) (simp_all add: write_law_def)

interpretation ref: kube_cluster "ref_kube res" id for res
  by unfold_locales (rule ref_kube_behaves)

section \<open>Properties\<close>

lemma sync_objects:
  assumes "sync spec c = Some c'"
  obtains cm s w a where
    "configs c ''cloudops-config'' = Some cm" "deploys c ''cloudops-server'' = Some s"
    "deploys c ''cloudops-worker'' = Some w" "daemons c ''cloudops-agent'' = Some a"
    "configs c' = (configs c)(''cloudops-config'' \<mapsto> set_config spec cm)"
    "deploys c' = (deploys c)
       (''cloudops-server'' \<mapsto> set_deployment ''server'' (ws_Image (sp_Server spec)) (ws_Replicas (sp_Server spec)) s,
        ''cloudops-worker'' \<mapsto> set_deployment ''worker'' (ws_Image (sp_Worker spec)) (ws_Replicas (sp_Worker spec)) w)"
    "daemons c' = (daemons c)(''cloudops-agent'' \<mapsto> set_daemon_set ''agent'' (ag_Image (sp_Agent spec)) a)"
    "statuses c' = statuses c"
  using assms
  by (auto simp: sync_def sync_config_def sync_server_def sync_worker_def sync_agent_def
      change_object_def put_config_def put_deploy_def put_daemon_def bind_eq_Some_conv intro!: that)

text \<open>The replicas a decoded spec asks for are \<open>int32\<close> values.\<close>

definition replicas_in_range :: "cloudops_spec \<Rightarrow> bool" where
  "replicas_in_range spec \<longleftrightarrow>
     in_int32 (ws_Replicas (sp_Server spec)) \<and> in_int32 (ws_Replicas (sp_Worker spec))"

lemma workload_setter_range:
  "f \<in> snd ` set (workload_fields path) \<Longrightarrow> in_int32 (ws_Replicas a) \<Longrightarrow> f j a = Inr a' \<Longrightarrow>
     in_int32 (ws_Replicas a')"
  by (auto simp: workload_fields_def at_path_def field_defs
      split: json.splits option.splits sum.splits if_splits)

lemma workload_decoded_range:
  "in_int32 (ws_Replicas a) \<Longrightarrow>
     in_int32 (ws_Replicas (snd (decode_members (workload_fields path) kvs a err)))"
  using decode_members_inv [of "\<lambda>a. in_int32 (ws_Replicas a)" a "workload_fields path"]
    workload_setter_range [of _ path] by blast

lemma nested_setter:
  assumes "snd (nested struct fld ty flds get put) j a = Inr a'"
  shows "a' = a \<or> (\<exists>kvs. a' = put (snd (decode_members flds kvs (get a) None)) a)"
proof (cases j)
  case (JObj kvs)
  with assms show ?thesis
    by (cases "decode_members flds kvs (get a) None")
      (auto simp: nested_def split: option.splits intro!: exI [of _ kvs])
qed (use assms in \<open>auto simp: nested_def\<close>)

lemma spec_setter_range:
  assumes "f \<in> snd ` set spec_fields" and "replicas_in_range a" and "f j a = Inr a'"
  shows "replicas_in_range a'"
proof -
  have server: "in_int32 (ws_Replicas (sp_Server a))" and worker: "in_int32 (ws_Replicas (sp_Worker a))"
    using assms(2) by (simp_all add: replicas_in_range_def)
  note decoded = workload_decoded_range [OF server] workload_decoded_range [OF worker]
  show ?thesis
    using assms(1) assms(3)
    unfolding spec_fields_def list.set image_insert image_empty insert_iff empty_iff
  proof (elim disjE)
    assume "f = snd (string_field ''CloudOpsMonitorSpec'' ''ingestMode'' (\<lambda>s p. p\<lparr>sp_IngestMode := s\<rparr>))"
    with assms(2,3) show ?thesis
      by (auto simp: string_field_def replicas_in_range_def split: json.splits)
  qed (use assms(2) decoded in \<open>auto simp: replicas_in_range_def dest!: nested_setter\<close>)
qed

lemma parseSpec_clamped:
  assumes "parseSpec ae res = Inr spec"
  shows "1 \<le> ws_Replicas (sp_Server spec) \<and> 0 \<le> ws_Replicas (sp_Worker spec) \<and> replicas_in_range spec"
proof -
  from assms obtain raw spec0 where
    d: "decode_struct ''main.CloudOpsMonitorSpec'' spec_fields raw zero_spec = Inr spec0"
    and s: "spec = clamp_replicas spec0"
    by (auto simp: parseSpec_def split: option.splits json.splits sum.splits)
  have "replicas_in_range zero_spec"
    by (simp add: replicas_in_range_def zero_spec_def zero_workload_def in_int32_def)
  from decode_struct_inv [OF d, of replicas_in_range, OF this spec_setter_range]
  have "replicas_in_range spec0" .
  then show ?thesis
    by (auto simp: s clamp_replicas_def replicas_in_range_def in_int32_def Let_def)
qed

text \<open>
  C33. Whatever the resource holds, a spec that is accepted asks for at least one server and a
  non-negative number of workers, and both fit the \<open>int32\<close> field of a deployment.
\<close>

theorem accepted_spec_replicas:
  "case parseSpec ae res of
     Inl err \<Rightarrow> True
   | Inr spec \<Rightarrow>
       1 \<le> ws_Replicas (sp_Server spec) \<and> ws_Replicas (sp_Server spec) < 2 ^ 31 \<and>
       0 \<le> ws_Replicas (sp_Worker spec) \<and> ws_Replicas (sp_Worker spec) < 2 ^ 31"
  using parseSpec_clamped [of ae res]
  by (auto simp: replicas_in_range_def in_int32_def split: sum.split)

text \<open>
  C9. A pass that reports success has done what the spec asks for: on any API with the documented
  behaviour, the objects of the cluster are those the specification gives for the accepted spec,
  and the one status written is Ready with the generation of the resource that was read.
\<close>

theorem reconcile_refines_spec:
  assumes "kube_behaves api view" and "reconcile api k = (None, k')"
  shows "\<exists>res spec c. fst (get_resource api k) = Inr res \<and>
    parseSpec (accessor_error api) res = Inr spec \<and> sync spec (view k) = Some c \<and>
    view k' = put_status (status_patch ''Ready'' (Generation res) ''workloads reconciled'') c"
  using kube_cluster.reconcile_success [OF kube_cluster.intro [OF assms(1)] assms(2)]
  by (metis fst_conv)

text \<open>The containers of one name have the image, the others are as they were, all in their places.\<close>

definition images_set :: "string \<Rightarrow> string \<Rightarrow> container list \<Rightarrow> container list \<Rightarrow> bool" where
  "images_set name img cs cs' \<longleftrightarrow>
     length cs' = length cs \<and>
     (\<forall>i < length cs.
        ct_Name (cs' ! i) = ct_Name (cs ! i) \<and> ct_Rest (cs' ! i) = ct_Rest (cs ! i) \<and>
        ct_Image (cs' ! i) = (if ct_Name (cs ! i) = name \<and> img \<noteq> [] then img else ct_Image (cs ! i)))"

definition workload_set :: "string \<Rightarrow> workload_spec \<Rightarrow> deployment \<Rightarrow> deployment \<Rightarrow> bool" where
  "workload_set name ws d d' \<longleftrightarrow>
     dep_Replicas d' = Some (ws_Replicas ws) \<and>
     images_set name (ws_Image ws) (dep_Containers d) (dep_Containers d') \<and>
     dep_Name d' = dep_Name d \<and> dep_Rest d' = dep_Rest d"

lemma workload_set_deployment:
  "workload_set name ws d (set_deployment name (ws_Image ws) (ws_Replicas ws) d)"
  by (simp add: workload_set_def images_set_def set_deployment_def setDeploymentImage_def
      set_images_def Let_def)

lemma agent_set:
  "images_set name img (ds_Containers d) (ds_Containers (set_daemon_set name img d))"
  "ds_Rest (set_daemon_set name img d) = ds_Rest d"
  by (simp_all add: images_set_def set_daemon_set_def set_images_def)

lemma set_daemon_set_name [simp]: "ds_Name (set_daemon_set name img d) = ds_Name d"
  by (simp add: set_daemon_set_def)

text \<open>
  C11. What a successful pass leaves of the cluster: in the config map, \<^verbatim>\<open>INGEST_MODE\<close>,
  \<^verbatim>\<open>KAFKA_BROKERS\<close>, \<^verbatim>\<open>REDIS_ADDR\<close> and \<^verbatim>\<open>VICTORIA_METRICS_URL\<close> have the values of the spec,
  \<^verbatim>\<open>OTEL_EXPORTER_OTLP_ENDPOINT\<close> has the spec's when that is not blank, and its own otherwise, and
  all other keys keep theirs; both deployments have the replicas of the spec; every container with
  the component's name has the image of the spec unless that is empty; all other containers, objects
  and fields stay.
\<close>

theorem synced_cluster:
  assumes "kube_behaves api view" and "reconcile api k = (None, k')"
  shows "\<exists>res spec cm cm' d s s' w w' a a'.
    fst (get_resource api k) = Inr res \<and> parseSpec (accessor_error api) res = Inr spec \<and>
    configs (view k) ''cloudops-config'' = Some cm \<and>
    configs (view k') = (configs (view k))(''cloudops-config'' \<mapsto> cm') \<and>
    cm_Data cm' = Some d \<and> d ''INGEST_MODE'' = Some (sp_IngestMode spec) \<and>
    d ''KAFKA_BROKERS'' = Some (dp_KafkaBrokers (sp_Dependencies spec)) \<and>
    d ''REDIS_ADDR'' = Some (dp_RedisAddr (sp_Dependencies spec)) \<and>
    d ''VICTORIA_METRICS_URL'' = Some (dp_VictoriaMetricsURL (sp_Dependencies spec)) \<and>
    d ''OTEL_EXPORTER_OTLP_ENDPOINT'' =
      (if blank (OTelEndpoint (sp_Dependencies spec)) then data_of cm ''OTEL_EXPORTER_OTLP_ENDPOINT''
       else Some (OTelEndpoint (sp_Dependencies spec))) \<and>
    (\<forall>key. key \<notin> set managed_keys \<longrightarrow> d key = data_of cm key) \<and>
    cm_Name cm' = cm_Name cm \<and> cm_Rest cm' = cm_Rest cm \<and>
    deploys (view k) ''cloudops-server'' = Some s \<and> deploys (view k) ''cloudops-worker'' = Some w \<and>
    deploys (view k') = (deploys (view k))(''cloudops-server'' \<mapsto> s', ''cloudops-worker'' \<mapsto> w') \<and>
    workload_set ''server'' (sp_Server spec) s s' \<and> workload_set ''worker'' (sp_Worker spec) w w' \<and>
    daemons (view k) ''cloudops-agent'' = Some a \<and>
    daemons (view k') = (daemons (view k))(''cloudops-agent'' \<mapsto> a') \<and>
    images_set ''agent'' (ag_Image (sp_Agent spec)) (ds_Containers a) (ds_Containers a') \<and>
    ds_Name a' = ds_Name a \<and> ds_Rest a' = ds_Rest a"
proof (rule kube_cluster.reconcile_success [OF kube_cluster.intro [OF assms(1)] assms(2)])
  fix res k1 spec c
  assume get: "get_resource api k = (Inr res, k1)" "parseSpec (accessor_error api) res = Inr spec"
    and s: "sync spec (view k) = Some c"
    and k': "view k' = put_status (status_patch ''Ready'' (Generation res) ''workloads reconciled'') c"
  have c: "configs (view k') = configs c" "deploys (view k') = deploys c" "daemons (view k') = daemons c"
    by (simp_all add: k' put_status_def)
  show ?thesis
  proof (rule sync_objects [OF s])
    fix cm s w a
    assume o: "configs (view k) ''cloudops-config'' = Some cm" "deploys (view k) ''cloudops-server'' = Some s"
      "deploys (view k) ''cloudops-worker'' = Some w" "daemons (view k) ''cloudops-agent'' = Some a"
      and o': "configs c = (configs (view k))(''cloudops-config'' \<mapsto> set_config spec cm)"
      "deploys c = (deploys (view k))
         (''cloudops-server'' \<mapsto> set_deployment ''server'' (ws_Image (sp_Server spec)) (ws_Replicas (sp_Server spec)) s,
          ''cloudops-worker'' \<mapsto> set_deployment ''worker'' (ws_Image (sp_Worker spec)) (ws_Replicas (sp_Worker spec)) w)"
      "daemons c = (daemons (view k))(''cloudops-agent'' \<mapsto> set_daemon_set ''agent'' (ag_Image (sp_Agent spec)) a)"
    show ?thesis
      unfolding c o'
      by (rule exI [of _ res], rule exI [of _ spec], rule exI [of _ cm], rule exI [of _ "set_config spec cm"],
          rule exI [of _ "set_data spec (data_of cm)"], rule exI [of _ s],
          rule exI [of _ "set_deployment ''server'' (ws_Image (sp_Server spec)) (ws_Replicas (sp_Server spec)) s"],
          rule exI [of _ w],
          rule exI [of _ "set_deployment ''worker'' (ws_Image (sp_Worker spec)) (ws_Replicas (sp_Worker spec)) w"],
          rule exI [of _ a], rule exI [of _ "set_daemon_set ''agent'' (ag_Image (sp_Agent spec)) a"],
          intro conjI workload_set_deployment agent_set refl o set_config_data)
        (simp_all add: get set_config_data set_data_managed set_data_other)
  qed
qed

text \<open>A small cluster and resource for the examples.\<close>

definition example_resource :: resource where
  "example_resource =
     \<lparr>Object = [(''spec'', JObj
        [(''ingestMode'', JStr ''kafka''),
         (''server'', JObj [(''image'', JStr ''server:2''), (''replicas'', JNum ''0'')]),
         (''worker'', JObj [(''replicas'', JNum ''3'')])])], Generation = 7\<rparr>"

definition example_cluster :: cluster where
  "example_cluster =
     \<lparr>configs = [''cloudops-config'' \<mapsto> \<lparr>cm_Name = ''cloudops-config'', cm_Data = None, cm_Rest = JNull\<rparr>],
      deploys =
        [''cloudops-server'' \<mapsto> \<lparr>dep_Name = ''cloudops-server'', dep_Replicas = Some 5,
           dep_Containers = [\<lparr>ct_Name = ''server'', ct_Image = ''server:1'', ct_Rest = JNull\<rparr>,
             \<lparr>ct_Name = ''proxy'', ct_Image = ''proxy:1'', ct_Rest = JNull\<rparr>], dep_Rest = JNull\<rparr>,
         ''cloudops-worker'' \<mapsto> \<lparr>dep_Name = ''cloudops-worker'', dep_Replicas = None,
           dep_Containers = [], dep_Rest = JNull\<rparr>],
      daemons = [''cloudops-agent'' \<mapsto> \<lparr>ds_Name = ''cloudops-agent'', ds_Containers = [], ds_Rest = JNull\<rparr>],
      statuses = []\<rparr>"

definition example_spec :: cloudops_spec where
  "example_spec =
     \<lparr>sp_IngestMode = ''kafka'', sp_Server = \<lparr>ws_Image = ''server:2'', ws_Replicas = 1\<rparr>,
      sp_Worker = \<lparr>ws_Image = [], ws_Replicas = 3\<rparr>, sp_Agent = \<lparr>ag_Image = []\<rparr>,
      sp_Dependencies = \<lparr>MySQLDSNSecretRef = [], dp_RedisAddr = [], dp_KafkaBrokers = [],
        dp_VictoriaMetricsURL = [], OTelEndpoint = []\<rparr>\<rparr>"

lemma example_parsed: "parseSpec ae example_resource = Inr example_spec"
proof -
  have "atoi ''0'' = Inr 0" "atoi ''3'' = Inr 3" by code_simp+
  then show ?thesis
    by (simp add: parseSpec_def example_resource_def decode_struct_def spec_fields_def nested_def
        workload_fields_def at_path_def field_defs find_field_def zero_spec_def zero_workload_def
        clamp_replicas_def example_spec_def in_int32_def Let_def)
qed

lemmas example_defs =
  reconcile_def ref_kube_def example_parsed apply_spec_def reconcileConfigMap_def
  reconcileDeployment_def reconcileDaemonSet_def get_and_update_def ref_find_def named_def
  example_cluster_def put_config_def put_deploy_def put_daemon_def put_status_def set_config_data
  set_deployment_idem set_daemon_set_idem patchStatus_def

lemma example_pass: "fst (reconcile (ref_kube (Some example_resource)) example_cluster) = None"
  by (simp add: example_defs)

lemma example_second_pass:
  "reconcile (ref_kube (Some example_resource)) example_cluster = (None, k1) \<Longrightarrow>
     fst (reconcile (ref_kube (Some example_resource)) k1) = None"
  by (auto simp: example_defs)

theorem reconcile_refines_spec_witness:
  "\<exists>k' res spec c. reconcile (ref_kube (Some example_resource)) example_cluster = (None, k') \<and>
    fst (get_resource (ref_kube (Some example_resource)) example_cluster) = Inr res \<and>
    parseSpec (accessor_error (ref_kube (Some example_resource))) res = Inr spec \<and>
    sync spec (id example_cluster) = Some c \<and>
    id k' = put_status (status_patch ''Ready'' (Generation res) ''workloads reconciled'') c"
proof -
  obtain k' where "reconcile (ref_kube (Some example_resource)) example_cluster = (None, k')"
    using example_pass by (metis prod.collapse)
  with reconcile_refines_spec [OF ref_kube_behaves this] show ?thesis by blast
qed

lemma reconcile_success_example: "\<exists>c'. sync example_spec example_cluster = Some c'"
  by (simp add: sync_def sync_config_def sync_server_def sync_worker_def sync_agent_def
      change_object_def example_cluster_def put_config_def put_deploy_def)

theorem synced_cluster_witness:
  "\<exists>k' cm' d. reconcile (ref_kube (Some example_resource)) example_cluster = (None, k') \<and>
    configs k' = (configs example_cluster)(''cloudops-config'' \<mapsto> cm') \<and> cm_Data cm' = Some d \<and>
    d ''INGEST_MODE'' = Some ''kafka''"
proof -
  obtain k' where r: "reconcile (ref_kube (Some example_resource)) example_cluster = (None, k')"
    using example_pass by (metis prod.collapse)
  have "fst (get_resource (ref_kube (Some example_resource)) example_cluster) = Inr example_resource"
    by (simp add: ref_kube_def)
  moreover have "sp_IngestMode example_spec = ''kafka''" by (simp add: example_spec_def)
  ultimately show ?thesis
    using synced_cluster [OF ref_kube_behaves r] r by (fastforce simp: example_parsed)
qed

lemma sync_idem:
  assumes "sync spec c = Some c1" and "sync spec (put_status p c1) = Some c2"
  shows "c2 = put_status p c1"
proof -
  obtain cm s w a where o: "configs c ''cloudops-config'' = Some cm" "deploys c ''cloudops-server'' = Some s"
    "deploys c ''cloudops-worker'' = Some w" "daemons c ''cloudops-agent'' = Some a"
    "configs c1 = (configs c)(''cloudops-config'' \<mapsto> set_config spec cm)"
    "deploys c1 = (deploys c)
       (''cloudops-server'' \<mapsto> set_deployment ''server'' (ws_Image (sp_Server spec)) (ws_Replicas (sp_Server spec)) s,
        ''cloudops-worker'' \<mapsto> set_deployment ''worker'' (ws_Image (sp_Worker spec)) (ws_Replicas (sp_Worker spec)) w)"
    "daemons c1 = (daemons c)(''cloudops-agent'' \<mapsto> set_daemon_set ''agent'' (ag_Image (sp_Agent spec)) a)"
    using sync_objects [OF assms(1)] by metis
  then have c1: "configs (put_status p c1) ''cloudops-config'' = Some (set_config spec cm)"
    "deploys (put_status p c1) ''cloudops-server'' =
       Some (set_deployment ''server'' (ws_Image (sp_Server spec)) (ws_Replicas (sp_Server spec)) s)"
    "deploys (put_status p c1) ''cloudops-worker'' =
       Some (set_deployment ''worker'' (ws_Image (sp_Worker spec)) (ws_Replicas (sp_Worker spec)) w)"
    "daemons (put_status p c1) ''cloudops-agent'' =
       Some (set_daemon_set ''agent'' (ag_Image (sp_Agent spec)) a)"
    by (simp_all add: put_status_def)
  show ?thesis
  proof (rule sync_objects [OF assms(2)])
    fix cm2 s2 w2 a2
    assume n: "configs (put_status p c1) ''cloudops-config'' = Some cm2"
      "deploys (put_status p c1) ''cloudops-server'' = Some s2"
      "deploys (put_status p c1) ''cloudops-worker'' = Some w2"
      "daemons (put_status p c1) ''cloudops-agent'' = Some a2"
      and "configs c2 = (configs (put_status p c1))(''cloudops-config'' \<mapsto> set_config spec cm2)"
      "deploys c2 = (deploys (put_status p c1))
         (''cloudops-server'' \<mapsto> set_deployment ''server'' (ws_Image (sp_Server spec)) (ws_Replicas (sp_Server spec)) s2,
          ''cloudops-worker'' \<mapsto> set_deployment ''worker'' (ws_Image (sp_Worker spec)) (ws_Replicas (sp_Worker spec)) w2)"
      "daemons c2 = (daemons (put_status p c1))
         (''cloudops-agent'' \<mapsto> set_daemon_set ''agent'' (ag_Image (sp_Agent spec)) a2)"
      "statuses c2 = statuses (put_status p c1)"
    moreover have "cm2 = set_config spec cm"
      "s2 = set_deployment ''server'' (ws_Image (sp_Server spec)) (ws_Replicas (sp_Server spec)) s"
      "w2 = set_deployment ''worker'' (ws_Image (sp_Worker spec)) (ws_Replicas (sp_Worker spec)) w"
      "a2 = set_daemon_set ''agent'' (ag_Image (sp_Agent spec)) a"
      using n c1 by simp_all
    ultimately show "c2 = put_status p c1"
      using n by (intro cluster.equality)
        (simp_all add: set_config_idem set_deployment_idem set_daemon_set_idem fun_upd_idem)
  qed
qed

text \<open>
  Reconciling is idempotent: a second successful pass that reads the same resource leaves every
  object as the first one left it, and only reports again.
\<close>

theorem reconcile_idempotent:
  assumes "kube_behaves api view" and "reconcile api k = (None, k1)" and "reconcile api k1 = (None, k2)"
    and "fst (get_resource api k1) = fst (get_resource api k)"
  shows "configs (view k2) = configs (view k1) \<and> deploys (view k2) = deploys (view k1) \<and>
    daemons (view k2) = daemons (view k1) \<and>
    (\<exists>p. statuses (view k2) = statuses (view k1) @ [p])"
proof -
  note cluster = kube_cluster.intro [OF assms(1)]
  obtain res kr spec c where 1: "get_resource api k = (Inr res, kr)"
    "parseSpec (accessor_error api) res = Inr spec" "sync spec (view k) = Some c"
    "view k1 = put_status (status_patch ''Ready'' (Generation res) ''workloads reconciled'') c"
    by (rule kube_cluster.reconcile_success [OF cluster assms(2)])
  obtain res' kr' spec' c' where 2: "get_resource api k1 = (Inr res', kr')"
    "parseSpec (accessor_error api) res' = Inr spec'" "sync spec' (view k1) = Some c'"
    "view k2 = put_status (status_patch ''Ready'' (Generation res') ''workloads reconciled'') c'"
    by (rule kube_cluster.reconcile_success [OF cluster assms(3)])
  have "res' = res" using 1(1) 2(1) assms(4) by simp
  then have "spec' = spec" using 1(2) 2(2) by simp
  with sync_idem [OF 1(3)] 2(3) 1(4) have "c' = view k1" by metis
  then show ?thesis using 2(4) by (simp add: put_status_def)
qed

theorem reconcile_idempotent_witness:
  "\<exists>k1 k2. reconcile (ref_kube (Some example_resource)) example_cluster = (None, k1) \<and>
    reconcile (ref_kube (Some example_resource)) k1 = (None, k2) \<and>
    configs (id k2) = configs (id k1) \<and> deploys (id k2) = deploys (id k1)"
proof -
  obtain k1 where 1: "reconcile (ref_kube (Some example_resource)) example_cluster = (None, k1)"
    using example_pass by (metis prod.collapse)
  obtain k2 where 2: "reconcile (ref_kube (Some example_resource)) k1 = (None, k2)"
    using example_second_pass [OF 1] by (metis prod.collapse)
  have "fst (get_resource (ref_kube (Some example_resource)) k1) =
      fst (get_resource (ref_kube (Some example_resource)) example_cluster)"
    by (simp add: ref_kube_def)
  from reconcile_idempotent [OF ref_kube_behaves 1 2 this] 1 2 show ?thesis by blast
qed

text \<open>
  C18. The status tells the outcome, on every branch of a pass. When the resource cannot be read, the
  pass reports that error and neither an object nor a status changes. Otherwise the last call of the
  pass, and the only one that adds a status, patches the status, with the generation of the
  resource: after every object has been brought to the spec it is Ready, and the result of the pass
  is that of the patch itself; when the spec cannot be decoded or an object fails, it is Error with
  the text of that error, which the pass reports whatever becomes of the patch. A patch that goes
  through has appended this one status; one that fails may have.
\<close>

theorem reconcile_reports_outcome:
  assumes "kube_behaves api view" and "reconcile api k = (r, k')"
  shows "case get_resource api k of
      (Inl err, k1) \<Rightarrow> r = Some err \<and> k' = k1 \<and> view k' = view k
    | (Inr res, k1) \<Rightarrow> \<exists>p k2 e.
        patch_status api p k2 = (e, k') \<and> statuses (view k2) = statuses (view k) \<and>
        (statuses (view k') = statuses (view k) @ [p] \<or> (e \<noteq> None \<and> statuses (view k') = statuses (view k))) \<and>
        ((\<exists>spec. parseSpec (accessor_error api) res = Inr spec \<and> sync spec (view k) = Some (view k2) \<and>
            p = status_patch ''Ready'' (Generation res) ''workloads reconciled'' \<and> r = e) \<or>
         (\<exists>err. p = status_patch ''Error'' (Generation res) err \<and> r = Some err \<and>
            (parseSpec (accessor_error api) res = Inl err \<or>
             (\<exists>spec. parseSpec (accessor_error api) res = Inr spec \<and> apply_spec api spec k1 = (Some err, k2)))))"
proof -
  note cluster = kube_cluster.intro [OF assms(1)]
  obtain g k1 where g: "get_resource api k = (g, k1)" by (cases "get_resource api k")
  have same: "view k1 = view k" by (rule kube_cluster.get_resource_view [OF cluster g])
  show ?thesis
  proof (cases g)
    case (Inl err)
    with assms(2) g same show ?thesis by (simp add: reconcile_def)
  next
    case (Inr res)
    show ?thesis
      unfolding g Inr prod.case sum.case
      by (rule kube_cluster.reconcile_outcome [OF cluster assms(2) g [unfolded Inr]]) (intro exI conjI)
  qed
qed

text \<open>A cluster whose config map is gone, and where the status cannot be patched.\<close>

definition failing_kube :: "cluster kube_api" where
  "failing_kube = (ref_kube (Some example_resource))\<lparr>patch_status := (\<lambda>p c. (Some ''conflict'', c))\<rparr>"

lemma failing_kube_behaves: "kube_behaves failing_kube id"
  using ref_kube_behaves [of "Some example_resource"]
  by (simp add: kube_behaves_def failing_kube_def write_law_def [of _ put_status])

theorem reconcile_reports_outcome_witness:
  "\<exists>k1 k2. reconcile failing_kube (example_cluster\<lparr>configs := Map.empty\<rparr>) = (Some ''not found'', k1) \<and>
     statuses k1 = [] \<and>
     reconcile failing_kube example_cluster = (Some ''conflict'', k2) \<and>
     sync example_spec example_cluster = Some k2 \<and> statuses k2 = []"
proof -
  let ?c1 = "example_cluster\<lparr>configs := Map.empty\<rparr>"
  have get: "get_resource failing_kube k = (Inr example_resource, k)" for k
    by (simp add: failing_kube_def ref_kube_def)
  have r1: "fst (reconcile failing_kube ?c1) = Some ''not found''"
    and r2: "fst (reconcile failing_kube example_cluster) = Some ''conflict''"
    by (simp_all add: failing_kube_def example_defs)
  have patch: "patch_status failing_kube p k = (Some ''conflict'', k)" for p k
    by (simp add: failing_kube_def)
  have start: "statuses example_cluster = []" by (simp add: example_cluster_def)
  have ok: "fst (apply_spec failing_kube example_spec example_cluster) = None"
    by (simp add: failing_kube_def example_defs)
  note outcome = reconcile_reports_outcome [OF failing_kube_behaves prod.collapse [symmetric]]
  have 1: "statuses (snd (reconcile failing_kube ?c1)) = []"
    using outcome [of ?c1, unfolded get prod.case sum.case patch] by (auto simp: start)
  have "parseSpec (accessor_error failing_kube) example_resource = Inr example_spec" by (rule example_parsed)
  then have 2: "sync example_spec example_cluster = Some (snd (reconcile failing_kube example_cluster)) \<and>
      statuses (snd (reconcile failing_kube example_cluster)) = []"
    using outcome [of example_cluster, unfolded get prod.case sum.case patch] ok by (auto simp: start)
  from 1 2 r1 r2 show ?thesis
    by (intro exI [of _ "snd (reconcile failing_kube ?c1)"] exI [of _ "snd (reconcile failing_kube example_cluster)"])
      (simp add: prod_eq_iff)
qed

end
