(* ===== verification/Operator_Main.thy ===== *)
theory Operator_Main
  imports Operator
begin

text \<open>
  The operator as a program (\<open>main\<close> in \<open>cmd/operator/main.go\<close>): its start and its endless loop of
  passes, with what others do to the cluster while it waits for the ticker.
\<close>

section \<open>Start\<close>

datatype operator_start = OpFatal error | OpPanic error | OpRunning string string duration

text \<open>
  \<open>cfg\<close> is what \<open>kubeConfig\<close> returned; \<open>newKube\<close> and \<open>newDynamic\<close> are the errors of the two client
  constructors.
\<close>

definition operator_main ::
    "environ \<Rightarrow> error + 'cfg \<Rightarrow> ('cfg \<Rightarrow> error option) \<Rightarrow> ('cfg \<Rightarrow> error option) \<Rightarrow> operator_start"
where
  "operator_main env cfg newKube newDynamic =
     (let namespace = operator_getEnv env ''WATCH_NAMESPACE'' ''cloudops'';
          name = operator_getEnv env ''CLOUDOPS_MONITOR_NAME'' ''cloudops'';
          interval = reconcile_interval env
      in case cfg of
           Inl err \<Rightarrow> OpFatal err
         | Inr c \<Rightarrow>
             (case newKube c of
                Some err \<Rightarrow> OpFatal err
              | None \<Rightarrow>
                  (case newDynamic c of
                     Some err \<Rightarrow> OpFatal err
                   | None \<Rightarrow>
                       (case new_ticker interval of
                          Inl err \<Rightarrow> OpPanic err
                        | Inr d \<Rightarrow> OpRunning namespace name d))))"

section \<open>The loop\<close>

text \<open>
  One wait: what happens to the cluster until the \<open>select\<close> returns, and whether it returned because
  the context is done. The loop is followed for as many waits as are given; it logs the result of
  each pass with the state the pass left.
\<close>

fun operator_loop :: "'k kube_api \<Rightarrow> ('k \<Rightarrow> 'k \<times> bool) list \<Rightarrow> 'k \<Rightarrow> (error option \<times> 'k) list \<times> 'k" where
  "operator_loop api [] k = ([], k)"
| "operator_loop api (wait # waits) k =
     (case reconcile api k of
        (r, k1) \<Rightarrow>
          (case wait k1 of
             (k2, stopped) \<Rightarrow>
               if stopped then ([(r, k1)], k2)
               else (case operator_loop api waits k2 of (rs, k3) \<Rightarrow> ((r, k1) # rs, k3))))"

section \<open>A pass succeeds when the API answers\<close>

text \<open>The four objects exist under their names.\<close>

definition present :: "('c \<Rightarrow> string \<rightharpoonup> 'o) \<Rightarrow> ('o \<Rightarrow> string) \<Rightarrow> string \<Rightarrow> 'c \<Rightarrow> bool" where
  "present objs name_of n c \<longleftrightarrow> (\<exists>x. objs c n = Some x \<and> name_of x = n)"

definition has_objects :: "cluster \<Rightarrow> bool" where
  "has_objects c \<longleftrightarrow>
     present configs cm_Name ''cloudops-config'' c \<and> present deploys dep_Name ''cloudops-server'' c \<and>
     present deploys dep_Name ''cloudops-worker'' c \<and> present daemons ds_Name ''cloudops-agent'' c"

text \<open>
  The API answers: it returns the resource, whose spec is accepted, and every object that exists,
  and it carries out every write.
\<close>

definition kube_answers :: "'k kube_api \<Rightarrow> ('k \<Rightarrow> cluster) \<Rightarrow> cloudops_spec \<Rightarrow> bool" where
  "kube_answers api view spec \<longleftrightarrow>
     (\<forall>k. \<exists>res. fst (get_resource api k) = Inr res \<and> parseSpec (accessor_error api) res = Inr spec) \<and>
     (\<forall>n k. present configs cm_Name n (view k) \<longrightarrow> \<not> isl (fst (get_config_map api n k))) \<and>
     (\<forall>n k. present deploys dep_Name n (view k) \<longrightarrow> \<not> isl (fst (get_deployment api n k))) \<and>
     (\<forall>n k. present daemons ds_Name n (view k) \<longrightarrow> \<not> isl (fst (get_daemon_set api n k))) \<and>
     (\<forall>x k. fst (update_config_map api x k) = None) \<and> (\<forall>x k. fst (update_deployment api x k) = None) \<and>
     (\<forall>x k. fst (update_daemon_set api x k) = None) \<and> (\<forall>p k. fst (patch_status api p k) = None)"

definition in_sync :: "cloudops_spec \<Rightarrow> cluster \<Rightarrow> bool" where
  "in_sync spec c \<longleftrightarrow> sync spec c = Some c"

lemma has_objects_put_status [simp]: "has_objects (put_status p c) = has_objects c"
  by (simp add: has_objects_def present_def put_status_def)

lemmas sync_step_defs = sync_config_def sync_server_def sync_worker_def sync_agent_def change_object_def
  put_config_def put_deploy_def put_daemon_def

lemma has_objects_steps:
  "sync_config spec c = Some c' \<Longrightarrow> has_objects c \<Longrightarrow> has_objects c'"
  "sync_server spec c = Some c' \<Longrightarrow> has_objects c \<Longrightarrow> has_objects c'"
  "sync_worker spec c = Some c' \<Longrightarrow> has_objects c \<Longrightarrow> has_objects c'"
  "sync_agent spec c = Some c' \<Longrightarrow> has_objects c \<Longrightarrow> has_objects c'"
  by (auto simp: sync_step_defs has_objects_def present_def set_config_data set_deployment_idem
      set_daemon_set_idem)

lemma has_objects_sync:
  assumes "sync spec c = Some c'" and "has_objects c"
  shows "has_objects c'"
  using assms has_objects_steps by (auto simp: sync_def bind_eq_Some_conv)

lemma sync_defined: "has_objects c \<Longrightarrow> \<exists>c'. sync spec c = Some c'"
  by (auto simp: has_objects_def present_def sync_def sync_step_defs)

lemma get_and_update_answers:
  assumes "present objs name_of n (view k) \<longrightarrow> \<not> isl (fst (get n k))" and "\<And>x k. fst (write x k) = None"
    and "present objs name_of n (view k)"
  shows "fst (get_and_update (get n) f write k) = None"
proof -
  obtain x k1 where "get n k = (Inr x, k1)"
    using assms(1,3) by (cases "get n k"; cases "fst (get n k)") auto
  with assms(2) show ?thesis by (simp add: get_and_update_def)
qed

locale answering_cluster = kube_cluster api view for api :: "'k kube_api" and view :: "'k \<Rightarrow> cluster" +
  fixes spec :: cloudops_spec
  assumes answers: "kube_answers api view spec"
begin

lemma config_succeeds: "present configs cm_Name ''cloudops-config'' (view k) \<Longrightarrow> fst (reconcileConfigMap api spec' k) = None"
  unfolding step_defs
  by (rule get_and_update_answers [where objs = configs and name_of = cm_Name and view = view])
    (use answers in \<open>simp_all add: kube_answers_def\<close>)

lemma deployment_succeeds: "present deploys dep_Name n (view k) \<Longrightarrow> fst (reconcileDeployment api n c img r k) = None"
  unfolding step_defs
  by (rule get_and_update_answers [where objs = deploys and name_of = dep_Name and view = view])
    (use answers in \<open>simp_all add: kube_answers_def\<close>)

lemma daemon_set_succeeds: "present daemons ds_Name n (view k) \<Longrightarrow> fst (reconcileDaemonSet api n c img k) = None"
  unfolding step_defs
  by (rule get_and_update_answers [where objs = daemons and name_of = ds_Name and view = view])
    (use answers in \<open>simp_all add: kube_answers_def\<close>)

lemma apply_spec_succeeds:
  assumes "has_objects (view k)"
  shows "fst (apply_spec api spec k) = None"
proof -
  obtain k1 where 1: "reconcileConfigMap api spec k = (None, k1)"
    using assms config_succeeds [of k spec] by (metis has_objects_def prod.collapse)
  then have h1: "has_objects (view k1)"
    using sync_steps(1) [OF 1] assms has_objects_steps(1) unfolding sync_config_def by metis
  obtain k2 where 2: "reconcileDeployment api ''cloudops-server'' ''server'' (ws_Image (sp_Server spec))
      (ws_Replicas (sp_Server spec)) k1 = (None, k2)"
    using h1 deployment_succeeds by (metis has_objects_def prod.collapse)
  then have h2: "has_objects (view k2)"
    using sync_steps(2) [OF 2] h1 has_objects_steps(2) unfolding sync_server_def by metis
  obtain k3 where 3: "reconcileDeployment api ''cloudops-worker'' ''worker'' (ws_Image (sp_Worker spec))
      (ws_Replicas (sp_Worker spec)) k2 = (None, k3)"
    using h2 deployment_succeeds by (metis has_objects_def prod.collapse)
  then have "has_objects (view k3)"
    using sync_steps(2) [OF 3] h2 has_objects_steps(3) unfolding sync_worker_def by metis
  then have "fst (reconcileDaemonSet api ''cloudops-agent'' ''agent'' (ag_Image (sp_Agent spec)) k3) = None"
    using daemon_set_succeeds by (simp add: has_objects_def)
  with 1 2 3 show ?thesis by (simp add: apply_spec_def)
qed

lemma pass_succeeds:
  assumes "has_objects (view k)" and "reconcile api k = (r, k')"
  shows "r = None \<and> in_sync spec (view k') \<and> has_objects (view k')"
proof -
  obtain res k1 where g: "get_resource api k = (Inr res, k1)" "parseSpec (accessor_error api) res = Inr spec"
    using answers unfolding kube_answers_def by (metis prod.collapse)
  have "has_objects (view k1)" using assms(1) get_resource_view [OF g(1)] by simp
  then obtain k2 where "apply_spec api spec k1 = (None, k2)" using apply_spec_succeeds by (metis prod.collapse)
  with g assms(2) have "patchStatus api ''Ready'' (Generation res) ''workloads reconciled'' k2 = (r, k')"
    by (simp add: reconcile_def)
  then have r: "r = None"
    using answers unfolding kube_answers_def patchStatus_def by (metis fst_conv)
  with assms(2) have "reconcile api k = (None, k')" by simp
  then obtain res' k1' spec' c where 1: "get_resource api k = (Inr res', k1')"
    "parseSpec (accessor_error api) res' = Inr spec'" "sync spec' (view k) = Some c"
    "view k' = put_status (status_patch ''Ready'' (Generation res') ''workloads reconciled'') c"
    by (rule reconcile_success)
  with g have s: "sync spec (view k) = Some c" by simp
  have h: "has_objects (view k')" using has_objects_sync [OF s assms(1)] 1(4) by simp
  then obtain c2 where "sync spec (view k') = Some c2" using sync_defined by blast
  with sync_idem [OF s] 1(4) have "in_sync spec (view k')" unfolding in_sync_def by metis
  with r h show ?thesis by simp
qed

lemma loop_heals:
  assumes "has_objects (view k)" and "\<forall>wait \<in> set waits. \<forall>k. has_objects (view k) \<longrightarrow> has_objects (view (fst (wait k)))"
  shows "\<forall>(r, k') \<in> set (fst (operator_loop api waits k)). r = None \<and> in_sync spec (view k')"
  using assms
proof (induction waits arbitrary: k)
  case (Cons wait waits)
  obtain r k1 where p: "reconcile api k = (r, k1)" by (cases "reconcile api k")
  obtain k2 stopped where w: "wait k1 = (k2, stopped)" by (cases "wait k1")
  from pass_succeeds [OF Cons.prems(1) p] have ok: "r = None" "in_sync spec (view k1)" "has_objects (view k1)"
    by simp_all
  then have "has_objects (view k2)" using Cons.prems(2) w by (metis fst_conv list.set_intros(1))
  with Cons.IH Cons.prems(2) have
    "\<forall>(r, k') \<in> set (fst (operator_loop api waits k2)). r = None \<and> in_sync spec (view k')" by simp
  with ok(1,2) show ?case by (auto simp: p w split: prod.split)
qed simp

end

section \<open>Properties\<close>

text \<open>
  C8. The operator heals the cluster: as long as the API answers, the spec is accepted and nobody
  deletes the four objects, every pass of the loop succeeds and leaves the objects as the spec asks,
  whatever others have changed in them while the operator waited.
\<close>

theorem operator_heals:
  assumes "kube_behaves api view" and "kube_answers api view spec" and "has_objects (view k)"
    and "\<forall>wait \<in> set waits. \<forall>k. has_objects (view k) \<longrightarrow> has_objects (view (fst (wait k)))"
  shows "\<forall>(r, k') \<in> set (fst (operator_loop api waits k)). r = None \<and> sync spec (view k') = Some (view k')"
proof -
  have "answering_cluster api view spec" using assms(1,2) by unfold_locales
  from answering_cluster.loop_heals [OF this assms(3,4)] show ?thesis by (simp add: in_sync_def)
qed

lemma ref_kube_answers:
  assumes "parseSpec (\<lambda>_. ''.spec accessor error'') res = Inr spec"
  shows "kube_answers (ref_kube (Some res)) id spec"
  using assms by (auto simp: kube_answers_def ref_kube_def ref_find_def named_def present_def)

interpretation ref_answers: answering_cluster "ref_kube (Some example_resource)" id example_spec
  by unfold_locales (rule ref_kube_answers [OF example_parsed])

lemma example_has_objects: "has_objects example_cluster"
  by (simp add: has_objects_def present_def example_cluster_def)

text \<open>Between two passes somebody scales the server to nothing; then the context is done.\<close>

definition scaled_down :: "cluster \<Rightarrow> cluster \<times> bool" where
  "scaled_down c =
     (c\<lparr>deploys := (\<lambda>n. map_option (\<lambda>d. if n = ''cloudops-server'' then d\<lparr>dep_Replicas := Some 0\<rparr> else d) (deploys c n))\<rparr>,
      False)"

theorem operator_heals_witness:
  "case fst (operator_loop (ref_kube (Some example_resource)) [scaled_down, \<lambda>c. (c, True)] example_cluster) of
     [(r1, c1), (r2, c2)] \<Rightarrow> r2 = None \<and> sync example_spec (id c2) = Some (id c2)
   | _ \<Rightarrow> False"
proof -
  let ?api = "ref_kube (Some example_resource)"
  let ?waits = "[scaled_down, \<lambda>c. (c, True)]"
  have w: "\<forall>wait \<in> set ?waits. \<forall>k. has_objects (id k) \<longrightarrow> has_objects (id (fst (wait k)))"
    by (auto simp: has_objects_def present_def scaled_down_def)
  have h: "has_objects (id example_cluster)" using example_has_objects by simp
  obtain r1 c1 where 1: "reconcile ?api example_cluster = (r1, c1)" by (cases "reconcile ?api example_cluster")
  obtain r2 c2 where 2: "reconcile ?api (fst (scaled_down c1)) = (r2, c2)"
    by (cases "reconcile ?api (fst (scaled_down c1))")
  have "fst (operator_loop ?api ?waits example_cluster) = [(r1, c1), (r2, c2)]"
    using 1 2 by (simp add: scaled_down_def)
  with operator_heals [OF ref_kube_behaves ref_kube_answers [OF example_parsed] h w] show ?thesis by simp
qed

text \<open>
  The operator comes up exactly when a configuration and both clients can be had and the wrapped
  interval is positive; a bad interval is met after everything else has been set up, and it is then
  a panic.
\<close>

theorem operator_start_outcome:
  "case operator_main env cfg newKube newDynamic of
     OpFatal err \<Rightarrow> isl cfg \<or> newKube (projr cfg) \<noteq> None \<or> newDynamic (projr cfg) \<noteq> None
   | OpPanic err \<Rightarrow> \<not> isl cfg \<and> newKube (projr cfg) = None \<and> newDynamic (projr cfg) = None \<and> reconcile_interval env \<le> 0
   | OpRunning ns name d \<Rightarrow>
       \<not> isl cfg \<and> newKube (projr cfg) = None \<and> newDynamic (projr cfg) = None \<and>
       0 < d \<and> d = reconcile_interval env"
  by (auto simp: operator_main_def new_ticker_def Let_def split: sum.split option.split)

end
