(* ===== verification/Worker_Main.thy ===== *)
theory Worker_Main
  imports Telemetry
begin

text \<open>
  The start of the worker (\<open>main\<close> in \<open>cmd/worker/main.go\<close> up to its loop), and the addresses of the
  brokers as the two ends of the queue read them from one setting.
\<close>

section \<open>Start\<close>

text \<open>\<open>kafka.ReaderConfig\<close> as far as the worker fills it.\<close>

record reader_config =
  rc_Brokers :: "string list"
  rc_Topic :: string
  rc_GroupID :: string
  rc_MinBytes :: int
  rc_MaxBytes :: int

definition worker_reader :: "worker_config \<Rightarrow> reader_config" where
  "worker_reader cfg =
     \<lparr>rc_Brokers = split_on CHR '','' (wc_brokers cfg), rc_Topic = wc_topic cfg, rc_GroupID = wc_groupID cfg,
      rc_MinBytes = 1, rc_MaxBytes = 10000000\<rparr>"

datatype worker_start = WorkerExit int log_output | WorkerRuns tracing reader_config "log_output list"

definition worker_main :: "otel_lib \<Rightarrow> string \<Rightarrow> worker_config \<Rightarrow> worker_start" where
  "worker_main ol ts cfg =
     (case worker_initTracing ol ts cfg of
        Inl err \<Rightarrow> WorkerExit 1 (worker_logKV ts ''error'' ''worker_otel_init_failed'' [(''err'', Inr (JStr err))])
      | Inr (tracing, lines) \<Rightarrow>
          WorkerRuns tracing (worker_reader cfg)
            (lines @ [worker_logKV ts ''info'' ''worker_started''
               [(''topic'', Inr (JStr (wc_topic cfg))), (''brokers'', Inr (JStr (wc_brokers cfg))),
                (''target'', Inr (JStr (wc_processURL cfg)))]]))"

text \<open>
  The worker starts unless tracing is on and cannot be set up; without tracing nothing can keep it
  from starting, not even an empty broker list.
\<close>

theorem worker_start_outcome:
  "case worker_main ol ts cfg of
     WorkerExit code line \<Rightarrow>
       code = 1 \<and> wc_otelEnabled cfg \<and>
       (new_exporter ol (wc_otelEndpoint cfg) \<noteq> None \<or> new_resource ol (wc_otelServiceName cfg) \<noteq> None)
   | WorkerRuns tracing reader lines \<Rightarrow>
       reader = worker_reader cfg \<and>
       tracing = (if wc_otelEnabled cfg then TracingTo (wc_otelEndpoint cfg) (wc_otelServiceName cfg) else NoTracing)"
  by (auto simp: worker_main_def worker_initTracing_def start_tracing_def split: option.split)

section \<open>Trimming around a separator\<close>

text \<open>A character that no white-space code point contains keeps what is on either side of it apart.\<close>

abbreviation strip_back :: "string \<Rightarrow> string" where
  "strip_back s \<equiv> rev (strip_front (map rev space_runes) (rev s))"

lemma strip_front_sep:
  "\<forall>r \<in> set rs. sep \<notin> set r \<Longrightarrow> strip_front rs (p @ sep # q) = strip_front rs p @ sep # q"
proof (induction rs p rule: strip_front.induct)
  case (1 rs p)
  have same: "has_prefix r (p @ sep # q) = has_prefix r p" if "r \<in> set rs" for r
  proof
    assume "has_prefix r (p @ sep # q)"
    then obtain z where z: "p @ sep # q = r @ z" by (auto elim: has_prefixE)
    have "length r \<le> length p"
    proof (rule ccontr)
      assume "\<not> length r \<le> length p"
      then have "r ! length p = (r @ z) ! length p" "length p < length r" by (simp_all add: nth_append)
      then have "sep \<in> set r" by (metis nth_append_length nth_mem z)
      with "1.prems" that show False by blast
    qed
    with arg_cong [OF z, of "take (length r)"] have "r = take (length r) p" by simp
    then show "has_prefix r p" by (metis append_take_drop_id has_prefix_append)
  next
    assume "has_prefix r p"
    then show "has_prefix r (p @ sep # q)" by (auto elim!: has_prefixE)
  qed
  have find: "find (\<lambda>r. r \<noteq> [] \<and> has_prefix r (p @ sep # q)) rs = find (\<lambda>r. r \<noteq> [] \<and> has_prefix r p) rs"
    by (rule find_cong) (auto simp: same)
  show ?case
  proof (cases "find (\<lambda>r. r \<noteq> [] \<and> has_prefix r p) rs")
    case None
    then show ?thesis by (simp add: strip_front.simps [of rs "p @ sep # q"] strip_front.simps [of rs p] find)
  next
    case (Some r)
    then have "length r \<le> length p" by (auto simp: find_Some_iff elim!: has_prefixE)
    with "1.IH" [OF Some "1.prems"] Some show ?thesis
      by (simp add: strip_front.simps [of rs "p @ sep # q"] strip_front.simps [of rs p] find)
  qed
qed

lemma comma_no_space: "\<forall>r \<in> set space_runes. CHR '','' \<notin> set r" "\<forall>r \<in> set (map rev space_runes). CHR '','' \<notin> set r"
  by (simp_all add: space_runes_def)

lemma trim_space_comma:
  "trim_space (p @ CHR '','' # q) = strip_front space_runes p @ CHR '','' # strip_back q"
  using strip_front_sep [OF comma_no_space(2), of "rev q" "rev (strip_front space_runes p)"]
  by (simp add: trim_space_def strip_front_sep [OF comma_no_space(1)])

lemma trim_strip_front [simp]: "trim_space (strip_front space_runes s) = trim_space s"
proof -
  have "strip_front space_runes (strip_front space_runes s) = strip_front space_runes s"
    by (rule strip_front_fix) (simp add: strip_front_no_prefix)
  then show ?thesis by (simp add: trim_space_def)
qed

text \<open>What follows the first byte of a white-space code point is the start of none.\<close>

lemma space_runes_apart: "r \<in> set space_runes \<Longrightarrow> r' \<in> set space_runes \<Longrightarrow> b \<in> set (tl r) \<Longrightarrow> hd r' \<noteq> b"
  by (auto simp: space_runes_def)

lemma strip_front_runes:
  "\<exists>ws. s = concat ws @ strip_front rs s \<and> set ws \<subseteq> set rs \<and> [] \<notin> set ws"
proof (induction rs s rule: strip_front.induct)
  case (1 rs s)
  show ?case
  proof (cases "find (\<lambda>r. r \<noteq> [] \<and> has_prefix r s) rs")
    case None
    then show ?thesis by (intro exI [of _ "[]"]) (simp add: strip_front.simps [of rs s])
  next
    case (Some r)
    with "1.IH" obtain ws where ws: "drop (length r) s = concat ws @ strip_front rs (drop (length r) s)"
      "set ws \<subseteq> set rs" "[] \<notin> set ws" by blast
    from Some have r: "r \<in> set rs" "r \<noteq> []" "s = r @ drop (length r) s"
      by (auto simp: find_Some_iff elim!: has_prefixE)
    from Some have "strip_front rs s = strip_front rs (drop (length r) s)"
      by (simp add: strip_front.simps [of rs s])
    with ws r show ?thesis by (intro exI [of _ "r # ws"]) auto
  qed
qed

lemma trim_strip_back:
  assumes "trim_space (strip_back s) = strip_back s" and "strip_back s \<noteq> []"
  shows "trim_space s = strip_back s"
proof -
  let ?r = "strip_back s"
  obtain ws where ws: "rev s = concat ws @ rev ?r" "set ws \<subseteq> set (map rev space_runes)" "[] \<notin> set ws"
    using strip_front_runes [of "rev s" "map rev space_runes"] by auto
  let ?us = "rev (map rev ws)"
  have "s = rev (rev ?r) @ rev (concat ws)" using arg_cong [OF ws(1), of rev] by simp
  then have s: "s = ?r @ concat ?us" by (simp add: rev_concat rev_map)
  have us: "set ?us \<subseteq> set space_runes" "[] \<notin> set ?us" using ws(2,3) by auto
  have "\<not> has_prefix r s" if r: "r \<in> set space_runes" for r
  proof
    assume "has_prefix r s"
    then obtain z where z: "?r @ concat ?us = r @ z" using s by (metis has_prefixE)
    have no: "\<not> has_prefix r ?r" using trim_space_no_prefix [OF r, of ?r] assms(1) by simp
    from z obtain u where "?r = r @ u \<or> (r = ?r @ u \<and> concat ?us = u @ z)"
      unfolding append_eq_append_conv2 by blast
    then consider "?r = r @ u" | "r = ?r @ u" "u \<noteq> []" "concat ?us = u @ z"
      by (cases "u = []") auto
    then show False
    proof cases
      case 1
      then have "has_prefix r ?r" by (metis has_prefix_append)
      with no show False ..
    next
      case 2
      then obtain x xs where x: "?us = x # xs" by (cases ?us) auto
      with us have "x \<in> set space_runes" "x \<noteq> []" by auto
      moreover from 2 x this(2) have "hd x = hd u" by (cases x; cases u) auto
      moreover have "hd u \<in> set (tl r)" using 2(1,2) assms(2) by (cases ?r; cases u) auto
      ultimately show False using space_runes_apart [OF r] by blast
    qed
  qed
  then have "strip_front space_runes s = s" by (intro strip_front_fix) auto
  then show ?thesis by (simp add: trim_space_def)
qed

lemma split_on_sep: "split_on sep (x @ sep # y) = split_on sep x @ split_on sep y"
  by (induction x) (auto split: list.split)

lemma trimmed_pieces:
  "map trim_space (split_on (CHR '','') (strip_front space_runes x)) = map trim_space (split_on (CHR '','') x)"
proof (cases "CHR '','' \<in> set x")
  case True
  then obtain p z where x: "x = p @ CHR '','' # z" "CHR '','' \<notin> set p" by (meson split_list_first)
  have "CHR '','' \<notin> set (strip_front space_runes p)"
    using x(2) strip_front_suffix [of p space_runes] by (metis Un_iff set_append)
  with x show ?thesis by (simp add: strip_front_sep [OF comma_no_space(1)] split_on_append)
next
  case False
  moreover have "CHR '','' \<notin> set (strip_front space_runes x)"
    using False strip_front_suffix [of x space_runes] by (metis Un_iff set_append)
  ultimately show ?thesis by (simp add: split_on_clean)
qed

section \<open>The brokers of both ends\<close>

text \<open>
  The brokers a value gives the server, and the entry a broker must be for the two to agree.
\<close>

abbreviation server_entries :: "string \<Rightarrow> string list" where
  "server_entries v \<equiv> filter (\<lambda>p. p \<noteq> []) (map trim_space (split_on (CHR '','') v))"

abbreviation clean_entry :: "string \<Rightarrow> bool" where
  "clean_entry p \<equiv> trim_space p = p \<and> p \<noteq> []"

lemma server_entries_clean: "list_all clean_entry (server_entries v)"
  by (auto simp: list_all_iff)

lemma clean_fixed: "list_all clean_entry ps \<Longrightarrow> filter (\<lambda>p. p \<noteq> []) (map trim_space ps) = ps"
  by (induction ps) auto

lemma comma_not_blank: "CHR '','' \<in> set v \<Longrightarrow> \<not> blank v"
  by (auto dest!: split_list simp: trim_space_comma)

lemma entries_agree:
  "server_entries v = split_on (CHR '','') (trim_space v) \<longleftrightarrow> list_all clean_entry (split_on (CHR '','') (trim_space v))"
    (is "?l \<longleftrightarrow> ?r")
proof
  assume ?l
  with server_entries_clean [of v] show ?r by (simp only:)
next
  assume clean: ?r
  show ?l
  proof (cases "CHR '','' \<in> set v")
    case True
    then obtain x s where v: "v = x @ CHR '','' # s" "CHR '','' \<notin> set s" by (meson split_list_last)
    have "CHR '','' \<notin> set (strip_back s)"
      using v(2) strip_front_suffix [of "rev s" "map rev space_runes"] by (metis Un_iff set_append set_rev)
    then have pieces: "split_on (CHR '','') (trim_space v) =
        split_on (CHR '','') (strip_front space_runes x) @ [strip_back s]"
      by (simp add: v(1) trim_space_comma split_on_sep split_on_clean)
    with clean have "trim_space s = strip_back s" by (intro trim_strip_back) simp_all
    then have "map trim_space (split_on (CHR '','') v) = map trim_space (split_on (CHR '','') (trim_space v))"
      using pieces clean v(2) by (simp add: v(1) split_on_sep split_on_clean trimmed_pieces)
    then show ?thesis using clean_fixed [OF clean] by simp
  next
    case False
    moreover have "CHR '','' \<notin> set (trim_space v)"
    proof -
      obtain a where a: "v = a @ strip_front space_runes v" using strip_front_suffix by blast
      obtain b where b: "rev (strip_front space_runes v) = b @ rev (trim_space v)"
        using strip_front_suffix [of "rev (strip_front space_runes v)" "map rev space_runes"]
        by (auto simp: trim_space_def)
      have "set (trim_space v) \<subseteq> set (strip_front space_runes v)"
        using arg_cong [OF b, of set] by auto
      also have "\<dots> \<subseteq> set v" using arg_cong [OF a, of set] by auto
      finally show ?thesis using False by blast
    qed
    ultimately show ?thesis using clean by (simp add: split_on_clean)
  qed
qed

text \<open>
  C35. The brokers the two ends of the queue read from \<^verbatim>\<open>KAFKA_BROKERS\<close>, from the environment on.
  When it is unset or empty, both use \<^verbatim>\<open>localhost:9092\<close>. When it is white space, the server has no
  broker at all, and the worker uses \<^verbatim>\<open>localhost:9092\<close>. Otherwise they have the same brokers
  exactly when the entries between the commas of the value, once it is trimmed at its ends, have no
  white space around them and none is empty: the server trims the entries and drops the empty ones,
  the worker takes them as they are.
\<close>

theorem brokers_agree:
  "let server = kp_Addr (NewKafkaPublisher (KafkaBrokers (loadConfig fl env)) topic);
       worker = rc_Brokers (worker_reader (worker_loadConfig uni env))
   in case env ''KAFKA_BROKERS'' of
        None \<Rightarrow> server = [''localhost:9092''] \<and> worker = [''localhost:9092'']
      | Some v \<Rightarrow>
          if v = [] then server = [''localhost:9092''] \<and> worker = [''localhost:9092'']
          else if blank v then server = [] \<and> worker = [''localhost:9092'']
          else server = worker \<longleftrightarrow> list_all (\<lambda>p. trim_space p = p \<and> p \<noteq> []) (split_on (CHR '','') (trim_space v))"
proof -
  have def: "trim_space ''localhost:9092'' = ''localhost:9092''" "split_on (CHR '','') ''localhost:9092'' = [''localhost:9092'']"
    by code_simp+
  have spaces: "server_entries v = []" if "blank v" for v
  proof -
    have "CHR '','' \<notin> set v" using comma_not_blank that by blast
    with that show ?thesis by (simp add: split_on_clean)
  qed
  note defs = loadConfig_def getEnv_def NewKafkaPublisher_def worker_reader_def worker_loadConfig_def
    worker_getEnv_def os_getenv_def Let_def
  show ?thesis
  proof (cases "env ''KAFKA_BROKERS''")
    case None
    then show ?thesis by (simp add: defs def)
  next
    case (Some v)
    then show ?thesis using spaces [of v] entries_agree [of v] by (simp add: defs def)
  qed
qed

text \<open>A list with a space after its comma.\<close>

lemma spaced_brokers:
  "kp_Addr (NewKafkaPublisher (KafkaBrokers (loadConfig fl [''KAFKA_BROKERS'' \<mapsto> ''a:9092, b:9092''])) topic) \<noteq>
     rc_Brokers (worker_reader (worker_loadConfig uni [''KAFKA_BROKERS'' \<mapsto> ''a:9092, b:9092'']))"
proof -
  have "trim_space ''a:9092, b:9092'' = ''a:9092, b:9092''" "trim_space '' b:9092'' = ''b:9092''"
    "trim_space ''a:9092'' = ''a:9092''"
    by code_simp+
  then show ?thesis
    by (simp add: loadConfig_def getEnv_def NewKafkaPublisher_def worker_reader_def worker_loadConfig_def
        worker_getEnv_def os_getenv_def Let_def)
qed

end
