(* ===== verification/Concurrent.thy ===== *)
theory Concurrent
  imports Ingest
begin

text \<open>
  Concurrent evaluations. The server handles every request on its own goroutine, so the store calls,
  notifications and saves of several evaluations interleave. Here an evaluation is a thread that
  moves one atomic operation at a time: a store call (under the store's mutex, or one Redis
  command), a notification with the clock reading stamped on it, the increment of a counter, the
  insertion of a row. Any thread may move next, at any instant not before the last one, and new
  requests may arrive at any time.
\<close>

section \<open>One thread\<close>

text \<open>
  Where an evaluation stands: before its first store call; about to ask for the cooldown; holding the
  cooldown, before the notification; before counting the outcome of the notification; before the
  insertion of a row; before counting the outcome of the insertion; between reading and resetting
  the breach count; before notifying a recovery; at the end.
\<close>

datatype eval_pc =
    Pending metrics_payload
  | Triggered metrics_payload
  | Granted metrics_payload
  | Outcome metrics_payload alert_event "error option"
  | Saving alert_event_record
  | Recording string "error option"
  | Fetched metrics_payload int
  | Cleared metrics_payload int
  | Finished

fun eval_step ::
    "services \<Rightarrow> 's store_ops \<Rightarrow> 's notifier_ops \<Rightarrow> app_config \<Rightarrow> instant \<Rightarrow> eval_pc \<Rightarrow> 's server \<Rightarrow>
     eval_pc \<times> 's server"
where
  "eval_step sv st nt cfg now (Pending m) w =
     (if f64_gt (CPUUsage m) (CPUAlertThreshold cfg) then
        (case with_store (IncrementCPUBreach st now (MachineID m)) w of
           (Inl err, w1) \<Rightarrow> (Finished, w1)
         | (Inr count, w1) \<Rightarrow> (if count \<ge> AlertTriggerCount cfg then Triggered m else Finished, w1))
      else
        (case with_store (GetCPUBreachCount st now (MachineID m)) w of
           (Inl err, w1) \<Rightarrow> (Finished, w1)
         | (Inr prevCount, w1) \<Rightarrow> (Fetched m prevCount, w1)))"
| "eval_step sv st nt cfg now (Triggered m) w =
     (case with_store (TryAcquireCooldown st now (MachineID m) (seconds (AlertCooldownSeconds cfg))) w of
        (Inl err, w1) \<Rightarrow> (Finished, w1)
      | (Inr acquired, w1) \<Rightarrow> (if acquired then Granted m else Finished, w1))"
| "eval_step sv st nt cfg now (Granted m) w =
     (let event = p0_event cfg m now in
      case NotifyCPUAlert nt event w of (r, w1) \<Rightarrow> (Outcome m event r, w1))"
| "eval_step sv st nt cfg now (Outcome m event r) w =
     (case r of
        Some notifyErr \<Rightarrow>
          (Saving (p0_record cfg m event ''failed'' notifyErr),
           inc serverAlertNotificationsTotal [ev_Level event, ''failed''] w)
      | None \<Rightarrow>
          (Saving (p0_record cfg m event ''sent'' []),
           inc serverAlertNotificationsTotal [ev_Level event, ''sent''] w))"
| "eval_step sv st nt cfg now (Saving row) w =
     (case saveAlertEvent sv row w of (r, w1) \<Rightarrow> (Recording (rec_Level row) r, w1))"
| "eval_step sv st nt cfg now (Recording level r) w =
     (Finished,
      inc serverAlertEventsSavedTotal [level, if r = None then ''success'' else ''failed''] w)"
| "eval_step sv st nt cfg now (Fetched m prevCount) w =
     (case with_store (ResetCPUBreach st now (MachineID m)) w of
        (Some err, w1) \<Rightarrow> (Finished, w1)
      | (None, w1) \<Rightarrow> (if prevCount > 0 then Cleared m prevCount else Finished, w1))"
| "eval_step sv st nt cfg now (Cleared m prevCount) w =
     (let event = recovery_event cfg m prevCount now in
      case NotifyCPURecovery nt event w of
        (r, w1) \<Rightarrow> (Saving (recovery_record cfg m prevCount event), w1))"
| "eval_step sv st nt cfg now Finished w = (Finished, w)"

text \<open>A thread that moves alone, at the given instants.\<close>

fun eval_steps ::
    "services \<Rightarrow> 's store_ops \<Rightarrow> 's notifier_ops \<Rightarrow> app_config \<Rightarrow> instant list \<Rightarrow> eval_pc \<Rightarrow> 's server \<Rightarrow>
     eval_pc \<times> 's server"
where
  "eval_steps sv st nt cfg [] pc w = (pc, w)"
| "eval_steps sv st nt cfg (t # ts) pc w =
     (case eval_step sv st nt cfg t pc w of (pc', w') \<Rightarrow> eval_steps sv st nt cfg ts pc' w')"

section \<open>Many threads\<close>

record 's system =
  srv :: "'s server"
  pcs :: "eval_pc list"
  clock :: instant

text \<open>What happens next: a request arrives, or a thread that has not finished moves.\<close>

datatype conc_event = Arrive metrics_payload | Move nat

inductive conc_step ::
    "services \<Rightarrow> 's store_ops \<Rightarrow> 's notifier_ops \<Rightarrow> app_config \<Rightarrow> 's system \<Rightarrow> conc_event \<Rightarrow> 's system \<Rightarrow> bool"
  for sv st nt cfg
where
  arrive: "clock s \<le> t \<Longrightarrow>
     conc_step sv st nt cfg s (Arrive m) (s\<lparr>pcs := pcs s @ [Pending m], clock := t\<rparr>)"
| move: "i < length (pcs s) \<Longrightarrow> pcs s ! i \<noteq> Finished \<Longrightarrow> clock s \<le> t \<Longrightarrow>
     eval_step sv st nt cfg t (pcs s ! i) (srv s) = (pc, w) \<Longrightarrow>
     conc_step sv st nt cfg s (Move i) \<lparr>srv = w, pcs = (pcs s)[i := pc], clock = t\<rparr>"

inductive_cases arriveE: "conc_step sv st nt cfg s (Arrive m) s'"
inductive_cases moveE: "conc_step sv st nt cfg s (Move i) s'"

text \<open>A run is a sequence of events; the newest is the last.\<close>

inductive conc_run ::
    "services \<Rightarrow> 's store_ops \<Rightarrow> 's notifier_ops \<Rightarrow> app_config \<Rightarrow> 's system \<Rightarrow> conc_event list \<Rightarrow> 's system \<Rightarrow> bool"
  for sv st nt cfg s0
where
  start: "conc_run sv st nt cfg s0 [] s0"
| next_event: "conc_run sv st nt cfg s0 evs s \<Longrightarrow> conc_step sv st nt cfg s ev s' \<Longrightarrow>
     conc_run sv st nt cfg s0 (evs @ [ev]) s'"

text \<open>An invariant of the steps holds after every run.\<close>

lemma conc_run_inv:
  assumes "conc_run sv st nt cfg s0 evs s" and "P s0"
    and "\<And>s ev s'. P s \<Longrightarrow> conc_step sv st nt cfg s ev s' \<Longrightarrow> P s'"
  shows "P s"
  using assms(1,2) by (induction rule: conc_run.induct) (auto intro: assms(3))

lemma conc_run_clock: "conc_run sv st nt cfg s0 evs s \<Longrightarrow> clock s0 \<le> clock s"
  by (erule conc_run_inv) (auto elim!: conc_step.cases)

text \<open>A schedule, for examples: the instants and the threads that move, in order.\<close>

fun run_schedule ::
    "services \<Rightarrow> 's store_ops \<Rightarrow> 's notifier_ops \<Rightarrow> app_config \<Rightarrow> (instant \<times> nat) list \<Rightarrow> 's system \<Rightarrow> 's system"
where
  "run_schedule sv st nt cfg [] s = s"
| "run_schedule sv st nt cfg ((t, i) # sched) s =
     (case eval_step sv st nt cfg t (pcs s ! i) (srv s) of
        (pc, w) \<Rightarrow> run_schedule sv st nt cfg sched \<lparr>srv = w, pcs = (pcs s)[i := pc], clock = t\<rparr>)"

text \<open>A schedule is proper when its clock does not go back and only unfinished threads move.\<close>

fun proper ::
    "services \<Rightarrow> 's store_ops \<Rightarrow> 's notifier_ops \<Rightarrow> app_config \<Rightarrow> (instant \<times> nat) list \<Rightarrow> 's system \<Rightarrow> bool"
where
  "proper sv st nt cfg [] s = True"
| "proper sv st nt cfg ((t, i) # sched) s =
     (clock s \<le> t \<and> i < length (pcs s) \<and> pcs s ! i \<noteq> Finished \<and>
      (case eval_step sv st nt cfg t (pcs s ! i) (srv s) of
         (pc, w) \<Rightarrow> proper sv st nt cfg sched \<lparr>srv = w, pcs = (pcs s)[i := pc], clock = t\<rparr>))"

lemma run_schedule_run:
  assumes "proper sv st nt cfg sched s" and "conc_run sv st nt cfg s0 evs s"
  shows "conc_run sv st nt cfg s0 (evs @ map (Move \<circ> snd) sched) (run_schedule sv st nt cfg sched s)"
  using assms
proof (induction sched arbitrary: s evs)
  case (Cons ti sched)
  obtain t i where ti: "ti = (t, i)" by (cases ti)
  obtain pc w where e: "eval_step sv st nt cfg t (pcs s ! i) (srv s) = (pc, w)"
    by (cases "eval_step sv st nt cfg t (pcs s ! i) (srv s)")
  let ?s = "\<lparr>srv = w, pcs = (pcs s)[i := pc], clock = t\<rparr>"
  have "conc_step sv st nt cfg s (Move i) ?s"
    using Cons.prems(1) ti e by (intro move) auto
  with Cons.prems(2) have "conc_run sv st nt cfg s0 (evs @ [Move i]) ?s" by (rule next_event)
  from Cons.IH [OF _ this] Cons.prems(1) ti e show ?case by simp
qed simp

section \<open>The sequential evaluation is one thread alone\<close>

lemma steps_finished: "eval_steps sv st nt cfg ts Finished w = (Finished, w)"
  by (induction ts) auto

lemma steps_saving:
  "eval_steps sv st nt cfg (t # t' # ts) (Saving row) w = (Finished, snd (saveAlertEventObserved sv row w))"
  by (cases "fst (saveAlertEvent sv row w)"; cases "saveAlertEvent sv row w")
    (simp_all add: steps_finished saveAlertEventObserved_def)

lemma steps_granted:
  "eval_steps sv st nt cfg (t # t' # t1 # t2 # ts) (Granted m) w = (Finished, raise_alert sv nt cfg m t w)"
proof -
  obtain r w1 where "NotifyCPUAlert nt (p0_event cfg m t) w = (r, w1)"
    by (cases "NotifyCPUAlert nt (p0_event cfg m t) w")
  then show ?thesis
    by (cases r) (simp_all add: raise_alert_def Let_def steps_saving del: eval_steps.simps(2)
        add: eval_steps.simps(2) [of sv st nt cfg t] eval_steps.simps(2) [of sv st nt cfg t'])
qed

lemma steps_cleared:
  "eval_steps sv st nt cfg (t # t1 # t2 # ts) (Cleared m n) w =
     (Finished, snd (saveAlertEventObserved sv (recovery_record cfg m n (recovery_event cfg m n t))
        (snd (NotifyCPURecovery nt (recovery_event cfg m n t) w))))"
proof -
  obtain r w1 where "NotifyCPURecovery nt (recovery_event cfg m n t) w = (r, w1)"
    by (cases "NotifyCPURecovery nt (recovery_event cfg m n t) w")
  then show ?thesis
    by (simp add: Let_def steps_saving del: eval_steps.simps(2)
        add: eval_steps.simps(2) [of sv st nt cfg t])
qed

text \<open>
  A request that is not interrupted does what \<open>evaluateCPUAlert\<close> does in the sequential model:
  six moves take it to its end, whatever branch it takes, and leave the server as one evaluation at
  the same instants leaves it.
\<close>

lemma alone_is_evaluate:
  "eval_steps sv st nt cfg [clk 0, clk 1, clk 2, t3, t4, t5] (Pending m) w =
     (Finished, evaluateCPUAlert sv st nt cfg clk m w)"
proof (cases "f64_gt (CPUUsage m) (CPUAlertThreshold cfg)")
  case breach: True
  obtain r w1 where i: "with_store (IncrementCPUBreach st (clk 0) (MachineID m)) w = (r, w1)"
    by (cases "with_store (IncrementCPUBreach st (clk 0) (MachineID m)) w")
  let ?ttl = "seconds (AlertCooldownSeconds cfg)"
  obtain r2 w2 where a: "with_store (TryAcquireCooldown st (clk 1) (MachineID m) ?ttl) w1 = (r2, w2)"
    by (cases "with_store (TryAcquireCooldown st (clk 1) (MachineID m) ?ttl) w1")
  note steps = eval_steps.simps(2) [of sv st nt cfg "clk 0"] eval_steps.simps(2) [of sv st nt cfg "clk 1"]
  show ?thesis
    by (cases r; cases r2)
      (auto simp: evaluateCPUAlert_def evaluate_breach_def breach i a steps steps_finished steps_granted Let_def
        simp del: eval_steps.simps(2) One_nat_def)
next
  case normal: False
  obtain r w1 where g: "with_store (GetCPUBreachCount st (clk 0) (MachineID m)) w = (r, w1)"
    by (cases "with_store (GetCPUBreachCount st (clk 0) (MachineID m)) w")
  obtain r2 w2 where c: "with_store (ResetCPUBreach st (clk 1) (MachineID m)) w1 = (r2, w2)"
    by (cases "with_store (ResetCPUBreach st (clk 1) (MachineID m)) w1")
  note steps = eval_steps.simps(2) [of sv st nt cfg "clk 0"] eval_steps.simps(2) [of sv st nt cfg "clk 1"]
  show ?thesis
    by (cases r; cases r2)
      (auto simp: evaluateCPUAlert_def evaluate_normal_def normal g c steps steps_finished steps_cleared Let_def
        simp del: eval_steps.simps(2) One_nat_def)
qed

section \<open>Cooldowns and alerts of interleaved requests\<close>

text \<open>The threads on their way to a P0 row of a machine.\<close>

fun pending_p0 :: "string \<Rightarrow> eval_pc \<Rightarrow> bool" where
  "pending_p0 k (Granted m) = (MachineID m = k)"
| "pending_p0 k (Outcome m e r) = (MachineID m = k \<and> ev_Level e = ''P0'')"
| "pending_p0 k (Saving row) = is_p0 k row"
| "pending_p0 k _ = False"

text \<open>P0 rows of a machine, saved or about to be: as many as its cooldown has been granted.\<close>

definition p0_granted :: "string \<Rightarrow> 's system \<Rightarrow> nat" where
  "p0_granted k s = p0_count k (srv s) + count_where (pending_p0 k) (pcs s)"

lemma count_where_update:
  "i < length xs \<Longrightarrow>
     int (count_where P (xs[i := x])) = int (count_where P xs) - of_bool (P (xs ! i)) + of_bool (P x)"
proof (induction xs arbitrary: i)
  case (Cons y ys)
  then show ?case by (cases i) auto
qed simp

lemma is_p0_p0_record: "is_p0 k (p0_record cfg m e a b) \<longleftrightarrow> ev_Level e = ''P0'' \<and> MachineID m = k"
  by (simp add: is_p0_def p0_record_def)

lemma not_p0_recovery: "\<not> is_p0 k (recovery_record cfg m n e)"
  by (simp add: is_p0_def recovery_record_def)

lemma with_store_trace: "with_store f w = (r, w') \<Longrightarrow> p0_count k w' = p0_count k w"
  by (auto simp: with_store_def p0_count_def split: prod.splits)

context notifier_contract
begin

text \<open>What a move does to the P0 rows and to the store: only the cooldown grants a row.\<close>

lemma eval_step_p0:
  assumes "eval_step sv st ops cfg t pc w = (pc', w')"
  shows "p0_count k w' + of_bool (pending_p0 k pc') =
    p0_count k w + of_bool (pending_p0 k pc) +
    of_bool (\<exists>m. pc = Triggered m \<and> pc' = Granted m \<and> MachineID m = k)"
proof -
  have upd: "p0_count k (w\<lparr>store := s\<rparr>) = p0_count k w" for s by (simp add: p0_count_def)
  have notify: "p0_count k (snd (NotifyCPUAlert ops e w)) = p0_count k w"
    "p0_count k (snd (NotifyCPURecovery ops e w)) = p0_count k w" for e
    by (simp_all add: p0_count_def)
  have save: "p0_count k (snd (saveAlertEvent sv row w)) = p0_count k w + of_bool (is_p0 k row)" for row
    by (simp add: p0_count_def saveAlertEvent_def)
  have count: "p0_count k (inc a ls w) = p0_count k w" for a ls by (simp add: p0_count_def)
  show ?thesis
    using assms upd notify save count
    by (cases pc)
      (auto simp: with_store_def ev_level_p0 is_p0_p0_record not_p0_recovery prod_eq_iff Let_def
        split: prod.splits sum.splits option.splits if_splits)
qed

lemma eval_step_store:
  assumes "eval_step sv st ops cfg t pc w = (pc', w')" and "pc \<noteq> Finished"
  obtains (quiet) "store w' = store w" "\<not> (\<exists>m. pc' = Granted m)"
  | (call) c b where "exec_call st t c (store w) = (b, store w')"
      "\<forall>m. pc' = Granted m \<longrightarrow> pc = Triggered m \<and> b \<and>
         c = Call_Acquire (MachineID m) (seconds (AlertCooldownSeconds cfg))"
proof (cases pc)
  case (Pending m)
  show ?thesis
  proof (cases "f64_gt (CPUUsage m) (CPUAlertThreshold cfg)")
    case True
    with assms(1) Pending show ?thesis
      by (intro call [of "Call_Increment (MachineID m)"])
        (auto simp: with_store_def split: prod.splits sum.splits if_splits)
  next
    case False
    with assms(1) Pending show ?thesis
      by (intro call [of "Call_Get (MachineID m)"])
        (auto simp: with_store_def split: prod.splits sum.splits if_splits)
  qed
next
  case (Triggered m)
  let ?c = "Call_Acquire (MachineID m) (seconds (AlertCooldownSeconds cfg))"
  obtain r s' where a: "TryAcquireCooldown st t (MachineID m) (seconds (AlertCooldownSeconds cfg)) (store w) = (r, s')"
    by (cases "TryAcquireCooldown st t (MachineID m) (seconds (AlertCooldownSeconds cfg)) (store w)")
  with assms(1) Triggered show ?thesis
    by (intro call [of ?c "r = Inr True"]) (auto simp: with_store_def split: sum.splits if_splits)
next
  case (Fetched m n)
  with assms(1) show ?thesis
    by (intro call [of "Call_Reset (MachineID m)"])
      (auto simp: with_store_def split: prod.splits option.splits if_splits)
next
  case (Granted m)
  with assms(1) notify_store(1) [of "p0_event cfg m t" w] show ?thesis
    by (intro quiet) (auto simp: Let_def prod_eq_iff split: prod.splits)
next
  case (Cleared m n)
  with assms(1) notify_store(2) [of "recovery_event cfg m n t" w] show ?thesis
    by (intro quiet) (auto simp: Let_def prod_eq_iff split: prod.splits)
next
  case (Outcome m e r)
  with assms(1) show ?thesis by (intro quiet) (auto split: option.splits)
next
  case (Saving row)
  with assms(1) show ?thesis by (intro quiet) (auto simp: saveAlertEvent_def)
qed (use assms quiet in auto)

lemma p0_granted_step:
  assumes "conc_step sv st ops cfg s ev s'"
  shows "p0_granted k s' = p0_granted k s + of_bool
    (\<exists>i m. ev = Move i \<and> pcs s ! i = Triggered m \<and> pcs s' ! i = Granted m \<and> MachineID m = k)"
  using assms
proof cases
  case (arrive t m)
  then show ?thesis by (simp add: p0_granted_def)
next
  case (move i t pc w)
  have "int (p0_granted k s') = int (p0_count k w) + int (count_where (pending_p0 k) (pcs s)) -
      of_bool (pending_p0 k (pcs s ! i)) + of_bool (pending_p0 k pc)"
    using move count_where_update [of i "pcs s" "pending_p0 k" pc] by (simp add: p0_granted_def)
  also have "\<dots> = int (p0_granted k s) +
      of_bool (\<exists>m. pcs s ! i = Triggered m \<and> pc = Granted m \<and> MachineID m = k)"
    using arg_cong [OF eval_step_p0 [OF move(6), of k], of int] by (simp add: p0_granted_def)
  finally have "int (p0_granted k s') = int (p0_granted k s +
      of_bool (\<exists>m. pcs s ! i = Triggered m \<and> pc = Granted m \<and> MachineID m = k))"
    by simp
  then show ?thesis using move by (simp del: of_nat_add)
qed

end

context alert_engine
begin

text \<open>
  The invariant of a run that started at \<open>t0\<close> with \<open>g0\<close> rows granted: after \<open>n\<close> more grants the cooldown is held until
  some \<open>e\<close>, at least \<open>n\<close> cooldowns after the start and at most one after the clock.
\<close>

definition held_inv :: "string \<Rightarrow> duration \<Rightarrow> instant \<Rightarrow> nat \<Rightarrow> 's system \<Rightarrow> bool" where
  "held_inv k d t0 g0 s \<longleftrightarrow>
     t0 \<le> clock s \<and> g0 \<le> p0_granted k s \<and>
     (p0_granted k s = g0 \<or>
      (\<exists>e. int (p0_granted k s - g0) * d \<le> e - t0 \<and> e \<le> clock s + d \<and>
         (\<forall>t'. clock s \<le> t' \<and> t' < e \<longrightarrow> cooling t' (store (srv s)) k)))"

lemma held_inv_quiet:
  assumes "held_inv k d t0 g0 s" and "clock s \<le> clock s'" and "p0_granted k s' = p0_granted k s"
    and "\<And>t'. clock s' \<le> t' \<Longrightarrow> cooling t' (store (srv s)) k \<Longrightarrow> cooling t' (store (srv s')) k"
  shows "held_inv k d t0 g0 s'"
proof -
  have "t0 \<le> clock s'" "g0 \<le> p0_granted k s'"
    using assms(1-3) by (auto simp: held_inv_def)
  moreover have "\<exists>e. int (p0_granted k s - g0) * d \<le> e - t0 \<and> e \<le> clock s' + d \<and>
      (\<forall>t'. clock s' \<le> t' \<and> t' < e \<longrightarrow> cooling t' (store (srv s')) k)"
    if "p0_granted k s \<noteq> g0"
  proof -
    from that assms(1) obtain e where e: "int (p0_granted k s - g0) * d \<le> e - t0" "e \<le> clock s + d"
      "\<forall>t'. clock s \<le> t' \<and> t' < e \<longrightarrow> cooling t' (store (srv s)) k"
      by (auto simp: held_inv_def)
    with assms(2,4) show ?thesis by (intro exI [of _ e]) force
  qed
  ultimately show ?thesis using assms(3) by (auto simp: held_inv_def)
qed

lemma held_inv_step:
  assumes "held_inv k d t0 g0 s" and "conc_step sv st nt cfg s ev s'"
    and "d = seconds (AlertCooldownSeconds cfg)" and "0 < d"
  shows "held_inv k d t0 g0 s'"
  using assms(2)
proof cases
  case (arrive t m)
  show ?thesis
    by (rule held_inv_quiet [OF assms(1)]) (use arrive p0_granted_step [OF assms(2)] in auto)
next
  case (move i t pc w)
  have clk: "clock s' = t" "clock s \<le> t" and pc': "pcs s' ! i = pc" and ev: "ev = Move i"
    using move by simp_all
  show ?thesis
  proof (cases rule: eval_step_store [OF move(6,4)])
    case 1
    then show ?thesis
      by (intro held_inv_quiet [OF assms(1)]) (use p0_granted_step [OF assms(2), of k] move clk in auto)
  next
    case (2 c b)
    have keeps: "cooling t' (store (srv s')) k" if "t \<le> t'" "cooling t' (store (srv s)) k" for t'
      using exec_call_keeps_cooling [OF 2(1) that] move by simp
    show ?thesis
    proof (cases "\<exists>m. pcs s ! i = Triggered m \<and> pc = Granted m \<and> MachineID m = k")
      case False
      then show ?thesis
        by (intro held_inv_quiet [OF assms(1)])
          (use p0_granted_step [OF assms(2), of k] move clk keeps in auto)
    next
      case True
      then have acq: "exec_call st t (Call_Acquire k d) (store (srv s)) = (True, store (srv s'))"
        using 2 move assms(3) by auto
      have more: "p0_granted k s' = Suc (p0_granted k s)"
        using p0_granted_step [OF assms(2), of k] True ev pc' by auto
      note free = exec_call_grantE(1) [OF acq] and hold = exec_call_grantE(2) [OF acq assms(4)]
      have "int (p0_granted k s - g0) * d \<le> t - t0"
      proof (cases "p0_granted k s = g0")
        case True
        with assms(1) clk show ?thesis by (simp add: held_inv_def)
      next
        case False
        with assms(1) obtain e where e: "int (p0_granted k s - g0) * d \<le> e - t0"
          "\<forall>t'. clock s \<le> t' \<and> t' < e \<longrightarrow> cooling t' (store (srv s)) k"
          by (auto simp: held_inv_def)
        with free clk have "e \<le> t" by force
        with e(1) show ?thesis by simp
      qed
      moreover have "g0 \<le> p0_granted k s" "t0 \<le> clock s" using assms(1) by (auto simp: held_inv_def)
      ultimately have "int (p0_granted k s' - g0) * d \<le> t + d - t0"
        by (simp add: more Suc_diff_le algebra_simps)
      with more clk hold \<open>g0 \<le> p0_granted k s\<close> \<open>t0 \<le> clock s\<close> show ?thesis
        by (auto simp: held_inv_def intro!: exI [of _ "t + d"])
    qed
  qed
qed

lemma concurrent_rate:
  assumes "conc_run sv st nt cfg s0 evs s" and "0 < seconds (AlertCooldownSeconds cfg)"
  shows "(int (p0_count k (srv s)) - int (p0_granted k s0) - 1) * seconds (AlertCooldownSeconds cfg) \<le>
    clock s - clock s0"
proof -
  let ?d = "seconds (AlertCooldownSeconds cfg)"
  have "held_inv k ?d (clock s0) (p0_granted k s0) s0" by (simp add: held_inv_def)
  from conc_run_inv [OF assms(1), of "held_inv k ?d (clock s0) (p0_granted k s0)", OF this
      held_inv_step [OF _ _ refl assms(2)]]
  have "held_inv k ?d (clock s0) (p0_granted k s0) s" .
  then have inv: "clock s0 \<le> clock s" "p0_granted k s0 \<le> p0_granted k s"
    "p0_granted k s = p0_granted k s0 \<or>
       int (p0_granted k s - p0_granted k s0) * ?d \<le> clock s + ?d - clock s0"
    by (auto simp: held_inv_def)
  have le: "int (p0_count k (srv s)) - int (p0_granted k s0) \<le> int (p0_granted k s - p0_granted k s0)"
    using inv(2) by (simp add: p0_granted_def [of k s])
  have "(int (p0_granted k s - p0_granted k s0) - 1) * ?d \<le> clock s - clock s0"
    using inv assms(2) by (auto simp: algebra_simps)
  moreover have "(int (p0_count k (srv s)) - int (p0_granted k s0) - 1) * ?d \<le>
      (int (p0_granted k s - p0_granted k s0) - 1) * ?d"
    using le assms(2) by (intro mult_right_mono) auto
  ultimately show ?thesis by linarith
qed

text \<open>A move that is granted the cooldown of a machine.\<close>

lemma grant_move:
  assumes "conc_step sv st nt cfg s (Move i) s'" and "pcs s ! i = Triggered m" and "pcs s' ! i = Granted m"
  shows "exec_call st (clock s') (Call_Acquire (MachineID m) (seconds (AlertCooldownSeconds cfg))) (store (srv s)) =
    (True, store (srv s'))"
  using assms(1)
proof (cases rule: conc_step.cases)
  case (move t pc w)
  have "pc = Granted m" using move assms(3) by simp
  then show ?thesis
    using eval_step_store [OF move(5)] move assms(2) by (cases rule: eval_step_store [OF move(5,3)]) auto
qed

lemma concurrent_spacing:
  assumes "conc_step sv st nt cfg s1 (Move i) s1'" and "pcs s1 ! i = Triggered m1" and "pcs s1' ! i = Granted m1"
    and "conc_run sv st nt cfg s1' evs s2"
    and "conc_step sv st nt cfg s2 (Move j) s2'" and "pcs s2 ! j = Triggered m2" and "pcs s2' ! j = Granted m2"
    and "MachineID m1 = k" and "MachineID m2 = k" and "0 < seconds (AlertCooldownSeconds cfg)"
  shows "clock s1' + seconds (AlertCooldownSeconds cfg) \<le> clock s2'"
proof -
  let ?d = "seconds (AlertCooldownSeconds cfg)"
  let ?held = "\<lambda>s. clock s1' \<le> clock s \<and>
    (\<forall>t'. clock s \<le> t' \<and> t' < clock s1' + ?d \<longrightarrow> cooling t' (store (srv s)) k)"
  have "?held s1'"
    using exec_call_grantE(2) [OF grant_move [OF assms(1-3), unfolded assms(8)] assms(10)] by auto
  moreover have "?held s'" if "?held s" "conc_step sv st nt cfg s ev s'" for s ev s'
    using that(2)
  proof cases
    case (arrive t m)
    with that(1) show ?thesis by simp
  next
    case (move i t pc w)
    show ?thesis
    proof (cases rule: eval_step_store [OF move(6,4)])
      case 1
      with that(1) move show ?thesis by simp
    next
      case (2 c b)
      with that(1) move exec_call_keeps_cooling [OF 2(1)] show ?thesis by force
    qed
  qed
  ultimately have held: "?held s2"
    using conc_run_inv [OF assms(4), of ?held] by blast
  have "clock s2 \<le> clock s2'" using assms(5) by (auto elim: conc_step.cases)
  moreover have "\<not> cooling (clock s2') (store (srv s2)) k"
    using exec_call_grantE(1) [OF grant_move [OF assms(5-7), unfolded assms(9)]] .
  ultimately show ?thesis using held by (meson not_le)
qed

end

text \<open>
  C4. However the requests interleave, the cooldown of a machine is granted at most once within its
  length: in any run, whichever store is configured (in memory, or Redis with its documented
  behaviour), from the move of one request that is granted the cooldown to that of another for the
  same machine, at least a cooldown has passed.
\<close>

theorem concurrent_grants_spaced:
  assumes "redis_behaves c look"
    and "conc_step sv (server_store c) (notifier_of sv n) cfg s1 (Move i) s1'"
    and "pcs s1 ! i = Triggered m1" and "pcs s1' ! i = Granted m1"
    and "conc_run sv (server_store c) (notifier_of sv n) cfg s1' evs s2"
    and "conc_step sv (server_store c) (notifier_of sv n) cfg s2 (Move j) s2'"
    and "pcs s2 ! j = Triggered m2" and "pcs s2' ! j = Granted m2"
    and "MachineID m1 = k" and "MachineID m2 = k" and "0 < seconds (AlertCooldownSeconds cfg)"
  shows "clock s1' + seconds (AlertCooldownSeconds cfg) \<le> clock s2'"
  using alert_engine.concurrent_spacing [OF server_engine [OF assms(1)] assms(2-11)] .

text \<open>
  C3. However the requests interleave, P0 alerts come at the rate of the cooldown: from any state,
  requests in progress included, the P0 rows of a machine that a run saves are at most those whose
  cooldown had already been granted when it began, one more, and one for every whole cooldown
  that has passed.
\<close>

theorem concurrent_alerts_spaced:
  assumes "redis_behaves c look"
    and "conc_run sv (server_store c) (notifier_of sv n) cfg s0 evs s"
    and "0 < seconds (AlertCooldownSeconds cfg)"
  shows "int (p0_count k (srv s)) - int (p0_count k (srv s0)) \<le>
    int (count_where (pending_p0 k) (pcs s0)) + 1 + (clock s - clock s0) div seconds (AlertCooldownSeconds cfg)"
proof -
  let ?d = "seconds (AlertCooldownSeconds cfg)"
  have "int (p0_count k (srv s)) - int (p0_granted k s0) - 1 \<le> (clock s - clock s0) div ?d"
    using alert_engine.concurrent_rate [OF server_engine [OF assms(1)] assms(2,3), of k] assms(3)
    by (metis less_irrefl nonzero_mult_div_cancel_right zdiv_mono1)
  then show ?thesis by (simp add: p0_granted_def)
qed

text \<open>
  Two breaches of a machine one sample before its trigger, in memory: both reach the trigger, one is
  granted the cooldown, and both requests run to their end.
\<close>

definition two_breaches :: "ref_redis alert_state system" where
  "two_breaches =
     \<lparr>srv = start_server (InMemory \<lparr>counts = [''a'' \<mapsto> 2], cooldowns = Map.empty\<rparr>),
      pcs = [Pending (example_sample ''a'' 90), Pending (example_sample ''a'' 95)], clock = 0\<rparr>"

definition both_triggered :: "ref_redis alert_state system" where
  "both_triggered =
     \<lparr>srv = start_server (InMemory \<lparr>counts = [''a'' \<mapsto> 4], cooldowns = Map.empty\<rparr>),
      pcs = [Triggered (example_sample ''a'' 90), Triggered (example_sample ''a'' 95)], clock = 0\<rparr>"

lemmas race_defs = two_breaches_def both_triggered_def with_store_def mem_defs on_impl_def start_server_def
  saveAlertEvent_def Let_def seconds_exact

theorem concurrent_grants_spaced_witness:
  "\<exists>s1' s2'. conc_step (example_services 200) (server_store ref_client)
      (notifier_of (example_services 200) NoopNotifier) example_config both_triggered (Move 0) s1' \<and>
    conc_step (example_services 200) (server_store ref_client)
      (notifier_of (example_services 200) NoopNotifier) example_config s1' (Move 1) s2' \<and>
    pcs s2' = [Granted (example_sample ''a'' 90), Granted (example_sample ''a'' 95)] \<and>
    clock s1' + 60 * nanos_per_second \<le> clock s2'"
proof -
  let ?sv = "example_services 200" and ?st = "server_store ref_client"
  let ?nt = "notifier_of ?sv NoopNotifier :: ref_redis alert_state notifier_ops"
  let ?m1 = "example_sample ''a'' 90" and ?m2 = "example_sample ''a'' 95"
  let ?mem = "\<lambda>e. start_server (InMemory \<lparr>counts = [''a'' \<mapsto> 4], cooldowns = [''a'' \<mapsto> e]\<rparr>) :: ref_redis alert_state server"
  let ?s1' = "\<lparr>srv = ?mem (60 * nanos_per_second), pcs = [Granted ?m1, Triggered ?m2], clock = 0\<rparr>"
  let ?s2' = "\<lparr>srv = ?mem (120 * nanos_per_second), pcs = [Granted ?m1, Granted ?m2], clock = 60 * nanos_per_second\<rparr>"
  have 1: "conc_step ?sv ?st ?nt example_config both_triggered (Move 0) ?s1'"
    using move [of 0 both_triggered 0 ?sv ?st ?nt example_config "Granted ?m1" "?mem (60 * nanos_per_second)"]
    by (simp add: race_defs)
  have 2: "conc_step ?sv ?st ?nt example_config ?s1' (Move 1) ?s2'"
    using move [of 1 ?s1' "60 * nanos_per_second" ?sv ?st ?nt example_config "Granted ?m2" "?mem (120 * nanos_per_second)"]
    by (simp add: race_defs)
  have "clock ?s1' + seconds (AlertCooldownSeconds example_config) \<le> clock ?s2'"
    using concurrent_grants_spaced [OF ref_client_behaves 1 _ _ start 2, of ?m1 ?m2 "''a''"]
    by (simp add: both_triggered_def seconds_exact)
  then have "clock ?s1' + 60 * nanos_per_second \<le> clock ?s2'" by (simp add: seconds_exact)
  moreover have "pcs ?s2' = [Granted ?m1, Granted ?m2]" by simp
  ultimately show ?thesis
    by (intro exI [of _ ?s1'] exI [of _ ?s2'] conjI [OF 1] conjI [OF 2] conjI)
qed

theorem concurrent_alerts_spaced_witness:
  "\<exists>evs s. conc_run (example_services 200) (server_store ref_client)
      (notifier_of (example_services 200) NoopNotifier) example_config two_breaches evs s \<and>
    pcs s = [Finished, Finished] \<and> p0_count ''a'' (srv s) = 1 \<and>
    int (p0_count ''a'' (srv s)) - int (p0_count ''a'' (srv two_breaches)) \<le>
      int (count_where (pending_p0 ''a'') (pcs two_breaches)) + 1 +
      (clock s - clock two_breaches) div seconds (AlertCooldownSeconds example_config)"
proof -
  let ?sv = "example_services 200" and ?st = "server_store ref_client"
  let ?nt = "notifier_of ?sv NoopNotifier :: ref_redis alert_state notifier_ops"
  let ?sched = "[(0, 0), (1, 1), (2, 0), (3, 1), (4, 0), (5, 0), (6, 0), (7, 0)] :: (instant \<times> nat) list"
  let ?final = "run_schedule ?sv ?st ?nt example_config ?sched two_breaches"
  have small: "wrap64 3 = 3" "wrap64 4 = 4" by (simp_all add: in_int64_def)
  have p: "proper ?sv ?st ?nt example_config ?sched two_breaches"
    and f: "pcs ?final = [Finished, Finished]"
    and one: "p0_count ''a'' (srv ?final) = 1"
    by (simp_all add: race_defs small noop_notifier_def ev_level_p0 p0_count_def is_p0_p0_record)
  from run_schedule_run [OF p start]
  have run: "conc_run ?sv ?st ?nt example_config two_breaches (map (Move \<circ> snd) ?sched) ?final" by simp
  have "0 < seconds (AlertCooldownSeconds example_config)" by (simp add: seconds_exact)
  from concurrent_alerts_spaced [OF ref_client_behaves run this, of "''a''"] run f one
  show ?thesis by (intro exI conjI)
qed

section \<open>The books of concurrent requests\<close>

fun saving :: "string \<Rightarrow> eval_pc \<Rightarrow> bool" where
  "saving nst (Saving row) = (rec_Level row = ''P0'' \<and> rec_NotifyStatus row = nst)"
| "saving nst _ = False"

fun recording :: "string \<Rightarrow> eval_pc \<Rightarrow> bool" where
  "recording lvl (Recording level r) = (level = lvl)"
| "recording lvl _ = False"

fun p0_outcome :: "eval_pc \<Rightarrow> bool" where
  "p0_outcome (Outcome m e r) = (ev_Level e = ''P0'')"
| "p0_outcome _ = True"

text \<open>
  Between two counters and the rows there are only the threads on their way from the one to the
  other.
\<close>

definition books :: "'s system \<Rightarrow> bool" where
  "books s \<longleftrightarrow>
     list_all p0_outcome (pcs s) \<and>
     (\<forall>nst. int (counted_notifications nst (srv s)) - int (p0_rows nst (srv s)) =
        int (count_where (saving nst) (pcs s))) \<and>
     (\<forall>lvl. int (rows_of_level lvl (srv s)) - int (counted_saves lvl (srv s)) =
        int (count_where (recording lvl) (pcs s)))"

lemma list_all_update: "list_all P xs \<Longrightarrow> P x \<Longrightarrow> list_all P (xs[i := x])"
proof (induction xs arbitrary: i)
  case (Cons y ys)
  then show ?case by (cases i) auto
qed simp

context notifier_contract
begin

lemma eval_step_books:
  assumes "eval_step sv st ops cfg t pc w = (pc', w')" and "p0_outcome pc"
  shows "p0_outcome pc'"
    and "int (counted_notifications nst w') - int (p0_rows nst w') - of_bool (saving nst pc') =
      int (counted_notifications nst w) - int (p0_rows nst w) - of_bool (saving nst pc)"
    and "int (rows_of_level lvl w') - int (counted_saves lvl w') - of_bool (recording lvl pc') =
      int (rows_of_level lvl w) - int (counted_saves lvl w) - of_bool (recording lvl pc)"
proof -
  have notify: "f (snd (NotifyCPUAlert ops e w)) = f w" "f (snd (NotifyCPURecovery ops e w)) = f w"
    if "f = counted_notifications nst \<or> f = p0_rows nst \<or> f = rows_of_level lvl \<or> f = counted_saves lvl"
    for e and f :: "'s server \<Rightarrow> nat"
    using that
    by (auto simp: counted_notifications_def p0_rows_def rows_of_level_def counted_saves_def)
  note notify = notify [of "counted_notifications nst"] notify [of "p0_rows nst"]
    notify [of "rows_of_level lvl"] notify [of "counted_saves lvl"]
  have save: "counted_notifications nst (snd (saveAlertEvent sv row w)) = counted_notifications nst w"
    "p0_rows nst (snd (saveAlertEvent sv row w)) = p0_rows nst w + of_bool (saving nst (Saving row))"
    "rows_of_level lvl (snd (saveAlertEvent sv row w)) = rows_of_level lvl w + of_bool (rec_Level row = lvl)"
    "counted_saves lvl (snd (saveAlertEvent sv row w)) = counted_saves lvl w" for row
    by (simp_all add: saveAlertEvent_def counted_notifications_def p0_rows_def rows_of_level_def
        counted_saves_def)
  have count: "counted_saves lvl (inc serverAlertEventsSavedTotal [level, ''success''] w) =
      counted_saves lvl w + of_bool (level = lvl)"
    "counted_saves lvl (inc serverAlertEventsSavedTotal [level, ''failed''] w) =
      counted_saves lvl w + of_bool (level = lvl)" for level
    by (auto simp: counted_saves_def)
  note defs = with_store_def prod_eq_iff Let_def ev_level_p0 rec_level_p0 rec_level_recovery
  show "p0_outcome pc'"
    using assms by (cases pc) (auto simp: defs split: prod.splits sum.splits option.splits if_splits)
  show "int (counted_notifications nst w') - int (p0_rows nst w') - of_bool (saving nst pc') =
      int (counted_notifications nst w) - int (p0_rows nst w) - of_bool (saving nst pc)"
    using assms notify save
    by (cases pc) (auto simp: defs split: prod.splits sum.splits option.splits if_splits)
  show "int (rows_of_level lvl w') - int (counted_saves lvl w') - of_bool (recording lvl pc') =
      int (rows_of_level lvl w) - int (counted_saves lvl w) - of_bool (recording lvl pc)"
    using assms notify save count
    by (cases pc) (auto simp: defs split: prod.splits sum.splits option.splits if_splits)
qed

lemma books_step:
  assumes "books s" and "conc_step sv st ops cfg s ev s'"
  shows "books s'"
  using assms(2)
proof cases
  case (arrive t m)
  with assms(1) show ?thesis by (simp add: books_def)
next
  case (move i t pc w)
  have "p0_outcome (pcs s ! i)"
    using assms(1) move(3) by (simp add: books_def list_all_length)
  note e = eval_step_books [OF move(6) this]
  have here: "srv s' = w" "pcs s' = (pcs s)[i := pc]" using move by simp_all
  have "int (counted_notifications nst w) - int (p0_rows nst w) = int (count_where (saving nst) (pcs s'))" for nst
    using assms(1) e(2) [of nst] count_where_update [OF move(3), of "saving nst" pc] here
    by (simp add: books_def)
  moreover have "int (rows_of_level lvl w) - int (counted_saves lvl w) = int (count_where (recording lvl) (pcs s'))" for lvl
    using assms(1) e(3) [of lvl] count_where_update [OF move(3), of "recording lvl" pc] here
    by (simp add: books_def)
  moreover have "list_all p0_outcome (pcs s')"
    using assms(1) e(1) here by (simp add: books_def list_all_update)
  ultimately show ?thesis using here by (simp add: books_def)
qed

lemma books_run:
  assumes "conc_run sv st ops cfg s0 evs s" and "books s0"
  shows "books s"
  by (rule conc_run_inv [OF assms(1), of books, OF assms(2) books_step])

end

text \<open>
  C10. The alert counters agree with the alert table at every moment, however requests interleave:
  after any run from a fresh server, the P0 notifications counted under a status exceed the P0 rows
  with it by exactly the requests that are about to insert such a row, and the rows of a level
  exceed the saves counted for it by exactly the requests that have inserted one and not counted it.
\<close>

theorem concurrent_books_balance:
  assumes "conc_run sv st (notifier_of sv n) cfg \<lparr>srv = start_server store0, pcs = [], clock = t0\<rparr> evs s"
  shows "counters (srv s) (serverAlertNotificationsTotal, [''P0'', nst]) =
      count_where (\<lambda>r. rec_Level r = ''P0'' \<and> rec_NotifyStatus r = nst) (saved_events (trace (srv s))) +
      count_where (\<lambda>pc. \<exists>row. pc = Saving row \<and> rec_Level row = ''P0'' \<and> rec_NotifyStatus row = nst) (pcs s) \<and>
    count_where (\<lambda>r. rec_Level r = lvl) (saved_events (trace (srv s))) =
      counters (srv s) (serverAlertEventsSavedTotal, [lvl, ''success'']) +
      counters (srv s) (serverAlertEventsSavedTotal, [lvl, ''failed'']) +
      count_where (\<lambda>pc. \<exists>r. pc = Recording lvl r) (pcs s)"
proof -
  have "books \<lparr>srv = start_server store0, pcs = [], clock = t0\<rparr>"
    by (simp add: books_def start_server_def counted_notifications_def p0_rows_def rows_of_level_def
        counted_saves_def)
  with assms have "books s" by (rule configured.books_run)
  moreover have "saving nst = (\<lambda>pc. \<exists>row. pc = Saving row \<and> rec_Level row = ''P0'' \<and> rec_NotifyStatus row = nst)"
  proof
    fix pc show "saving nst pc = (\<exists>row. pc = Saving row \<and> rec_Level row = ''P0'' \<and> rec_NotifyStatus row = nst)"
      by (cases pc) auto
  qed
  moreover have "recording lvl = (\<lambda>pc. \<exists>r. pc = Recording lvl r)"
  proof
    fix pc show "recording lvl pc = (\<exists>r. pc = Recording lvl r)" by (cases pc) auto
  qed
  moreover have "int (counted_notifications nst (srv s)) =
      int (p0_rows nst (srv s) + count_where (saving nst) (pcs s))"
    "int (rows_of_level lvl (srv s)) = int (counted_saves lvl (srv s) + count_where (recording lvl) (pcs s))"
    using \<open>books s\<close> by (simp_all add: books_def algebra_simps)
  ultimately show ?thesis
    unfolding of_nat_eq_iff
    by (simp add: counted_notifications_def p0_rows_def rows_of_level_def counted_saves_def)
qed

section \<open>A race\<close>

text \<open>
  The moves of two samples below the threshold, alternating.
\<close>

definition taking_turns :: "instant \<Rightarrow> (instant \<times> nat) list" where
  "taking_turns t = [(t, 0), (t, 1), (t, 0), (t, 1), (t, 0), (t, 1), (t, 0), (t, 1), (t, 0), (t, 1)]"

lemma turns_facts:
  assumes "\<not> breaches cfg m1" "\<not> breaches cfg m2" "MachineID m1 = k" "MachineID m2 = k"
    and "mem_lookup (store w) k = c" "0 < c"
    and "s0 = \<lparr>srv = w, pcs = [Pending m1, Pending m2], clock = t\<rparr>"
  shows "proper sv memory_store noop_notifier cfg (taking_turns t) s0"
    and "pcs (run_schedule sv memory_store noop_notifier cfg (taking_turns t) s0) = [Finished, Finished]"
    and "saved_events (trace (srv (run_schedule sv memory_store noop_notifier cfg (taking_turns t) s0))) =
      saved_events (trace w) @ [recovery_record cfg m1 c (recovery_event cfg m1 c t),
        recovery_record cfg m2 c (recovery_event cfg m2 c t)]"
proof -
  note defs = taking_turns_def with_store_def mem_defs saveAlertEvent_def Let_def
  have c: "(case counts (store w) k of None \<Rightarrow> 0 | Some n \<Rightarrow> n) = c"
    using assms(5) by (simp add: mem_lookup_def)
  show "proper sv memory_store noop_notifier cfg (taking_turns t) s0"
    using assms(1-4,6) c by (simp add: assms(7) defs)
  show "pcs (run_schedule sv memory_store noop_notifier cfg (taking_turns t) s0) = [Finished, Finished]"
    using assms(1-4,6) c by (simp add: assms(7) defs)
  show "saved_events (trace (srv (run_schedule sv memory_store noop_notifier cfg (taking_turns t) s0))) =
      saved_events (trace w) @ [recovery_record cfg m1 c (recovery_event cfg m1 c t),
        recovery_record cfg m2 c (recovery_event cfg m2 c t)]"
    using assms(1-4,6) c by (simp add: assms(7) defs saved_events_def)
qed

text \<open>
  C36. Reading the breach count and resetting it are two steps, and two requests can both read it
  before either resets it: then two samples of a machine below the threshold each report its
  recovery, where one after the other only the first does.
\<close>

theorem recoveries_race:
  assumes "\<not> breaches cfg m1" and "\<not> breaches cfg m2" and "MachineID m1 = k" and "MachineID m2 = k"
    and "mem_lookup (store w) k = c" and "0 < c"
  shows "(\<exists>evs s. conc_run sv memory_store noop_notifier cfg
        \<lparr>srv = w, pcs = [Pending m1, Pending m2], clock = t\<rparr> evs s \<and> pcs s = [Finished, Finished] \<and>
      saved_events (trace (srv s)) = saved_events (trace w) @
        [recovery_record cfg m1 c (recovery_event cfg m1 c t), recovery_record cfg m2 c (recovery_event cfg m2 c t)]) \<and>
    saved_events (trace (eval_run sv memory_store noop_notifier cfg [(\<lambda>_. t, m1), (\<lambda>_. t, m2)] w)) =
      saved_events (trace w) @ [recovery_record cfg m1 c (recovery_event cfg m1 c t)]"
proof
  let ?s0 = "\<lparr>srv = w, pcs = [Pending m1, Pending m2], clock = t\<rparr>"
  note turns = turns_facts [OF assms refl, of sv t]
  from run_schedule_run [OF turns(1) start] turns(2,3)
  show "\<exists>evs s. conc_run sv memory_store noop_notifier cfg ?s0 evs s \<and> pcs s = [Finished, Finished] \<and>
      saved_events (trace (srv s)) = saved_events (trace w) @
        [recovery_record cfg m1 c (recovery_event cfg m1 c t), recovery_record cfg m2 c (recovery_event cfg m2 c t)]"
    by blast
  have "(case counts (store w) k of None \<Rightarrow> 0 | Some n \<Rightarrow> n) = c"
    using assms(5) by (simp add: mem_lookup_def)
  with assms show "saved_events (trace (eval_run sv memory_store noop_notifier cfg [(\<lambda>_. t, m1), (\<lambda>_. t, m2)] w)) =
      saved_events (trace w) @ [recovery_record cfg m1 c (recovery_event cfg m1 c t)]"
    by (simp add: eval_defs mem_defs Let_def)
qed

definition one_breach :: "memory_alert_store server" where
  "one_breach = start_server \<lparr>counts = [''a'' \<mapsto> 1], cooldowns = Map.empty\<rparr>"

lemma example_normal:
  "\<not> breaches example_config (example_sample ''a'' 40)" "MachineID (example_sample ''a'' 40) = ''a''"
  "mem_lookup (store one_breach) ''a'' = 1" "saved_events (trace one_breach) = []"
  by (simp_all add: one_breach_def start_server_def mem_lookup_def)

theorem recoveries_race_witness:
  "\<exists>evs s. conc_run (example_services 200) memory_store noop_notifier example_config
      \<lparr>srv = one_breach, pcs = [Pending (example_sample ''a'' 40), Pending (example_sample ''a'' 40)], clock = 5\<rparr> evs s \<and>
    length (saved_events (trace (srv s))) = 2"
proof -
  from recoveries_race [OF example_normal(1) example_normal(1) example_normal(2) example_normal(2) example_normal(3),
      of "example_services 200" 5]
  obtain evs s where run: "conc_run (example_services 200) memory_store noop_notifier example_config
      \<lparr>srv = one_breach, pcs = [Pending (example_sample ''a'' 40), Pending (example_sample ''a'' 40)], clock = 5\<rparr> evs s"
    and rows: "length (saved_events (trace (srv s))) = 2"
    by (auto simp: example_normal(4) simp del: split_paired_Ex)
  then show ?thesis by (intro exI conjI)
qed

text \<open>A recovery caught between the insertion of its row and the counting of it.\<close>

theorem concurrent_books_balance_witness:
  "\<exists>evs s. conc_run (example_services 200) memory_store (notifier_of (example_services 200) NoopNotifier)
      example_config \<lparr>srv = one_breach, pcs = [], clock = 0\<rparr> evs s \<and> pcs s = [Recording ''RECOVERY'' None] \<and>
    count_where (\<lambda>r. rec_Level r = ''RECOVERY'') (saved_events (trace (srv s))) = 1 \<and>
    counters (srv s) (serverAlertEventsSavedTotal, [''RECOVERY'', ''success'']) +
    counters (srv s) (serverAlertEventsSavedTotal, [''RECOVERY'', ''failed'']) = 0"
proof -
  let ?sv = "example_services 200" and ?m = "example_sample ''a'' 40"
  let ?nt = "notifier_of ?sv NoopNotifier :: memory_alert_store notifier_ops"
  let ?fresh = "\<lparr>srv = one_breach, pcs = [], clock = 0\<rparr>" and ?arrived = "\<lparr>srv = one_breach, pcs = [Pending ?m], clock = 3\<rparr>"
  let ?sched = "[(3, 0), (3, 0), (3, 0), (3, 0)] :: (instant \<times> nat) list"
  obtain final where final_def: "final = run_schedule ?sv memory_store ?nt example_config ?sched ?arrived" by simp
  have "conc_step ?sv memory_store ?nt example_config ?fresh (Arrive ?m) (?fresh\<lparr>pcs := pcs ?fresh @ [Pending ?m], clock := 3\<rparr>)"
    by (rule arrive) simp
  then have run1: "conc_run ?sv memory_store ?nt example_config ?fresh ([] @ [Arrive ?m]) ?arrived"
    by (intro next_event [OF start]) simp
  note defs = with_store_def mem_defs saveAlertEvent_def one_breach_def start_server_def Let_def saved_events_def
    example_services_def
  have p: "proper ?sv memory_store ?nt example_config ?sched ?arrived" by (simp add: defs)
  have f: "pcs final = [Recording ''RECOVERY'' None]"
    and r: "count_where (\<lambda>r. rec_Level r = ''RECOVERY'') (saved_events (trace (srv final))) = 1"
    by (simp_all add: final_def defs rec_level_recovery noop_notifier_def)
  have run: "conc_run ?sv memory_store ?nt example_config
      \<lparr>srv = start_server \<lparr>counts = [''a'' \<mapsto> 1], cooldowns = Map.empty\<rparr>, pcs = [], clock = 0\<rparr>
      (([] @ [Arrive ?m]) @ map (Move \<circ> snd) ?sched) final"
    using run_schedule_run [OF p run1] unfolding one_breach_def final_def .
  note balance = concurrent_books_balance [OF run, where lvl = "''RECOVERY''", THEN conjunct2, unfolded r f]
  have "counters (srv final) (serverAlertEventsSavedTotal, [''RECOVERY'', ''success'']) +
    counters (srv final) (serverAlertEventsSavedTotal, [''RECOVERY'', ''failed'']) = 0" using balance by simp
  with run f r show ?thesis unfolding one_breach_def by (intro exI [of _ final] exI conjI)
qed

end
