(* ===== verification/Alert_Rows.thy ===== *)
theory Alert_Rows
  imports Server_Main
begin

text \<open>
  The rows of the alert table as a type: what every row the server ever hands to the database looks
  like, as an invariant of every operation that can save one.
\<close>

text \<open>The two kinds of rows \<open>evaluateCPUAlert\<close> builds.\<close>

definition p0_row :: "app_config \<Rightarrow> alert_event_record \<Rightarrow> bool" where
  "p0_row cfg r \<longleftrightarrow>
     rec_Level r = ''P0'' \<and> f64_gt (rec_CurrentValue r) (CPUAlertThreshold cfg) \<and>
     rec_TriggerCount r = AlertTriggerCount cfg \<and>
     (if rec_NotifyStatus r = ''sent'' then rec_NotifyError r = [] else rec_NotifyStatus r = ''failed'')"

definition recovery_row :: "app_config \<Rightarrow> alert_event_record \<Rightarrow> bool" where
  "recovery_row cfg r \<longleftrightarrow>
     rec_Level r = ''RECOVERY'' \<and> \<not> f64_gt (rec_CurrentValue r) (CPUAlertThreshold cfg) \<and>
     0 < rec_TriggerCount r \<and> rec_NotifyStatus r = ''sent'' \<and> rec_NotifyError r = []"

definition row_ok :: "app_config \<Rightarrow> alert_event_record \<Rightarrow> bool" where
  "row_ok cfg r \<longleftrightarrow>
     rec_ID r = 0 \<and> rec_CreatedAt r = 0 \<and> \<not> blank (rec_MachineID r) \<and> rec_Metric r = ''cpu_usage'' \<and>
     rec_ThresholdValue r = CPUAlertThreshold cfg \<and> rec_CooldownSec r = AlertCooldownSeconds cfg \<and>
     (p0_row cfg r \<or> recovery_row cfg r)"

definition rows_ok :: "app_config \<Rightarrow> 's server \<Rightarrow> bool" where
  "rows_ok cfg w \<longleftrightarrow> list_all (row_ok cfg) (saved_events (trace w))"

lemma rows_ok_frame [simp]:
  "rows_ok cfg (w\<lparr>store := s\<rparr>) = rows_ok cfg w"
  "rows_ok cfg (inc name ls w) = rows_ok cfg w"
  "rows_ok cfg (observeDuration name w) = rows_ok cfg w"
  "rows_ok cfg (snd (http_do sv req w)) = rows_ok cfg w"
  "rows_ok cfg (snd (saveAlertEventObserved sv r w)) \<longleftrightarrow> rows_ok cfg w \<and> row_ok cfg r"
  "rows_ok cfg (start_server s)"
  by (auto simp: rows_ok_def start_server_def)

lemma row_ok_recovery:
  "\<not> blank (MachineID m) \<Longrightarrow> \<not> breaches cfg m \<Longrightarrow> 0 < n \<Longrightarrow> row_ok cfg (recovery_record cfg m n e)"
  by (simp add: row_ok_def recovery_row_def recovery_record_def)

context notifier_contract
begin

lemma rows_ok_notify [simp]: "rows_ok cfg (snd (NotifyCPURecovery ops e w)) = rows_ok cfg w"
  by (simp add: rows_ok_def)

lemma rows_ok_raise:
  assumes "\<not> blank (MachineID m)" and "breaches cfg m" and "rows_ok cfg w"
  shows "rows_ok cfg (raise_alert sv ops cfg m now w)"
proof -
  obtain st err where s: "saved_events (trace (raise_alert sv ops cfg m now w)) =
      saved_events (trace w) @ [p0_record cfg m (p0_event cfg m now) st err]"
    "(st, err) = (case fst (NotifyCPUAlert ops (p0_event cfg m now) w) of
         None \<Rightarrow> (''sent'', []) | Some e \<Rightarrow> (''failed'', e))"
    using raise_alert_saved [of sv cfg m now w] by blast
  have "row_ok cfg (p0_record cfg m (p0_event cfg m now) st err)"
    using s(2) assms(1,2) by (auto simp: row_ok_def p0_row_def p0_record_def p0_event_def split: option.splits)
  with s(1) assms(3) show ?thesis by (simp add: rows_ok_def)
qed

lemma rows_ok_evaluate:
  assumes "\<not> blank (MachineID m)" and "rows_ok cfg w"
  shows "rows_ok cfg (evaluateCPUAlert sv st ops cfg clk m w)"
  using assms
  by (auto simp: eval_defs Let_def rows_ok_raise row_ok_recovery split: prod.split sum.split option.split)

lemma rows_ok_process:
  "\<not> blank (MachineID m) \<Longrightarrow> rows_ok cfg w \<Longrightarrow> rows_ok cfg (snd (processMetricsPayload sv st ops cfg clk m w))"
  by (rule process_cases [of sv cfg st ops clk m w]) (simp_all add: rows_ok_evaluate)

end

lemma read_payload_named: "read_payload fl nowu body = Inr m \<Longrightarrow> \<not> blank (MachineID m)"
  by (auto simp: read_payload_def split: sum.splits if_splits)

lemma rows_ok_serve_one:
  assumes "rows_ok cfg w"
  shows "rows_ok cfg (snd (serve_one fl sv st (notifier_of sv n) cfg q w))"
proof (cases "rq_entry q")
  case Process
  with assms configured.rows_ok_process [OF read_payload_named assms, of fl "rq_unix q" "rq_body q"] show ?thesis
    by (auto simp: serve_one_def handle_process_def Let_def prod_eq_iff split: sum.split prod.split option.split)
next
  case Metrics
  let ?h = "handle_metrics fl sv st (notifier_of sv n) cfg (initPublisher fl sv cfg (rq_now q))
      (rq_clock q) (rq_unix q) (rq_body q) w"
  have "rows_ok cfg (snd ?h)"
  proof (rule metrics_cases [of fl "rq_unix q" "rq_body q" sv st "notifier_of sv n" cfg "rq_now q" "rq_clock q" w])
    fix m r w1
    assume "PublishMetrics fl sv (NewKafkaPublisher (KafkaBrokers cfg) (KafkaTopic cfg)) (rq_now q)
        (event_of m) w = (r, w1)"
    then have "saved_events (trace w1) = saved_events (trace w)" by (metis kafka.publish_no_rows snd_conv)
    with assms have "rows_ok cfg w1" by (simp add: rows_ok_def)
    moreover fix reply
    assume "?h = ((if r = None then 202 else 500, reply),
        inc serverIngestRequestsTotal
          [''/api/v1/metrics'', ''kafka'', if r = None then ''accepted'' else ''error'']
          (inc serverKafkaPublishTotal [KafkaTopic cfg, if r = None then ''success'' else ''error''] w1))"
    ultimately show "rows_ok cfg (snd ?h)" by simp
  next
    fix m r w1
    assume "read_payload fl (rq_unix q) (rq_body q) = Inr m"
      and "processMetricsPayload sv st (notifier_of sv n) cfg (rq_clock q) m w = (r, w1)"
    with configured.rows_ok_process [OF read_payload_named assms, of fl "rq_unix q" "rq_body q" m]
    have "rows_ok cfg w1" by (metis snd_conv)
    moreover assume "?h = (case r of Some err \<Rightarrow> (500, failure_body err) | None \<Rightarrow> (200, ok_body),
        inc serverIngestRequestsTotal
          [''/api/v1/metrics'', ''direct'', if r = None then ''success'' else ''error''] w1)"
    ultimately show "rows_ok cfg (snd ?h)" by simp
  qed (use assms in simp)
  then show ?thesis by (simp add: serve_one_def Metrics)
qed

lemma rows_ok_serve_all:
  "rows_ok cfg (app_alerts app) \<Longrightarrow> rows_ok cfg (app_alerts (snd (serve_all ow cfg qs app)))"
proof (induction qs arbitrary: app)
  case (Cons q qs)
  from Cons.prems have "rows_ok cfg (app_alerts (snd (route ow cfg q app)))"
    by (auto simp: route_alerts Let_def rows_ok_serve_one split: option.split endpoint.split)
  from Cons.IH [OF this] show ?case by (simp add: prod.case_eq_if Let_def)
qed simp

text \<open>
  C25. Every row the server hands to the database has the shape of its kind, over any requests from
  the start: an unset identifier, a machine that is not blank, the metric, threshold and cooldown of
  the configuration; and it is either a P0 row, for a value above the threshold, with the configured
  trigger count and the status sent without an error or failed, or a recovery row, for a value that
  is not above it, with a positive count and the status sent.
\<close>

theorem alert_rows_well_formed:
  assumes "start_main bw cfg = Listening app lines"
  shows "list_all (row_ok cfg) (saved_events (trace (app_alerts (snd (serve_all ow cfg qs app)))))"
proof -
  have "rows_ok cfg (app_alerts app)"
    using assms by (auto simp: start_main_def Let_def split: sum.splits prod.splits)
  from rows_ok_serve_all [OF this] show ?thesis by (simp add: rows_ok_def)
qed

theorem alert_rows_well_formed_witness:
  "\<exists>app lines. start_main example_boot example_cfg = Listening app lines \<and>
     list_all (row_ok example_cfg) (saved_events (trace (app_alerts (snd (serve_all example_outside example_cfg
       [example_request ''POST'' ''/api/v1/metrics'' [] (Inr (JObj [(''machine_id'', JStr ''a'')]))] app)))))"
  using example_boots alert_rows_well_formed by blast

end
