(* ===== verification/Spec2Isabelle.thy ===== *)
theory Spec2Isabelle
  imports Wiring Operator_Main Worker_Main Concurrent Alert_Rows
begin

text \<open>
  A model of cloudops-monitor, a small monitoring platform in Go: an agent on every host, a server
  that ingests its samples, an optional Kafka queue with a worker, an operator for Kubernetes and an
  assistant that explains alerts.

  \<^bold>\<open>The parts and how they interact\<close>

  The agent (\<open>agent/main.go\<close>) registers its machine with the server and posts a sample of CPU,
  memory and disk use every ten seconds. The server (\<open>main.go\<close>, \<open>config.go\<close>, \<open>alert_store.go\<close>,
  \<open>alert_event.go\<close>, \<open>notifier.go\<close>, \<open>server_metrics.go\<close>, \<open>health.go\<close>, \<open>db.go\<close>) either processes a
  sample at once (direct mode) or publishes it to Kafka (Kafka mode, \<open>internal/ingest/publisher\<close>),
  from where the worker (\<open>cmd/worker\<close>) forwards it to the server's process endpoint. Processing
  writes the sample to VictoriaMetrics and then evaluates the CPU alert of the machine: a count of
  consecutive breaches and a cooldown, both in the alert store (memory or Redis), decide on a P0
  alert, which is notified and saved; a recovery is notified and saved likewise. The operator
  (\<open>cmd/operator\<close>) makes the cluster follow a custom resource. The assistant (\<open>cmd/assistant\<close>)
  answers a triage request from the server's recent alerts, links to metrics and logs, and the
  diagnosis of a language model.

  \<^bold>\<open>Theories and code\<close>

  \<^item> \<open>Prelude\<close>, \<open>Go_Strings\<close>, \<open>Go_Strconv\<close>, \<open>Go_Json\<close>, \<open>Http\<close>: what the program uses of Go's
    library: 64-bit arithmetic, \<open>strings\<close>, \<open>strconv\<close>, fixed-point formatting, decoding JSON
    documents into structs, URLs and HTTP messages. Each with its own lemmas: printing and parsing
    integers, escaping and reading query strings, what decoding keeps.
  \<^item> \<open>Config\<close> (\<open>config.go\<close>): the record \<open>app_config\<close> and its reading from an environment;
    \<open>Cmd_Env\<close>: reading settings in the other programs.
  \<^item> \<open>Alert_Store\<close> (\<open>alert_store.go\<close>): the interface \<open>AlertStateStore\<close> as the record \<open>store_ops\<close>
    and the locale \<open>alert_store\<close> of its laws; the in-memory store, with its interpretation.
    \<open>Redis_Store\<close>: the store on a Redis client, which is the record \<open>redis_client\<close>; its documented
    commands are the hypothesis of the theorems, and a reference client shows it can hold.
  \<^item> \<open>Server_World\<close>: the state of the server, \<open>server\<close>: the alert store, the trace of the calls it
    has made, its Prometheus series (\<open>server_metrics.go\<close>); and the rows and messages (\<open>alert_event.go\<close>).
  \<^item> \<open>Notifier\<close> (\<open>notifier.go\<close>): the interface \<open>Notifier\<close> as a record and a locale, interpreted on the
    no-op and the webhook notifier and on what \<open>initNotifier\<close> chooses.
  \<^item> \<open>Alert_Eval\<close> (\<open>main.go\<close>, \<open>evaluateCPUAlert\<close>): the evaluation, on any store and notifier that
    keep their contracts (locale \<open>alert_engine\<close>); its specification as an abstract machine of a
    count and the time of the last grant, and the refinement.
  \<^item> \<open>Publisher\<close> (\<open>internal/ingest/publisher\<close>), \<open>Ingest\<close> (\<open>processMetricsPayload\<close>), \<open>Ingest_Api\<close> (the
    two ingest handlers and sequences of requests): what is written, evaluated, published, answered
    and counted.
  \<^item> \<open>Concurrent\<close>: the handlers run beside one another, so their evaluations interleave. An evaluation is
    cut at its calls on the store, the notifier and the database; a step relation takes one step of
    one of any number of evaluations, on the shared store and counters, with a clock that never
    goes back. The lemmas show that an evaluation alone is \<open>evaluateCPUAlert\<close>, and what interleaving
    keeps and what it does not: the grants of a cooldown stay a cooldown apart, so the P0 rows of a
    run are bounded by its length, those already under way when it begins come on top, and rows and
    counters differ by the requests between the one and the other; but one outage may be reported as
    two recoveries.
  \<^item> \<open>Worker\<close> (\<open>cmd/worker\<close>): its loop over what the reader returns, its requests and its series;
    \<open>Worker_Main\<close>: its start, and the brokers of both ends of the queue, from the environment on.
  \<^item> \<open>Pipeline\<close>: the queue is transparent, a cross-component equivalence.
  \<^item> \<open>Telemetry\<close> (\<open>structured_log.go\<close>, \<open>observability.go\<close>): log lines as the JSON object that is written,
    the set-up of tracing, and the trace context carried by a message.
  \<^item> \<open>Registry\<close> (\<open>main.go\<close>, the handlers of machines and recent alerts), \<open>Health\<close> (\<open>health.go\<close>), \<open>Db\<close>
    (\<open>db.go\<close>).
  \<^item> \<open>Server_Main\<close> (\<open>main.go\<close>, \<open>main\<close>): the server as one program, its start, its routes and runs over
    any requests; the state \<open>app\<close> is the alert side and the machine table. \<open>Alert_Rows\<close>: the shape
    of the rows it saves.
  \<^item> \<open>Operator\<close> (\<open>cmd/operator\<close>): \<open>parseSpec\<close>, the reconcile steps and the status; the Kubernetes API
    is the record \<open>kube_api\<close>, its documented behaviour \<open>kube_behaves\<close>, the locale
    \<open>kube_cluster\<close> holds the client's lemmas; \<open>sync\<close> is the specification. The properties state what a
    successful pass leaves of each object, and what a pass reports on every branch.
    \<open>Operator_Main\<close>: its start and its loop, with what others do to the cluster between two passes.
  \<^item> \<open>Agent\<close> (\<open>agent/main.go\<close>): identity, registration, the reporting loop; what a run of it posts.
  \<^item> \<open>Assistant\<close> (\<open>cmd/assistant\<close>): configuration, links, advice, the diagnosis, the endpoint.
  \<^item> \<open>Wiring\<close>: agent, server and assistant understand one another, up to the alerts of a triage being
    the rows the evaluation saved.

  \<^bold>\<open>Conventions\<close>

  A Go string is its list of bytes, an error its text, a nil slice or pointer \<open>None\<close>. Handlers take and
  return their state explicitly. What the outside answers (databases, brokers, HTTP peers, the
  operating system, the clock) is an argument, in general a function of the calls made so far, so
  that a theorem holds whatever the answers are; where documented behaviour of a library is needed,
  it is a named hypothesis (\<open>redis_behaves\<close>, \<open>kube_behaves\<close>, \<open>kube_answers\<close>, \<open>machines_behave\<close>,
  \<open>alerts_behave\<close>, \<open>alerts_kept\<close>, \<open>float_roundtrip\<close>) with a reference instance. A query carries the
  order the code gives it, and \<open>alerts_behave\<close> promises the order a query asks for; \<open>alerts_kept\<close> has
  the rows in the table with the precision of its time column. Panics are error values (a nil memory figure in the
  agent, a non-positive ticker in the operator, \<open>None\<close> in \<open>handle_deps\<close>). Every loop is a
  structural recursion: over the attempts left, the messages the reader returns, the requests
  served, or the passes of the agent and the operator, so no fuel is needed and no theorem is
  conditional on termination; the interleaved evaluations are a step relation, in which a thread
  only moves forward.

  \<^bold>\<open>What is not modelled\<close>

  Plain \<^verbatim>\<open>log.Printf\<close> lines, spans (but for \<open>recordSpanError\<close>) and measured durations; which handler
  writes which log line, except those of start and of a sent alert; the set-up of HTTP servers and
  clients, and signal handling;
  the text of JSON documents (documents are syntax trees; a text that is none is an error);
  \<open>strconv.ParseFloat\<close> and the shortest printing of floats (the two fields of \<open>float_lib\<close>), the
  Unicode tables behind \<open>strings.ToLower\<close> and invalid UTF-8; cancellation of contexts, which is one
  of the errors a call may return. Requests are whole steps except in \<open>Concurrent\<close>; there, one call on
  the store is one step, which is exact but for the Redis count, whose expiry is set by a second
  command.
\<close>

end
